(* ===== verification/ESP_Prelude.thy ===== *)
theory ESP_Prelude
  imports Main "HOL-Library.Word"
begin

text \<open>
  Shared vocabulary of the development: the machine types of the ESP8266 (Xtensa LX106, 32-bit
  \<open>int\<close>, \<open>long\<close>, \<open>size_t\<close> and \<open>time_t\<close>, unsigned plain \<open>char\<close>, little-endian memory), the
  truncations a store into such a type performs, byte arrays with \<open>memcpy\<close>, and the generic
  list lemmas the components share. The collection \<open>trunc_simps\<close> removes truncations of values
  that are known to fit, \<open>byte_simps\<close> rewrites reads of byte arrays after a \<open>memcpy\<close>.
\<close>

named_theorems trunc_simps "removal of truncations of values that fit"
named_theorems byte_simps "reads of byte arrays after a copy"

section \<open>Machine types\<close>

type_synonym u8 = "8 word"
type_synonym u16 = "16 word"
type_synonym u32 = "32 word"

text \<open>
  Where a value is only added, compared and stored, it is a natural number with the truncation
  of the C type written out at each store. \<open>sub32\<close> is the wrapping subtraction of
  \<open>uint32_t\<close>.
\<close>

definition to_u8 :: "nat \<Rightarrow> nat" where
  "to_u8 n = n mod 2 ^ 8"

definition to_u32 :: "nat \<Rightarrow> nat" where
  "to_u32 n = n mod 2 ^ 32"

definition sub32 :: "nat \<Rightarrow> nat \<Rightarrow> nat" where
  "sub32 a b = (a + 2 ^ 32 - b) mod 2 ^ 32"

lemma to_u8_id [trunc_simps]: "n < 256 \<Longrightarrow> to_u8 n = n"
  by (simp add: to_u8_def)

lemma to_u8_bound [simp]: "to_u8 n < 256"
  by (simp add: to_u8_def)

lemma to_u32_id [trunc_simps]: "n < 4294967296 \<Longrightarrow> to_u32 n = n"
  by (simp add: to_u32_def)

lemma to_u32_bound [simp]: "to_u32 n < 4294967296"
  by (simp add: to_u32_def)

lemma sub32_id [trunc_simps]: "b \<le> a \<Longrightarrow> a < 4294967296 \<Longrightarrow> sub32 a b = a - b"
proof -
  assume "b \<le> a" and "a < 4294967296"
  then have "sub32 a b = (a - b + 4294967296) mod 4294967296" by (simp add: sub32_def)
  with \<open>a < 4294967296\<close> show ?thesis by simp
qed

lemma unat_u32_bound: "unat (w :: u32) < 4294967296"
  using unsigned_less [of w] by simp

section \<open>Byte arrays\<close>

text \<open>
  \<open>blit a bs xs\<close> is the array after \<open>memcpy(xs + a, bs, |bs|)\<close> and \<open>bytes_at a n xs\<close> the bytes
  \<open>memcpy\<close> reads from \<open>xs + a\<close>; the callers check the bounds.
\<close>

definition blit :: "nat \<Rightarrow> 'a list \<Rightarrow> 'a list \<Rightarrow> 'a list" where
  "blit a bs xs = take a xs @ bs @ drop (a + length bs) xs"

definition bytes_at :: "nat \<Rightarrow> nat \<Rightarrow> 'a list \<Rightarrow> 'a list" where
  "bytes_at a n xs = take n (drop a xs)"

lemma length_blit [byte_simps]:
  "a + length bs \<le> length xs \<Longrightarrow> length (blit a bs xs) = length xs"
  by (simp add: blit_def)

lemma length_bytes_at [byte_simps]: "a + n \<le> length xs \<Longrightarrow> length (bytes_at a n xs) = n"
  by (simp add: bytes_at_def)

lemma nth_blit:
  assumes "a + length bs \<le> length xs" and "i < length xs"
  shows "blit a bs xs ! i = (if a \<le> i \<and> i < a + length bs then bs ! (i - a) else xs ! i)"
  using assms by (auto simp: blit_def nth_append min_def)

lemma nth_bytes_at: "a + n \<le> length xs \<Longrightarrow> i < n \<Longrightarrow> bytes_at a n xs ! i = xs ! (a + i)"
  by (simp add: bytes_at_def)

lemma bytes_at_blit_same [byte_simps]:
  "a + length bs \<le> length xs \<Longrightarrow> bytes_at a (length bs) (blit a bs xs) = bs"
  by (simp add: blit_def bytes_at_def)

lemma bytes_at_blit_other [byte_simps]:
  assumes "a + length bs \<le> length xs" and "b + n \<le> length xs"
    and "b + n \<le> a \<or> a + length bs \<le> b"
  shows "bytes_at b n (blit a bs xs) = bytes_at b n xs"
proof (rule nth_equalityI)
  show "length (bytes_at b n (blit a bs xs)) = length (bytes_at b n xs)"
    using assms by (simp add: length_bytes_at length_blit)
next
  fix i assume "i < length (bytes_at b n (blit a bs xs))"
  then have "i < n" using assms by (simp add: length_bytes_at length_blit)
  then show "bytes_at b n (blit a bs xs) ! i = bytes_at b n xs ! i"
    using assms by (auto simp: nth_bytes_at length_blit nth_blit)
qed

text \<open>C arrays: a read or a store outside the array has no defined result.\<close>

definition arr_get :: "'a list \<Rightarrow> nat \<Rightarrow> 'a option" where
  "arr_get xs i = (if i < length xs then Some (xs ! i) else None)"

definition arr_set :: "'a list \<Rightarrow> nat \<Rightarrow> 'a \<Rightarrow> 'a list option" where
  "arr_set xs i x = (if i < length xs then Some (xs[i := x]) else None)"

lemma arr_get_in [simp]: "i < length xs \<Longrightarrow> arr_get xs i = Some (xs ! i)"
  by (simp add: arr_get_def)

lemma arr_set_in [simp]: "i < length xs \<Longrightarrow> arr_set xs i x = Some (xs[i := x])"
  by (simp add: arr_set_def)

section \<open>Little-endian 32-bit words\<close>

definition le32 :: "u32 \<Rightarrow> u8 list" where
  "le32 w = [of_nat (unat w), of_nat (unat w div 256), of_nat (unat w div 65536),
             of_nat (unat w div 16777216)]"

definition of_le32 :: "u8 list \<Rightarrow> u32" where
  "of_le32 bs = of_nat (unat (bs ! 0) + unat (bs ! 1) * 256 + unat (bs ! 2) * 65536
                        + unat (bs ! 3) * 16777216)"

lemma length_le32 [simp]: "length (le32 w) = 4"
  by (simp add: le32_def)

lemma nat_bytes: "n mod 256 + (n div 256) mod 256 * 256 + (n div 65536) mod 256 * 65536
    + (n div 16777216) mod 256 * 16777216 = (n mod 4294967296 :: nat)"
proof -
  have d: "n div 65536 = n div 256 div 256" "n div 16777216 = n div 256 div 256 div 256"
    by (simp_all add: div_mult2_eq [symmetric])
  have "n mod 4294967296 = n mod (256 * (256 * (256 * 256)))" by simp
  also have "\<dots> = 256 * (256 * (256 * (n div 256 div 256 div 256 mod 256)
      + n div 256 div 256 mod 256) + n div 256 mod 256) + n mod 256"
    by (simp only: mod_mult2_eq)
  finally show ?thesis unfolding d by simp
qed

lemma unat_of_nat_u8: "unat (of_nat n :: u8) = n mod 256"
  by (simp add: unat_of_nat)

lemma unat_of_nat_u32: "n < 4294967296 \<Longrightarrow> unat (of_nat n :: u32) = n"
  by (simp add: unat_of_nat)

lemma of_le32_le32 [byte_simps]: "of_le32 (le32 w) = w"
proof -
  have "of_le32 (le32 w) = of_nat (unat w mod 4294967296)"
    unfolding nat_bytes [symmetric] of_le32_def le32_def
    by (simp only: unat_of_nat_u8 nth_Cons_0 nth_Cons_Suc One_nat_def numeral_2_eq_2 numeral_3_eq_3)
  then show ?thesis using unat_u32_bound [of w] by simp
qed

section \<open>Arithmetic\<close>

lemma mixed_radix_unique:
  assumes "q * n + r = q' * n + r'" and "r < n" and "r' < (n :: nat)"
  shows "q = q' \<and> r = r'"
proof -
  have "(q * n + r) mod n = (q' * n + r') mod n" and "(q * n + r) div n = (q' * n + r') div n"
    by (simp_all only: assms(1))
  then show ?thesis using assms(2,3) by simp
qed

lemma words_disjoint: "p \<noteq> q \<Longrightarrow> p * 4 + 4 \<le> q * 4 \<or> q * 4 + 4 \<le> p * (4 :: nat)"
  by arith

end
