(* ===== verification/Time_Calendar.thy ===== *)
theory Time_Calendar
  imports ESP_Prelude
begin

text \<open>
  Calendar arithmetic of the Time library (\<open>src/Time/Time.cpp\<close>, lines 121 to 224): the leap-year
  macro, \<open>breakTime\<close> with its year and month loops, and \<open>makeTime\<close>. A time is the bit pattern of
  a \<open>uint32_t\<close>; the fields of \<open>tmElements_t\<close> are bytes, the year counts from 1970. The loops keep
  the code's types: \<open>year\<close> is a \<open>uint8_t\<close> that wraps, \<open>days\<close> a 32-bit counter that wraps, so that
  the year loop returning at all is a theorem (\<open>year_loop_returns\<close>). The header \<open>TimeLib.h\<close> is not
  part of the repository: its macros are the record \<open>timelib\<close>, and \<open>timelib_ok\<close> states what the
  library's documentation says of them.
\<close>

section \<open>Time elements and the macros\<close>

record tmElements =
  Second :: nat
  Minute :: nat
  Hour :: nat
  Wday :: nat
  Day :: nat
  Month :: nat
  Year :: nat

record timelib =
  SECS_PER_MIN :: u32
  SECS_PER_HOUR :: u32
  SECS_PER_DAY :: u32
  tmYearToCalendar :: "nat \<Rightarrow> nat"

definition timelib_ok :: "timelib \<Rightarrow> bool" where
  "timelib_ok T \<longleftrightarrow> SECS_PER_MIN T = 60 \<and> SECS_PER_HOUR T = 3600 \<and> SECS_PER_DAY T = 86400
     \<and> (\<forall>y < 256. tmYearToCalendar T y = y + 1970)"

definition timelib_doc :: timelib where
  "timelib_doc = \<lparr>SECS_PER_MIN = 60, SECS_PER_HOUR = 3600, SECS_PER_DAY = 86400,
                  tmYearToCalendar = (\<lambda>y. y + 1970)\<rparr>"

lemma timelib_doc_ok [simp]: "timelib_ok timelib_doc"
  by (simp add: timelib_ok_def timelib_doc_def)

definition LEAP_YEAR :: "nat \<Rightarrow> bool" where
  "LEAP_YEAR Y \<longleftrightarrow> 1970 + Y > 0 \<and> (1970 + Y) mod 4 = 0
                    \<and> ((1970 + Y) mod 100 \<noteq> 0 \<or> (1970 + Y) mod 400 = 0)"

definition monthDays :: "nat list" where
  "monthDays = [31,28,31,30,31,30,31,31,30,31,30,31]"

section \<open>breakTime\<close>

definition yearDays :: "nat \<Rightarrow> nat" where
  "yearDays year = (if LEAP_YEAR year then 366 else 365)"

text \<open>\<open>while((unsigned)(days += (LEAP_YEAR(year) ? 366 : 365)) <= time) year++;\<close>\<close>

partial_function (option) year_loop :: "nat \<Rightarrow> nat \<Rightarrow> nat \<Rightarrow> (nat \<times> nat) option" where
  "year_loop time year days =
     (let days' = to_u32 (days + yearDays year) in
      if days' \<le> time then year_loop time (to_u8 (year + 1)) days' else Some (year, days'))"

definition monthLength :: "nat \<Rightarrow> nat \<Rightarrow> nat" where
  "monthLength year month =
     (if month = 1 then (if LEAP_YEAR year then 29 else 28) else monthDays ! month)"

text \<open>The \<open>for\<close> loop over the months, with its early \<open>break\<close>; it returns \<open>month\<close> and \<open>time\<close>.\<close>

function month_loop :: "nat \<Rightarrow> nat \<Rightarrow> nat \<Rightarrow> nat \<times> nat" where
  "month_loop year month time =
     (if month < 12 then
        (if monthLength year month \<le> time
         then month_loop year (month + 1) (time - monthLength year month)
         else (month, time))
      else (month, time))"
  by pat_completeness auto
termination
  by (relation "measure (\<lambda>(year, month, time). 12 - month)") auto

declare month_loop.simps [simp del]

definition breakTime :: "u32 \<Rightarrow> tmElements option" where
  "breakTime timeInput =
     (let time = unat timeInput;
          sec = time mod 60; time = time div 60;
          mnt = time mod 60; time = time div 60;
          hr = time mod 24; time = time div 24;
          wday = to_u32 (time + 4) mod 7 + 1
      in case year_loop time 0 0 of
           None \<Rightarrow> None
         | Some (year, days) \<Rightarrow>
             (let days = sub32 days (yearDays year);
                  time = sub32 time days;
                  (month, time) = month_loop year 0 time
              in Some \<lparr>Second = to_u8 sec, Minute = to_u8 mnt, Hour = to_u8 hr, Wday = to_u8 wday,
                       Day = to_u8 (time + 1), Month = to_u8 (month + 1), Year = to_u8 year\<rparr>))"

section \<open>makeTime\<close>

text \<open>
  The sum is a \<open>uint32_t\<close>. The month loop reads \<open>monthDays[i-1]\<close> for \<open>i\<close> from 1 below the month:
  a month above 13 reads past the table, which the model returns as \<open>None\<close>.
\<close>

fun makeTime_months :: "timelib \<Rightarrow> nat \<Rightarrow> nat list \<Rightarrow> u32 \<Rightarrow> u32 option" where
  "makeTime_months T year [] seconds = Some seconds"
| "makeTime_months T year (i # is) seconds =
     (if i = 2 \<and> LEAP_YEAR year
      then makeTime_months T year is (seconds + SECS_PER_DAY T * 29)
      else if i - 1 < length monthDays
      then makeTime_months T year is (seconds + SECS_PER_DAY T * of_nat (monthDays ! (i - 1)))
      else None)"

definition makeTime :: "timelib \<Rightarrow> tmElements \<Rightarrow> u32 option" where
  "makeTime T tm =
     (let seconds = of_nat (Year tm) * (SECS_PER_DAY T * 365);
          seconds = fold (\<lambda>i s. if LEAP_YEAR i then s + SECS_PER_DAY T else s) [0..<Year tm] seconds
      in case makeTime_months T (Year tm) [1..<Month tm] seconds of
           None \<Rightarrow> None
         | Some seconds \<Rightarrow>
             Some (seconds + of_int (int (Day tm) - 1) * SECS_PER_DAY T
                   + of_nat (Hour tm) * SECS_PER_HOUR T
                   + of_nat (Minute tm) * SECS_PER_MIN T
                   + of_nat (Second tm)))"

section \<open>The civil calendar\<close>

text \<open>Days before a year and before a month of a year: the abstract calendar the code computes.\<close>

definition days_before_year :: "nat \<Rightarrow> nat" where
  "days_before_year y = (\<Sum>i<y. yearDays i)"

definition days_before_month :: "nat \<Rightarrow> nat \<Rightarrow> nat" where
  "days_before_month y m = (\<Sum>i<m. monthLength y i)"

definition day_number :: "tmElements \<Rightarrow> nat" where
  "day_number tm = days_before_year (Year tm) + days_before_month (Year tm) (Month tm - 1) + (Day tm - 1)"

definition second_number :: "tmElements \<Rightarrow> nat" where
  "second_number tm = ((day_number tm * 24 + Hour tm) * 60 + Minute tm) * 60 + Second tm"

definition valid_tm :: "tmElements \<Rightarrow> bool" where
  "valid_tm tm \<longleftrightarrow> Second tm < 60 \<and> Minute tm < 60 \<and> Hour tm < 24
     \<and> 1 \<le> Month tm \<and> Month tm \<le> 12
     \<and> 1 \<le> Day tm \<and> Day tm \<le> monthLength (Year tm) (Month tm - 1)
     \<and> Wday tm = (day_number tm + 4) mod 7 + 1"

lemma days_before_year_simps [simp]:
  "days_before_year 0 = 0" "days_before_year (Suc y) = days_before_year y + yearDays y"
  by (simp_all add: days_before_year_def)

lemma days_before_month_simps [simp]:
  "days_before_month y 0 = 0"
  "days_before_month y (Suc m) = days_before_month y m + monthLength y m"
  by (simp_all add: days_before_month_def)

lemma yearDays_bounds: "365 \<le> yearDays y" "yearDays y \<le> 366"
  by (simp_all add: yearDays_def)

lemma days_before_year_ge: "365 * y \<le> days_before_year y"
  by (induction y) (auto simp: yearDays_def)

lemma days_before_year_le: "days_before_year y \<le> 366 * y"
  by (induction y) (auto simp: yearDays_def)

lemma days_before_year_mono: "y \<le> z \<Longrightarrow> days_before_year y \<le> days_before_year z"
  unfolding days_before_year_def by (rule sum_mono2) auto

lemma days_before_month_12: "days_before_month y 12 = yearDays y"
  by (simp add: days_before_month_def monthLength_def monthDays_def yearDays_def eval_nat_numeral)

lemma monthLength_bounds: "m < 12 \<Longrightarrow> 28 \<le> monthLength y m \<and> monthLength y m \<le> 31"
  by (auto simp: monthLength_def monthDays_def less_Suc_eq eval_nat_numeral)

section \<open>The loops compute the civil calendar\<close>

text \<open>
  Within the day numbers a 32-bit second count can reach, neither the byte year nor the day
  counter wraps, and the year loop stops at the year that contains the day.
\<close>

lemma year_loop_spec:
  assumes "time < 49711" and "days_before_year y \<le> time"
  shows "\<exists>z. year_loop time y (days_before_year y) = Some (z, days_before_year (Suc z))
           \<and> days_before_year z \<le> time \<and> time < days_before_year (Suc z)"
  using assms(2)
proof (induction "time - days_before_year y" arbitrary: y rule: less_induct)
  case less
  have "365 * y \<le> 49710" using days_before_year_ge [of y] less.prems assms(1) by linarith
  then have y: "y < 137" by simp
  have b: "days_before_year (Suc y) < 4294967296"
    using days_before_year_le [of "Suc y"] y by simp
  then have u: "to_u32 (days_before_year y + yearDays y) = days_before_year (Suc y)"
    by (simp add: trunc_simps)
  show ?case
  proof (cases "days_before_year (Suc y) \<le> time")
    case True
    then have "time - days_before_year (Suc y) < time - days_before_year y"
      using yearDays_bounds(1) [of y] by simp
    from less.hyps [OF this True] obtain z where
      "year_loop time (Suc y) (days_before_year (Suc y)) = Some (z, days_before_year (Suc z))"
      "days_before_year z \<le> time" "time < days_before_year (Suc z)" by blast
    moreover have "year_loop time y (days_before_year y)
      = year_loop time (Suc y) (days_before_year (Suc y))"
      by (subst year_loop.simps) (use u True y in \<open>simp add: Let_def trunc_simps\<close>)
    ultimately show ?thesis by auto
  next
    case False
    then have "year_loop time y (days_before_year y) = Some (y, days_before_year (Suc y))"
      by (subst year_loop.simps) (use u in \<open>simp add: Let_def\<close>)
    with False less.prems show ?thesis by (auto simp: not_le)
  qed
qed

lemma year_loop_returns:
  assumes "time < 49711"
  obtains y where "year_loop time 0 0 = Some (y, days_before_year (Suc y))"
    "days_before_year y \<le> time" "time < days_before_year (Suc y)" "y < 137"
proof -
  from year_loop_spec [of time 0] assms obtain y where
    y: "year_loop time 0 0 = Some (y, days_before_year (Suc y))"
       "days_before_year y \<le> time" "time < days_before_year (Suc y)" by auto
  have "365 * y \<le> 49710" using days_before_year_ge [of y] y(2) assms by linarith
  with y show thesis by (intro that) auto
qed

lemma month_loop_spec:
  assumes "m < 12" and "time + days_before_month y m < days_before_month y 12"
  shows "\<exists>m' t'. month_loop y m time = (m', t') \<and> m' < 12 \<and> t' < monthLength y m'
           \<and> time + days_before_month y m = days_before_month y m' + t'"
  using assms
proof (induction "12 - m" arbitrary: m time rule: less_induct)
  case less
  show ?case
  proof (cases "monthLength y m \<le> time")
    case True
    have "Suc m < 12"
    proof (rule ccontr)
      assume "\<not> Suc m < 12"
      then have "m = 11" using less.prems by simp
      then have "days_before_month y 12 = days_before_month y m + monthLength y m"
        using days_before_month_simps(2) [of y 11] by simp
      with True less.prems show False by simp
    qed
    then have lt: "12 - Suc m < 12 - m" by simp
    from True less.prems
    have "time - monthLength y m + days_before_month y (Suc m) < days_before_month y 12" by simp
    from less.hyps [OF lt \<open>Suc m < 12\<close> this] obtain m' t' where "month_loop y (Suc m) (time - monthLength y m) = (m', t')"
      "m' < 12" "t' < monthLength y m'"
      "time - monthLength y m + days_before_month y (Suc m) = days_before_month y m' + t'"
      by auto
    with True less.prems show ?thesis
      by (subst month_loop.simps) (auto simp del: days_before_month_simps(1))
  next
    case False
    with less.prems show ?thesis by (subst month_loop.simps) auto
  qed
qed

section \<open>breakTime is the civil date\<close>

lemma breakTime_spec:
  "\<exists>tm. breakTime t = Some tm \<and> valid_tm tm \<and> second_number tm = unat t \<and> Year tm < 137"
proof -
  define d where "d = unat t div 60 div 60 div 24"
  have d: "d < 49711" using unat_u32_bound [of t] by (simp add: d_def)
  obtain y where y: "year_loop d 0 0 = Some (y, days_before_year (Suc y))"
    "days_before_year y \<le> d" "d < days_before_year (Suc y)" "y < 137"
    by (rule year_loop_returns [OF d])
  have b: "days_before_year (Suc y) < 4294967296"
    using days_before_year_le [of "Suc y"] y(4) by simp
  have s1: "sub32 (days_before_year (Suc y)) (yearDays y) = days_before_year y"
    using b by (simp add: trunc_simps)
  have s2: "sub32 d (days_before_year y) = d - days_before_year y"
    using y d by (simp add: trunc_simps)
  have w: "to_u32 (d + 4) = d + 4" using d by (simp add: trunc_simps)
  have lt: "d - days_before_year y + days_before_month y 0 < days_before_month y 12"
    using y(2,3) by (simp add: days_before_month_12)
  from month_loop_spec [of 0, OF _ lt] obtain m r where
    m: "month_loop y 0 (d - days_before_year y) = (m, r)" "m < 12" "r < monthLength y m"
       "d - days_before_year y = days_before_month y m + r" by auto
  have r: "r < 31" using monthLength_bounds [OF m(2), of y] m(3) by simp
  let ?tm = "\<lparr>Second = unat t mod 60, Minute = unat t div 60 mod 60,
     Hour = unat t div 60 div 60 mod 24, Wday = (d + 4) mod 7 + 1,
     Day = r + 1, Month = m + 1, Year = y\<rparr>"
  have small: "to_u8 (n mod 60) = n mod 60" "to_u8 (n mod 24) = n mod 24"
    "to_u8 (n mod 7 + 1) = n mod 7 + 1" for n :: nat
    using mod_less_divisor [of 60 n] mod_less_divisor [of 24 n] mod_less_divisor [of 7 n]
    by (intro to_u8_id; linarith)+
  have date: "to_u8 (r + 1) = r + 1" "to_u8 (m + 1) = m + 1" "to_u8 y = y"
    using r m(2) y(4) by (simp_all add: trunc_simps)
  have bt: "breakTime t = Some ?tm"
    unfolding breakTime_def Let_def d_def [symmetric] y(1) option.case prod.case s1 s2 m(1) w
      small date ..
  have dn: "day_number ?tm = d" using m(4) y(2) by (simp add: day_number_def)
  have sn: "second_number ?tm = unat t"
    unfolding second_number_def dn by (simp only: tmElements.simps d_def div_mult_mod_eq)
  have va: "valid_tm ?tm"
    unfolding valid_tm_def dn tmElements.simps
    by (intro conjI mod_less_divisor) (use m(2,3) in simp_all)
  show ?thesis using y(4) by (intro exI [of _ ?tm] conjI bt va sn) simp
qed

lemma breakTime_fields:
  assumes "breakTime t = Some tm"
  shows "valid_tm tm" "second_number tm = unat t" "Year tm < 137"
  using breakTime_spec [of t] assms by auto

section \<open>makeTime is its inverse\<close>

text \<open>The leap-day loop and the month loop add up the days of the civil calendar, modulo 2^32.\<close>

lemma leap_loop_sum:
  "fold (\<lambda>i s. if LEAP_YEAR i then s + d else s) [0..<y] (of_nat y * (d * 365) :: u32)
     = of_nat (days_before_year y) * d"
proof -
  have "fold (\<lambda>i s. if LEAP_YEAR i then s + d else s) [0..<y] s
      = s + of_nat (days_before_year y) * d - of_nat y * (d * 365)" for s :: u32
    by (induction y) (simp_all add: yearDays_def algebra_simps)
  then show ?thesis by simp
qed

lemma makeTime_months_append:
  "makeTime_months T y (is @ js) s = Option.bind (makeTime_months T y is s) (makeTime_months T y js)"
  by (induction T y "is" s rule: makeTime_months.induct) auto

lemma makeTime_months_sum:
  assumes "m \<le> 12"
  shows "makeTime_months T y [1..<Suc m] s = Some (s + of_nat (days_before_month y m) * SECS_PER_DAY T)"
  using assms
proof (induction m)
  case 0
  show ?case by simp
next
  case (Suc m)
  have "[1..<Suc (Suc m)] = [1..<Suc m] @ [Suc m]" by simp
  with Suc show ?case
    by (auto simp: makeTime_months_append monthLength_def monthDays_def algebra_simps)
qed

lemma makeTime_spec:
  assumes "timelib_ok T" and "1 \<le> Month tm" "Month tm \<le> 13" "1 \<le> Day tm"
  shows "makeTime T tm = Some (of_nat (second_number tm))"
proof -
  have T: "SECS_PER_MIN T = 60" "SECS_PER_HOUR T = 3600" "SECS_PER_DAY T = 86400"
    using assms(1) by (auto simp: timelib_ok_def)
  obtain m d where md: "Month tm = Suc m" "Day tm = Suc d"
    using assms by (metis Suc_le_D One_nat_def)
  have "makeTime_months T (Year tm) [1..<Month tm] s
      = Some (s + of_nat (days_before_month (Year tm) m) * SECS_PER_DAY T)" for s
    using makeTime_months_sum [of m T "Year tm" s] assms(3) md by simp
  then show ?thesis
    unfolding makeTime_def leap_loop_sum Let_def
    by (simp add: T md second_number_def day_number_def algebra_simps)
qed

lemma makeTime_breakTime:
  assumes "timelib_ok T" and "breakTime t = Some tm"
  shows "makeTime T tm = Some t"
proof -
  from breakTime_fields [OF assms(2)] have v: "valid_tm tm" "second_number tm = unat t" by auto
  then have "makeTime T tm = Some (of_nat (second_number tm))"
    by (intro makeTime_spec [OF assms(1)]) (auto simp: valid_tm_def)
  with v show ?thesis by simp
qed

section \<open>The civil date is unique\<close>

lemma days_before_month_mono: "m \<le> n \<Longrightarrow> days_before_month y m \<le> days_before_month y n"
  unfolding days_before_month_def by (rule sum_mono2) auto

lemma split_unique:
  assumes "mono (f :: nat \<Rightarrow> nat)" and "f a + i = f b + j" "f a + i < f (Suc a)" "f b + j < f (Suc b)"
  shows "a = b \<and> i = j"
proof -
  have "\<not> a < b" using monoD [OF assms(1), of "Suc a" b] assms(2-4) by auto
  moreover have "\<not> b < a" using monoD [OF assms(1), of "Suc b" a] assms(2-4) by auto
  ultimately show ?thesis using assms(2) by simp
qed

lemma day_number_in_year:
  assumes "valid_tm tm"
  shows "day_number tm < days_before_year (Suc (Year tm))"
    and "days_before_month (Year tm) (Month tm - 1) + (Day tm - 1) < days_before_month (Year tm) (Month tm)"
proof -
  obtain k where k: "Month tm = Suc k" using assms by (cases "Month tm") (auto simp: valid_tm_def)
  have m: "Month tm \<le> 12" using assms by (auto simp: valid_tm_def)
  show "days_before_month (Year tm) (Month tm - 1) + (Day tm - 1) < days_before_month (Year tm) (Month tm)"
    using assms k by (auto simp: valid_tm_def)
  also have "\<dots> \<le> yearDays (Year tm)"
    using days_before_month_mono [OF m] by (simp add: days_before_month_12)
  finally show "day_number tm < days_before_year (Suc (Year tm))" by (simp add: day_number_def)
qed

lemma civil_date_unique:
  assumes "valid_tm a" "valid_tm b" "second_number a = second_number b"
  shows "a = (b :: tmElements)"
proof -
  have v: "Second a < 60" "Second b < 60" "Minute a < 60" "Minute b < 60" "Hour a < 24" "Hour b < 24"
    using assms(1,2) by (simp_all add: valid_tm_def)
  note e1 = mixed_radix_unique [OF assms(3) [unfolded second_number_def] v(1,2)]
  note e2 = mixed_radix_unique [OF conjunct1 [OF e1] v(3,4)]
  note e3 = mixed_radix_unique [OF conjunct1 [OF e2] v(5,6)]
  have s: "Second a = Second b" and mi: "Minute a = Minute b" and h: "Hour a = Hour b"
    and d: "day_number a = day_number b" using e1 e2 e3 by simp_all
  have "Year a = Year b \<and> days_before_month (Year a) (Month a - 1) + (Day a - 1)
      = days_before_month (Year b) (Month b - 1) + (Day b - 1)"
    by (rule split_unique [of days_before_year])
      (use d day_number_in_year(1) [OF assms(1)] day_number_in_year(1) [OF assms(2)] in
        \<open>auto simp: mono_def days_before_year_mono day_number_def add.assoc
          simp del: days_before_year_simps(2)\<close>)
  then have y: "Year a = Year b" and r: "days_before_month (Year a) (Month a - 1) + (Day a - 1)
      = days_before_month (Year a) (Month b - 1) + (Day b - 1)" by auto
  have "Month a - 1 = Month b - 1 \<and> Day a - 1 = Day b - 1"
    by (rule split_unique [of "days_before_month (Year a)"])
      (use r day_number_in_year(2) [of a] day_number_in_year(2) [of b] assms(1,2) y in
        \<open>auto simp: mono_def days_before_month_mono valid_tm_def simp del: days_before_month_simps(2)\<close>)
  then have "Month a = Month b" "Day a = Day b" using assms(1,2) by (auto simp: valid_tm_def)
  moreover from d assms(1,2) have "Wday a = Wday b" by (simp add: valid_tm_def)
  ultimately show ?thesis using s mi h y by simp
qed

lemma breakTime_makeTime:
  assumes "timelib_ok T" and "valid_tm tm" and "second_number tm < 4294967296"
  shows "\<exists>t. makeTime T tm = Some t \<and> breakTime t = Some tm"
proof -
  have "makeTime T tm = Some (of_nat (second_number tm))"
    using assms(2) by (intro makeTime_spec [OF assms(1)]) (auto simp: valid_tm_def)
  moreover obtain tm' where tm': "breakTime (of_nat (second_number tm)) = Some tm'" "valid_tm tm'"
    "second_number tm' = unat (of_nat (second_number tm) :: u32)"
    using breakTime_spec by blast
  then have "second_number tm' = second_number tm" using assms(3) by (simp add: unat_of_nat)
  with tm'(2) assms(2) have "tm' = tm" by (rule civil_date_unique)
  ultimately show ?thesis using tm'(1) by blast
qed

section \<open>Properties\<close>

text \<open>The Gregorian calendar, independently of the code: the days from 1 January 1970 to 1 January of
  year \<open>Y\<close> count the leap days before it by division, 477 of them before 1970; months count from 1.\<close>

definition gregorian_leap :: "nat \<Rightarrow> bool" where
  "gregorian_leap Y \<longleftrightarrow> (4 dvd Y \<and> \<not> 100 dvd Y) \<or> 400 dvd Y"

definition gregorian_new_year :: "nat \<Rightarrow> nat" where
  "gregorian_new_year Y = 365 * (Y - 1970) + (Y - 1) div 4 + (Y - 1) div 400 - (Y - 1) div 100 - 477"

definition gregorian_month :: "nat \<Rightarrow> nat \<Rightarrow> nat" where
  "gregorian_month Y m = (if m = 2 then if gregorian_leap Y then 29 else 28
     else if m \<in> {4, 6, 9, 11} then 30 else 31)"

definition gregorian_day :: "nat \<Rightarrow> nat \<Rightarrow> nat \<Rightarrow> nat" where
  "gregorian_day Y m d = gregorian_new_year Y + sum_list (map (gregorian_month Y) [1..<m]) + (d - 1)"

lemma leap_gregorian: "LEAP_YEAR y = gregorian_leap (1970 + y)"
proof -
  have "0 < 1970 + y" "400 dvd 1970 + y \<Longrightarrow> 100 dvd 1970 + y" "400 dvd 1970 + y \<Longrightarrow> 4 dvd 1970 + y"
    by (simp, (erule dvd_trans [rotated], simp)+)
  then show ?thesis
    unfolding LEAP_YEAR_def gregorian_leap_def mod_eq_0_iff_dvd by blast
qed

lemma div_step: "0 < k \<Longrightarrow> Suc n div k = n div k + (if k dvd Suc n then 1 else 0)"
  by (simp add: div_Suc dvd_eq_mod_eq_0)

lemma leap_day_step:
  fixes d :: nat
  shows "d + 477 + c = 365 * y + q + r \<Longrightarrow> l + h = f + g
     \<Longrightarrow> d + (365 + l) + 477 + (c + h) = 365 * Suc y + (q + f) + (r + g)"
    "d + 477 + c = 365 * y + q + r \<Longrightarrow> d = 365 * y + q + r - c - 477"
  by simp_all

lemma leap_days_count:
  "days_before_year y + 477 + (1969 + y) div 100 = 365 * y + (1969 + y) div 4 + (1969 + y) div 400"
proof (induction y)
  case 0
  show ?case by simp
next
  case (Suc y)
  let ?n = "1969 + y"
  have s: "1969 + Suc y = Suc ?n" "1970 + y = Suc ?n" by simp_all
  have t: "100 dvd k" if "400 dvd k" for k :: nat using that by (rule dvd_trans [rotated]) simp
  have f: "4 dvd k" if "100 dvd k" for k :: nat using that by (rule dvd_trans [rotated]) simp
  have y: "yearDays y = 365 + (if gregorian_leap (Suc ?n) then 1 else 0)"
    by (simp add: yearDays_def leap_gregorian)
  have l: "(if gregorian_leap (Suc ?n) then 1 else 0 :: nat) + (if 100 dvd Suc ?n then 1 else 0)
      = (if 4 dvd Suc ?n then 1 else 0) + (if 400 dvd Suc ?n then 1 else 0)"
    using t [of "Suc ?n"] f [of "Suc ?n"] by (auto simp: gregorian_leap_def)
  have d: "Suc ?n div 4 = ?n div 4 + (if 4 dvd Suc ?n then 1 else 0)"
    "Suc ?n div 100 = ?n div 100 + (if 100 dvd Suc ?n then 1 else 0)"
    "Suc ?n div 400 = ?n div 400 + (if 400 dvd Suc ?n then 1 else 0)"
    by (simp_all only: div_step [of 4 ?n] div_step [of 100 ?n] div_step [of 400 ?n] zero_less_numeral)
  show ?case
    unfolding s d days_before_year_simps y by (rule leap_day_step(1) [OF Suc.IH l])
qed

lemma new_year_gregorian: "days_before_year y = gregorian_new_year (1970 + y)"
proof -
  have "1970 + y - 1970 = y" "1970 + y - 1 = 1969 + y" by simp_all
  then show ?thesis
    unfolding gregorian_new_year_def by (simp only:) (rule leap_day_step(2) [OF leap_days_count])
qed

lemma month_gregorian:
  assumes "1 \<le> m" "m \<le> 12"
  shows "monthLength y (m - 1) = gregorian_month (1970 + y) m"
proof -
  have "m = 1 \<or> m = 2 \<or> m = 3 \<or> m = 4 \<or> m = 5 \<or> m = 6 \<or> m = 7 \<or> m = 8 \<or> m = 9 \<or> m = 10 \<or> m = 11 \<or> m = 12"
    using assms by presburger
  then show ?thesis
    by (elim disjE) (simp_all add: monthLength_def monthDays_def gregorian_month_def leap_gregorian)
qed

lemma day_gregorian:
  assumes "1 \<le> Month tm" "Month tm \<le> 12"
  shows "day_number tm = gregorian_day (1970 + Year tm) (Month tm) (Day tm)"
proof -
  have "days_before_month y (m - 1) = sum_list (map (gregorian_month (1970 + y)) [1..<m])" if "1 \<le> m" "m \<le> 12" for y m
    using that
  proof (induction m)
    case (Suc m)
    show ?case
    proof (cases "m = 0")
      case False
      then obtain k where k: "m = Suc k" by (cases m) auto
      with Suc.IH Suc.prems month_gregorian [of m y] show ?thesis by simp
    qed simp
  qed simp
  then show ?thesis using assms by (simp add: day_number_def gregorian_day_def new_year_gregorian)
qed

text \<open>C1: \<open>breakTime\<close> returns for every 32-bit time, without overrun of its byte year or its
  day counter, and its fields are the Gregorian date, the weekday and the time of day of that
  second.\<close>

theorem breakTime_civil:
  "\<exists>tm. breakTime t = Some tm \<and> Year tm \<le> 136 \<and> Second tm < 60 \<and> Minute tm < 60 \<and> Hour tm < 24
     \<and> 1 \<le> Month tm \<and> Month tm \<le> 12
     \<and> 1 \<le> Day tm \<and> Day tm \<le> gregorian_month (1970 + Year tm) (Month tm)
     \<and> unat t = ((gregorian_day (1970 + Year tm) (Month tm) (Day tm) * 24 + Hour tm) * 60 + Minute tm) * 60 + Second tm
     \<and> Wday tm = (gregorian_day (1970 + Year tm) (Month tm) (Day tm) + 4) mod 7 + 1"
proof -
  obtain tm where tm: "breakTime t = Some tm" "valid_tm tm" "second_number tm = unat t" "Year tm < 137"
    using breakTime_spec [of t] by blast
  from tm(2) have v: "1 \<le> Month tm" "Month tm \<le> 12" by (simp_all add: valid_tm_def)
  show ?thesis
    using tm month_gregorian [OF v, of "Year tm"] day_gregorian [OF v]
    by (intro exI [of _ tm]) (simp add: valid_tm_def second_number_def)
qed

text \<open>C2: \<open>makeTime\<close> inverts \<open>breakTime\<close> on every 32-bit time.\<close>

theorem makeTime_inverts_breakTime:
  assumes "timelib_ok T"
  shows "Option.bind (breakTime t) (makeTime T) = Some t"
  using breakTime_spec [of t] makeTime_breakTime [OF assms, of t] by auto

lemma makeTime_inverts_breakTime_witness:
  "Option.bind (breakTime 951782400) (makeTime timelib_doc) = Some 951782400"
  by (rule makeTime_inverts_breakTime [OF timelib_doc_ok])

text \<open>C3: \<open>breakTime\<close> inverts \<open>makeTime\<close> on every valid civil date that a 32-bit time
  reaches.\<close>

theorem breakTime_inverts_makeTime:
  assumes "timelib_ok T" and "valid_tm tm" and "second_number tm < 2 ^ 32"
  shows "Option.bind (makeTime T tm) breakTime = Some tm"
  using breakTime_makeTime [OF assms(1,2)] assms(3) by auto

lemma breakTime_inverts_makeTime_witness:
  "let tm = \<lparr>Second = 59, Minute = 58, Hour = 23, Wday = 5, Day = 1, Month = 1, Year = 0\<rparr>
   in Option.bind (makeTime timelib_doc tm) breakTime = Some tm"
  unfolding Let_def
  by (rule breakTime_inverts_makeTime [OF timelib_doc_ok])
    (simp_all add: valid_tm_def second_number_def day_number_def monthLength_def monthDays_def)

end
