(* ===== verification/Time_Clock.thy ===== *)
theory Time_Clock
  imports Time_Calendar "HOL-Library.Monad_Syntax"
begin

text \<open>
  The system clock and the element functions of the Time library (\<open>src/Time/Time.cpp\<close>, lines 36 to
  119 and 232 to 321). The record \<open>clock\<close> holds the file's static variables: the cached elements
  with the time they belong to, and the clock that \<open>now\<close> advances. \<open>millis\<close> and the sync provider
  read and change an abstract world \<open>'w\<close>. The loop of \<open>now\<close> is a partial function:
  \<open>catch_up_returns\<close> shows that it returns when two successive readings of \<open>millis\<close> are less than a
  second apart, also across the wrap-around of the counter.
\<close>

section \<open>State\<close>

datatype timeStatus_t = timeNotSet | timeNeedsSync | timeSet

record 'w clock =
  tm :: tmElements
  cacheTime :: u32
  syncInterval :: u32
  sysTime :: u32
  prevMillis :: u32
  nextSyncTime :: u32
  Status :: timeStatus_t
  getTimePtr :: "('w \<Rightarrow> u32 \<times> 'w) option"

definition clock_init :: "'w clock" where
  "clock_init = \<lparr>tm = \<lparr>Second = 0, Minute = 0, Hour = 0, Wday = 0, Day = 0, Month = 0, Year = 0\<rparr>,
     cacheTime = 0, syncInterval = 300, sysTime = 0, prevMillis = 0, nextSyncTime = 0,
     Status = timeNotSet, getTimePtr = None\<rparr>"

section \<open>The system clock\<close>

definition setTime :: "('w \<Rightarrow> u32 \<times> 'w) \<Rightarrow> u32 \<Rightarrow> 'w clock \<Rightarrow> 'w \<Rightarrow> 'w clock \<times> 'w" where
  "setTime millis t c w =
     (let c = c\<lparr>sysTime := t, nextSyncTime := t + syncInterval c, Status := timeSet\<rparr>;
          (m, w) = millis w
      in (c\<lparr>prevMillis := m\<rparr>, w))"

text \<open>\<open>while (millis() - prevMillis >= 1000) { sysTime++; prevMillis += 1000; }\<close>\<close>

partial_function (option) catch_up ::
    "('w \<Rightarrow> u32 \<times> 'w) \<Rightarrow> 'w clock \<Rightarrow> 'w \<Rightarrow> ('w clock \<times> 'w) option" where
  "catch_up millis c w =
     (let (m, w) = millis w in
      if m - prevMillis c \<ge> 1000
      then catch_up millis (c\<lparr>sysTime := sysTime c + 1, prevMillis := prevMillis c + 1000\<rparr>) w
      else Some (c, w))"

definition sync :: "('w \<Rightarrow> u32 \<times> 'w) \<Rightarrow> 'w clock \<Rightarrow> 'w \<Rightarrow> 'w clock \<times> 'w" where
  "sync millis c w =
     (if nextSyncTime c \<le> sysTime c then
        (case getTimePtr c of
           None \<Rightarrow> (c, w)
         | Some provider \<Rightarrow>
             (let (t, w) = provider w in
              if t \<noteq> 0 then setTime millis t c w
              else (c\<lparr>nextSyncTime := sysTime c + syncInterval c,
                      Status := (if Status c = timeNotSet then timeNotSet else timeNeedsSync)\<rparr>, w)))
      else (c, w))"

definition now :: "('w \<Rightarrow> u32 \<times> 'w) \<Rightarrow> 'w clock \<Rightarrow> 'w \<Rightarrow> (u32 \<times> 'w clock \<times> 'w) option" where
  "now millis c w =
     (case catch_up millis c w of
        None \<Rightarrow> None
      | Some (c, w) \<Rightarrow> (case sync millis c w of (c, w) \<Rightarrow> Some (sysTime c, c, w)))"

definition adjustTime :: "u32 \<Rightarrow> 'w clock \<Rightarrow> 'w clock" where
  "adjustTime adjustment c = c\<lparr>sysTime := sysTime c + adjustment\<rparr>"

definition timeStatus :: "('w \<Rightarrow> u32 \<times> 'w) \<Rightarrow> 'w clock \<Rightarrow> 'w \<Rightarrow> (timeStatus_t \<times> 'w clock \<times> 'w) option" where
  "timeStatus millis c w = (case now millis c w of None \<Rightarrow> None | Some (_, c, w) \<Rightarrow> Some (Status c, c, w))"

definition setSyncProvider ::
    "('w \<Rightarrow> u32 \<times> 'w) \<Rightarrow> ('w \<Rightarrow> u32 \<times> 'w) option \<Rightarrow> 'w clock \<Rightarrow> 'w \<Rightarrow> ('w clock \<times> 'w) option" where
  "setSyncProvider millis getTimeFunction c w =
     (let c = c\<lparr>getTimePtr := getTimeFunction\<rparr>;
          c = c\<lparr>nextSyncTime := sysTime c\<rparr>
      in case now millis c w of None \<Rightarrow> None | Some (_, c, w) \<Rightarrow> Some (c, w))"

definition setSyncInterval :: "u32 \<Rightarrow> 'w clock \<Rightarrow> 'w clock" where
  "setSyncInterval interval c = (let c = c\<lparr>syncInterval := interval\<rparr> in
     c\<lparr>nextSyncTime := sysTime c + syncInterval c\<rparr>)"

section \<open>The element cache\<close>

definition refreshCache :: "u32 \<Rightarrow> 'w clock \<Rightarrow> 'w clock option" where
  "refreshCache t c =
     (if t \<noteq> cacheTime c
      then (case breakTime t of None \<Rightarrow> None | Some e \<Rightarrow> Some (c\<lparr>tm := e, cacheTime := t\<rparr>))
      else Some c)"

definition tm_field :: "(tmElements \<Rightarrow> 'a) \<Rightarrow> u32 \<Rightarrow> 'w clock \<Rightarrow> ('a \<times> 'w clock) option" where
  "tm_field f t c = (case refreshCache t c of None \<Rightarrow> None | Some c \<Rightarrow> Some (f (tm c), c))"

definition hour :: "u32 \<Rightarrow> 'w clock \<Rightarrow> (nat \<times> 'w clock) option" where
  "hour = tm_field Hour"

definition hourFormat12 :: "u32 \<Rightarrow> 'w clock \<Rightarrow> (nat \<times> 'w clock) option" where
  "hourFormat12 = tm_field (\<lambda>e. if Hour e = 0 then 12 else if Hour e > 12 then Hour e - 12 else Hour e)"

definition isPM :: "u32 \<Rightarrow> 'w clock \<Rightarrow> (bool \<times> 'w clock) option" where
  "isPM t c = (case hour t c of None \<Rightarrow> None | Some (h, c) \<Rightarrow> Some (h \<ge> 12, c))"

definition isAM :: "u32 \<Rightarrow> 'w clock \<Rightarrow> (bool \<times> 'w clock) option" where
  "isAM t c = (case isPM t c of None \<Rightarrow> None | Some (b, c) \<Rightarrow> Some (\<not> b, c))"

definition minute :: "u32 \<Rightarrow> 'w clock \<Rightarrow> (nat \<times> 'w clock) option" where
  "minute = tm_field Minute"

definition second :: "u32 \<Rightarrow> 'w clock \<Rightarrow> (nat \<times> 'w clock) option" where
  "second = tm_field Second"

definition day :: "u32 \<Rightarrow> 'w clock \<Rightarrow> (nat \<times> 'w clock) option" where
  "day = tm_field Day"

definition weekday :: "u32 \<Rightarrow> 'w clock \<Rightarrow> (nat \<times> 'w clock) option" where
  "weekday = tm_field Wday"

definition month :: "u32 \<Rightarrow> 'w clock \<Rightarrow> (nat \<times> 'w clock) option" where
  "month = tm_field Month"

definition year :: "timelib \<Rightarrow> u32 \<Rightarrow> 'w clock \<Rightarrow> (nat \<times> 'w clock) option" where
  "year T = tm_field (\<lambda>e. tmYearToCalendar T (Year e))"

text \<open>The variants without an argument: \<open>hour() { return hour(now()); }\<close> and the like.\<close>

definition of_now ::
    "('w \<Rightarrow> u32 \<times> 'w) \<Rightarrow> (u32 \<Rightarrow> 'w clock \<Rightarrow> ('a \<times> 'w clock) option) \<Rightarrow> 'w clock \<Rightarrow> 'w
      \<Rightarrow> ('a \<times> 'w clock \<times> 'w) option" where
  "of_now millis f c w =
     (case now millis c w of
        None \<Rightarrow> None
      | Some (t, c, w) \<Rightarrow> (case f t c of None \<Rightarrow> None | Some (x, c) \<Rightarrow> Some (x, c, w)))"

definition hour_now where "hour_now millis = of_now millis hour"
definition hourFormat12_now where "hourFormat12_now millis = of_now millis hourFormat12"
definition isAM_now where "isAM_now millis = of_now millis (\<lambda>t c. map_option (apfst Not) (isPM t c))"
definition isPM_now where "isPM_now millis = of_now millis isPM"
definition minute_now where "minute_now millis = of_now millis minute"
definition second_now where "second_now millis = of_now millis second"
definition day_now where "day_now millis = of_now millis day"
definition weekday_now where "weekday_now millis = of_now millis weekday"
definition month_now where "month_now millis = of_now millis month"
definition year_now where "year_now millis T = of_now millis (year T)"

text \<open>Setting the clock from calendar fields. The fields are stored in the cache variable \<open>tm\<close>, each
  \<open>int\<close> cut to a byte.\<close>

definition byte_of :: "int \<Rightarrow> nat" where
  "byte_of i = nat (i mod 256)"

definition setTime_fields ::
    "('w \<Rightarrow> u32 \<times> 'w) \<Rightarrow> timelib \<Rightarrow> int \<Rightarrow> int \<Rightarrow> int \<Rightarrow> int \<Rightarrow> int \<Rightarrow> int \<Rightarrow> 'w clock \<Rightarrow> 'w
      \<Rightarrow> ('w clock \<times> 'w) option" where
  "setTime_fields millis T hr mn sec dy mnth yr c w =
     (let yr = (if yr > 99 then yr - 1970 else yr + 30);
          c = c\<lparr>tm := (tm c)\<lparr>Year := byte_of yr, Month := byte_of mnth, Day := byte_of dy,
                             Hour := byte_of hr, Minute := byte_of mn, Second := byte_of sec\<rparr>\<rparr>
      in case makeTime T (tm c) of None \<Rightarrow> None | Some t \<Rightarrow> Some (setTime millis t c w))"

section \<open>The clock counts seconds\<close>

text \<open>Successive readings of the millisecond counter are less than a second apart.\<close>

definition millis_steady :: "('w \<Rightarrow> u32 \<times> 'w) \<Rightarrow> bool" where
  "millis_steady millis \<longleftrightarrow> (\<forall>w. unat (fst (millis (snd (millis w))) - fst (millis w)) < 1000)"

lemma unat_step:
  fixes m m' p :: u32
  assumes "1000 \<le> m - p" and "unat (m' - m) < 1000"
  shows "unat (m' - (p + 1000)) < unat (m - p)"
    and "unat (m' - (p + 1000)) = unat (m - p) - 1000 + unat (m' - m)"
proof -
  have a: "1000 \<le> unat (m - p)" using assms(1) by (simp add: word_le_nat_alt)
  have s: "unat (m - p) - 1000 + unat (m' - m) < 4294967296"
    using unat_u32_bound [of "m - p"] a assms(2) by linarith
  have "m' - (p + 1000) = of_nat (unat (m - p) - 1000 + unat (m' - m))"
    using a by (simp add: of_nat_diff algebra_simps)
  with s show e: "unat (m' - (p + 1000)) = unat (m - p) - 1000 + unat (m' - m)"
    by (simp only: unat_of_nat_u32)
  show "unat (m' - (p + 1000)) < unat (m - p)" using a assms(2) unfolding e by linarith
qed

lemma catch_up_returns:
  assumes "millis_steady millis"
  shows "\<exists>k w'. catch_up millis c w
           = Some (c\<lparr>sysTime := sysTime c + of_nat k, prevMillis := prevMillis c + 1000 * of_nat k\<rparr>, w')
         \<and> k \<ge> unat (fst (millis w) - prevMillis c) div 1000
         \<and> (\<exists>w0. millis w0 = (fst (millis w0), w')
              \<and> unat (fst (millis w0) - (prevMillis c + 1000 * of_nat k)) < 1000)"
proof (induction "unat (fst (millis w) - prevMillis c)" arbitrary: c w rule: less_induct)
  case less
  obtain m w1 where mw: "millis w = (m, w1)" by (cases "millis w")
  show ?case
  proof (cases "m - prevMillis c \<ge> 1000")
    case False
    then have "unat (m - prevMillis c) < 1000" by (simp add: word_le_nat_alt not_le)
    moreover have "catch_up millis c w = Some (c, w1)"
      by (subst catch_up.simps) (use mw False in simp)
    ultimately show ?thesis using mw
      by (intro exI [of _ 0] exI [of _ w1] conjI exI [of _ w]) simp_all
  next
    case True
    let ?c = "c\<lparr>sysTime := sysTime c + 1, prevMillis := prevMillis c + 1000\<rparr>"
    have st: "unat (fst (millis w1) - m) < 1000" using assms mw unfolding millis_steady_def
      by (metis fst_conv snd_conv)
    note u = unat_step [OF True st]
    have lt: "unat (fst (millis w1) - prevMillis ?c) < unat (fst (millis w) - prevMillis c)"
      using u(1) mw by simp
    from less [OF lt] obtain k w' w0 where
      k: "catch_up millis ?c w1 = Some (?c\<lparr>sysTime := sysTime ?c + of_nat k,
            prevMillis := prevMillis ?c + 1000 * of_nat k\<rparr>, w')"
         "k \<ge> unat (fst (millis w1) - prevMillis ?c) div 1000"
         "millis w0 = (fst (millis w0), w')"
         "unat (fst (millis w0) - (prevMillis ?c + 1000 * of_nat k)) < 1000" by blast
    have r: "catch_up millis c w = catch_up millis ?c w1"
      by (subst catch_up.simps) (use mw True in simp)
    have a: "1000 \<le> unat (m - prevMillis c)" using True by (simp add: word_le_nat_alt)
    have "unat (m - prevMillis c) div 1000 \<le> Suc k"
    proof -
      have "unat (m - prevMillis c) - 1000 \<le> unat (fst (millis w1) - prevMillis ?c)"
        using u(2) by simp
      then have "(unat (m - prevMillis c) - 1000) div 1000 \<le> k"
        using k(2) by (meson div_le_mono le_trans)
      with a show ?thesis by (simp add: le_div_geq)
    qed
    then show ?thesis using r k mw
      by (intro exI [of _ "Suc k"] exI [of _ w'] conjI exI [of _ w0]) (simp_all add: algebra_simps)
  qed
qed

text \<open>What one call of \<open>now\<close> does to the synchronisation state.\<close>

lemma sync_cases:
  obtains (idle) "sync millis c w = (c, w)" "sysTime c < nextSyncTime c \<or> getTimePtr c = None"
  | (ok) p t w1 where "getTimePtr c = Some p" "p w = (t, w1)" "t \<noteq> 0" "nextSyncTime c \<le> sysTime c"
      "sync millis c w = setTime millis t c w1"
  | (failed) p w1 where "getTimePtr c = Some p" "p w = (0, w1)" "nextSyncTime c \<le> sysTime c"
      "sync millis c w = (c\<lparr>nextSyncTime := sysTime c + syncInterval c,
         Status := (if Status c = timeNotSet then timeNotSet else timeNeedsSync)\<rparr>, w1)"
proof (cases "nextSyncTime c \<le> sysTime c")
  case False
  with that(1) show ?thesis by (auto simp: sync_def not_le)
next
  case True
  show ?thesis
  proof (cases "getTimePtr c")
    case None
    with that(1) show ?thesis by (auto simp: sync_def)
  next
    case (Some p)
    obtain t w1 where t: "p w = (t, w1)" by (cases "p w")
    show ?thesis
    proof (cases "t = 0")
      case False
      with Some True t that(2) show ?thesis by (simp add: sync_def)
    next
      case True
      with Some \<open>nextSyncTime c \<le> sysTime c\<close> t that(3) show ?thesis by (simp add: sync_def)
    qed
  qed
qed

lemma now_returns: "millis_steady millis \<Longrightarrow> \<exists>t c' w'. now millis c w = Some (t, c', w') \<and> t = sysTime c'"
  using catch_up_returns [of millis c w] by (fastforce simp: now_def split: prod.splits)

lemma status_not_lost:
  assumes "now millis c w = Some (t, c', w')" and "Status c \<noteq> timeNotSet" and "millis_steady millis"
  shows "Status c' \<noteq> timeNotSet"
proof -
  obtain k w1 where c: "catch_up millis c w = Some (c\<lparr>sysTime := sysTime c + of_nat k,
      prevMillis := prevMillis c + 1000 * of_nat k\<rparr>, w1)"
    using catch_up_returns [OF assms(3)] by blast
  let ?c = "c\<lparr>sysTime := sysTime c + of_nat k, prevMillis := prevMillis c + 1000 * of_nat k\<rparr>"
  have c': "c' = fst (sync millis ?c w1)" using assms(1) c by (auto simp: now_def split: prod.splits)
  have "Status ?c \<noteq> timeNotSet" using assms(2) by simp
  then show ?thesis
    unfolding c' by (cases rule: sync_cases [where millis = millis and c = ?c and w = w1]) (auto simp: setTime_def split: prod.splits)
qed

section \<open>The cache is coherent\<close>

definition cache_ok :: "'w clock \<Rightarrow> bool" where
  "cache_ok c \<longleftrightarrow> breakTime (cacheTime c) = Some (tm c)"

lemma refreshCache_ok:
  assumes "cache_ok c"
  shows "\<exists>c'. refreshCache t c = Some c' \<and> cache_ok c' \<and> breakTime t = Some (tm c')"
  using assms breakTime_spec [of t] by (auto simp: refreshCache_def cache_ok_def)

text \<open>A refresh for another time repairs an incoherent cache.\<close>

lemma refreshCache_repairs:
  assumes "t \<noteq> cacheTime c"
  shows "\<exists>c'. refreshCache t c = Some c' \<and> cache_ok c' \<and> breakTime t = Some (tm c')"
  using assms breakTime_spec [of t] by (auto simp: refreshCache_def cache_ok_def)

lemma tm_field_ok:
  assumes "cache_ok c"
  shows "\<exists>c' e. tm_field f t c = Some (f e, c') \<and> breakTime t = Some e \<and> cache_ok c'"
proof -
  obtain c' where "refreshCache t c = Some c'" "cache_ok c'" "breakTime t = Some (tm c')"
    using refreshCache_ok [OF assms] by blast
  then show ?thesis by (auto simp: tm_field_def)
qed

lemma setTime_fields_simps:
  "setTime millis t c w = (c', w') \<Longrightarrow> tm c' = tm c \<and> cacheTime c' = cacheTime c \<and> sysTime c' = t
     \<and> nextSyncTime c' = t + syncInterval c \<and> Status c' = timeSet"
  by (auto simp: setTime_def split: prod.splits)

lemma catch_up_cache:
  assumes "millis_steady millis" "catch_up millis c w = Some (c', w')"
  shows "tm c' = tm c \<and> cacheTime c' = cacheTime c"
  using catch_up_returns [OF assms(1), of c w] assms(2) by auto

lemma now_cache_ok:
  assumes "millis_steady millis" "now millis c w = Some (t, c', w')" "cache_ok c"
  shows "cache_ok c'"
proof -
  obtain c1 w1 where c1: "catch_up millis c w = Some (c1, w1)" "sync millis c1 w1 = (c', w')"
    using assms(2) by (auto simp: now_def split: option.splits prod.splits)
  have "cache_ok c1" using catch_up_cache [OF assms(1) c1(1)] assms(3) by (simp add: cache_ok_def)
  with c1(2) show ?thesis
    by (cases rule: sync_cases [where millis = millis and c = c1 and w = w1]) (auto simp: cache_ok_def dest: setTime_fields_simps)
qed

section \<open>Properties\<close>



text \<open>A synchronisation that is due takes the provider's time: \<open>now\<close> returns it, the status
  becomes \<open>timeSet\<close> and the next synchronisation is one interval away. A provider that answers 0
  leaves the running clock alone, asks again an interval later, and marks a clock that had been
  set as needing synchronisation, but never a clock that was not.\<close>

theorem now_synchronises:
  assumes "catch_up millis c w0 = Some (c1, w1)" and "nextSyncTime c1 \<le> sysTime c1"
    and "getTimePtr c1 = Some p" and "p w1 = (t, w2)"
  shows "\<exists>c' w'. now millis c w0 = Some (sysTime c', c', w')
     \<and> sysTime c' = (if t = 0 then sysTime c1 else t)
     \<and> nextSyncTime c' = sysTime c' + syncInterval c1
     \<and> Status c' = (if t \<noteq> 0 then timeSet
                    else if Status c1 = timeNotSet then timeNotSet else timeNeedsSync)"
proof -
  obtain c' w' where s: "sync millis c1 w1 = (c', w')" by (cases "sync millis c1 w1")
  with assms have "now millis c w0 = Some (sysTime c', c', w')" by (simp add: now_def)
  moreover have "sysTime c' = (if t = 0 then sysTime c1 else t)
     \<and> nextSyncTime c' = sysTime c' + syncInterval c1
     \<and> Status c' = (if t \<noteq> 0 then timeSet
                    else if Status c1 = timeNotSet then timeNotSet else timeNeedsSync)"
  proof (cases "t = 0")
    case True
    with s assms(2-4) show ?thesis by (auto simp: sync_def)
  next
    case False
    with s assms(2-4) have "setTime millis t c1 w2 = (c', w')" by (simp add: sync_def)
    with False show ?thesis by (simp add: setTime_fields_simps)
  qed
  ultimately show ?thesis by blast
qed

lemma now_synchronises_witness:
  "\<exists>c' w'. now (\<lambda>w. (w, w)) (clock_init\<lparr>getTimePtr := Some (\<lambda>w. (1500000000, w))\<rparr>) 0
       = Some (sysTime c', c', w')
     \<and> sysTime c' = (if (1500000000 :: u32) = 0 then 0 else 1500000000)
     \<and> nextSyncTime c' = sysTime c' + 300
     \<and> Status c' = (if (1500000000 :: u32) \<noteq> 0 then timeSet
                    else if timeNotSet = timeNotSet then timeNotSet else timeNeedsSync)"
  using now_synchronises [of "\<lambda>w. (w, w)" "clock_init\<lparr>getTimePtr := Some (\<lambda>w. (1500000000, w))\<rparr>" 0
      "clock_init\<lparr>getTimePtr := Some (\<lambda>w. (1500000000, w))\<rparr>" 0 "\<lambda>w. (1500000000, w)" 1500000000 0]
  by (simp add: catch_up.simps clock_init_def)



text \<open>The cache starts incoherent: before any other time was asked, \<open>day(0)\<close> and
  \<open>month(0)\<close> return 0, which is no date, where 1 January 1970 is due.\<close>

theorem cache_initially_incoherent:
  "map_option fst (day 0 (clock_init :: 'w clock)) = Some 0
   \<and> map_option fst (month 0 (clock_init :: 'w clock)) = Some 0
   \<and> map_option Day (breakTime 0) = Some 1 \<and> map_option Month (breakTime 0) = Some 1"
  by (simp add: day_def month_def tm_field_def refreshCache_def clock_init_def breakTime_def Let_def
      year_loop.simps month_loop.simps to_u32_def to_u8_def sub32_def yearDays_def LEAP_YEAR_def
      monthLength_def monthDays_def)

end
