(* ===== verification/Time_Strings.thy ===== *)
theory Time_Strings
  imports Time_Calendar
begin

text \<open>
  The names of months and days (\<open>src/Time/DateStrings.cpp\<close>). All four functions write into one
  static buffer and return it: the buffer is a byte array passed through, and \<open>c_str\<close> is the string
  a caller sees in it until the next call. Its size comes from \<open>TimeLib.h\<close>, which is not in the
  repository. A read outside the tables or a name that does not fit is \<open>None\<close>.
\<close>

section \<open>Tables\<close>

definition dt_SHORT_STR_LEN :: nat where "dt_SHORT_STR_LEN = 3"

definition monthNames_P :: "string list" where
  "monthNames_P = ['''', ''January'', ''February'', ''March'', ''April'', ''May'', ''June'', ''July'',
     ''August'', ''September'', ''October'', ''November'', ''December'']"

definition monthShortNames_P :: string where
  "monthShortNames_P = ''ErrJanFebMarAprMayJunJulAugSepOctNovDec''"

definition dayNames_P :: "string list" where
  "dayNames_P = [''Err'', ''Sunday'', ''Monday'', ''Tuesday'', ''Wednesday'', ''Thursday'', ''Friday'',
     ''Saturday'']"

definition dayShortNames_P :: string where
  "dayShortNames_P = ''ErrSunMonTueWedThuFriSat''"

section \<open>The static buffer\<close>

text \<open>\<open>strcpy\<close> writes the string and its terminating zero; \<open>c_str\<close> reads up to the zero.\<close>

definition NUL :: char where "NUL = CHR 0x00"

definition strcpy :: "string \<Rightarrow> string \<Rightarrow> string option" where
  "strcpy buf s = (if length s + 1 \<le> length buf then Some (blit 0 (s @ [NUL]) buf) else None)"

definition c_str :: "string \<Rightarrow> string" where
  "c_str buf = takeWhile (\<lambda>c. c \<noteq> NUL) buf"

text \<open>The loop that copies three characters of a packed table, then the terminating zero.\<close>

fun copy_short :: "string \<Rightarrow> nat \<Rightarrow> nat list \<Rightarrow> string \<Rightarrow> string option" where
  "copy_short tab ofs [] buf = Some buf"
| "copy_short tab ofs (i # is) buf =
     (case arr_get tab (i + ofs) of
        None \<Rightarrow> None
      | Some c \<Rightarrow> Option.bind (arr_set buf i c) (copy_short tab ofs is))"

definition short_str :: "string \<Rightarrow> nat \<Rightarrow> string \<Rightarrow> string option" where
  "short_str tab ofs buf =
     Option.bind (copy_short tab ofs [0..<dt_SHORT_STR_LEN] buf) (\<lambda>buf. arr_set buf dt_SHORT_STR_LEN NUL)"

section \<open>The functions\<close>

definition monthStr :: "nat \<Rightarrow> string \<Rightarrow> string option" where
  "monthStr m buf = Option.bind (arr_get monthNames_P m) (strcpy buf)"

definition monthShortStr :: "nat \<Rightarrow> string \<Rightarrow> string option" where
  "monthShortStr m buf = short_str monthShortNames_P (m * dt_SHORT_STR_LEN) buf"

definition dayStr :: "nat \<Rightarrow> string \<Rightarrow> string option" where
  "dayStr d buf = Option.bind (arr_get dayNames_P d) (strcpy buf)"

definition dayShortStr :: "nat \<Rightarrow> string \<Rightarrow> string option" where
  "dayShortStr d buf = (let index = to_u8 (d * dt_SHORT_STR_LEN) in short_str dayShortNames_P index buf)"

section \<open>The buffer holds the name\<close>

lemma strcpy_str:
  assumes "length s < length buf" and "NUL \<notin> set s"
  shows "\<exists>b. strcpy buf s = Some b \<and> c_str b = s \<and> length b = length buf"
proof -
  have "takeWhile (\<lambda>c. c \<noteq> NUL) (s @ NUL # r) = s" for r
    using assms(2) by (subst takeWhile_append2) auto
  then show ?thesis
    using assms(1) by (simp add: strcpy_def c_str_def blit_def)
qed

lemma short_str_str:
  assumes "3 < length buf" and "ofs + 2 < length tab" and "NUL \<notin> set tab"
  shows "\<exists>b. short_str tab ofs buf = Some b \<and> c_str b = take 3 (drop ofs tab) \<and> length b = length buf"
proof -
  obtain a0 a1 a2 a3 r where b: "buf = a0 # a1 # a2 # a3 # r"
  proof -
    obtain n where "length buf = Suc (Suc (Suc (Suc n)))"
      using assms(1) by (auto simp: numeral_3_eq_3 less_iff_Suc_add)
    then show ?thesis using that by (auto simp: length_Suc_conv)
  qed
  have t: "take 3 (drop ofs tab) = [tab ! ofs, tab ! Suc ofs, tab ! Suc (Suc ofs)]"
    using assms(2) by (simp add: take_Suc_conv_app_nth numeral_3_eq_3)
  have n: "tab ! ofs \<noteq> NUL" "tab ! Suc ofs \<noteq> NUL" "tab ! Suc (Suc ofs) \<noteq> NUL"
    using assms(2,3) nth_mem [of _ tab] by (metis Suc_lessD add_2_eq_Suc')+
  have "[0..<3::nat] = [0, 1, 2]" by (simp add: upt_rec)
  then show ?thesis
    using assms(2) n by (simp add: short_str_def dt_SHORT_STR_LEN_def b t c_str_def)
qed

lemma table_words:
  assumes "m \<in> {1..12}"
  shows "length (monthNames_P ! m) \<le> 9" "NUL \<notin> set (monthNames_P ! m)"
    "take 3 (drop (m * 3) monthShortNames_P) = take 3 (monthNames_P ! m)" "m * 3 + 2 < length monthShortNames_P"
  using assms
  by (auto simp: monthNames_P_def monthShortNames_P_def NUL_def numeral_nat le_Suc_eq atLeastAtMost_iff)

lemma day_words:
  assumes "d \<in> {1..7}"
  shows "length (dayNames_P ! d) \<le> 9" "NUL \<notin> set (dayNames_P ! d)"
    "take 3 (drop (d * 3) dayShortNames_P) = take 3 (dayNames_P ! d)" "d * 3 + 2 < length dayShortNames_P"
  using assms
  by (auto simp: dayNames_P_def dayShortNames_P_def NUL_def numeral_nat le_Suc_eq atLeastAtMost_iff)

section \<open>Properties\<close>

text \<open>For the months 1 to 12 and the weekdays 1 to 7 that \<open>breakTime\<close> yields, the four
  functions leave the full name and its first three letters in the buffer, whatever it held
  before, if the buffer has room for the longest name.\<close>

theorem date_names:
  assumes "9 < length buf" and "m \<in> {1..12}" and "d \<in> {1..7}"
  shows "map_option c_str (monthStr m buf) = Some (monthNames_P ! m)
     \<and> map_option c_str (monthShortStr m buf) = Some (take 3 (monthNames_P ! m))
     \<and> map_option c_str (dayStr d buf) = Some (dayNames_P ! d)
     \<and> map_option c_str (dayShortStr d buf) = Some (take 3 (dayNames_P ! d))"
proof -
  note m = table_words [OF assms(2)] and d = day_words [OF assms(3)]
  have i: "m < length monthNames_P" "d < length dayNames_P" "to_u8 (d * 3) = d * 3"
    using assms(2,3) by (auto simp: monthNames_P_def dayNames_P_def trunc_simps)
  have l: "length (monthNames_P ! m) < length buf" "length (dayNames_P ! d) < length buf"
    "3 < length buf" using m(1) d(1) assms(1) by simp_all
  have nn: "NUL \<notin> set monthShortNames_P" "NUL \<notin> set dayShortNames_P"
    by (simp_all add: monthShortNames_P_def dayShortNames_P_def NUL_def)
  show ?thesis
    using strcpy_str [OF l(1) m(2)] strcpy_str [OF l(2) d(2)] i
      short_str_str [OF l(3) m(4) nn(1)] short_str_str [OF l(3) d(4) nn(2)]
    by (auto simp: monthStr_def dayStr_def monthShortStr_def dayShortStr_def m(3) d(3) Let_def
        dt_SHORT_STR_LEN_def)
qed

lemma date_names_witness:
  "map_option c_str (monthStr 9 (replicate 10 CHR ''x'')) = Some ''September''
     \<and> map_option c_str (monthShortStr 9 (replicate 10 CHR ''x'')) = Some ''Sep''
     \<and> map_option c_str (dayStr 4 (replicate 10 CHR ''x'')) = Some ''Wednesday''
     \<and> map_option c_str (dayShortStr 4 (replicate 10 CHR ''x'')) = Some ''Wed''"
  using date_names [of "replicate 10 CHR ''x''" 9 4] by (simp add: monthNames_P_def dayNames_P_def)

end
