(* ===== verification/Arduino_String.thy ===== *)
theory Arduino_String
  imports ESP_Prelude
begin

text \<open>
  The \<open>String\<close> and \<open>Stream\<close> classes of the Arduino core, the standard library of the sources, as
  far as they use them. A \<open>String\<close> is the list of its characters; an \<open>int\<close> argument of
  \<open>substring\<close> is converted to \<open>unsigned\<close>, so that -1 is the largest index and stands for the end;
  \<open>substring\<close> swaps its bounds when they are reversed and clips them to the string.
\<close>

section \<open>Strings\<close>

definition uns :: "int \<Rightarrow> nat" where
  "uns i = nat (i mod 2 ^ 32)"

definition indexOf :: "char \<Rightarrow> nat \<Rightarrow> string \<Rightarrow> int" where
  "indexOf c from s = (if c \<in> set (drop from s)
     then int (from + length (takeWhile (\<lambda>x. x \<noteq> c) (drop from s))) else - 1)"

definition substring :: "int \<Rightarrow> int \<Rightarrow> string \<Rightarrow> string" where
  "substring left right s =
     (let l = min (uns left) (uns right); r = max (uns left) (uns right) in drop l (take r s))"

definition substring_from :: "int \<Rightarrow> string \<Rightarrow> string" where
  "substring_from left s = substring left (int (length s)) s"

definition startsWith :: "string \<Rightarrow> string \<Rightarrow> bool" where
  "startsWith s p \<longleftrightarrow> take (length p) s = p"

definition endsWith :: "string \<Rightarrow> string \<Rightarrow> bool" where
  "endsWith s p \<longleftrightarrow> length p \<le> length s \<and> drop (length s - length p) s = p"

definition isspace :: "char \<Rightarrow> bool" where
  "isspace c \<longleftrightarrow> c \<in> {CHR '' '', CHR 0x09, CHR 0x0A, CHR 0x0B, CHR 0x0C, CHR 0x0D}"

definition trim :: "string \<Rightarrow> string" where
  "trim s = rev (dropWhile isspace (rev (dropWhile isspace s)))"

definition digit_value :: "char \<Rightarrow> nat option" where
  "digit_value c = (let n = of_char c in if 48 \<le> n \<and> n \<le> 57 then Some (n - 48) else None)"

fun digits_value :: "nat \<Rightarrow> string \<Rightarrow> nat" where
  "digits_value n [] = n"
| "digits_value n (c # cs) =
     (case digit_value c of None \<Rightarrow> n | Some d \<Rightarrow> digits_value (n * 10 + d) cs)"

text \<open>\<open>toInt\<close> is \<open>strtol\<close> in base 10: white space, a sign, digits, clamped to \<open>long\<close>.\<close>

definition toInt :: "string \<Rightarrow> int" where
  "toInt s =
     (let s = dropWhile isspace s;
          (neg, s) = (case s of [] \<Rightarrow> (False, s)
                      | c # r \<Rightarrow> if c = CHR ''-'' then (True, r) else if c = CHR ''+'' then (False, r) else (False, s));
          n = int (digits_value 0 s)
      in if neg then max (- n) (- (2 ^ 31)) else min n (2 ^ 31 - 1))"

text \<open>Decimal conversion, \<open>String(n)\<close>.\<close>

fun decimal :: "nat \<Rightarrow> string" where
  "decimal n = (if n < 10 then [char_of (n + 48)] else decimal (n div 10) @ [char_of (n mod 10 + 48)])"

declare decimal.simps [simp del]

definition decimal_int :: "int \<Rightarrow> string" where
  "decimal_int i = (if i < 0 then CHR ''-'' # decimal (nat (- i)) else decimal (nat i))"

lemma uns_id: "0 \<le> i \<Longrightarrow> i < 4294967296 \<Longrightarrow> uns i = nat i"
  by (simp add: uns_def)

lemma uns_minus_one: "uns (- 1) = 4294967295"
  by (simp add: uns_def)

lemma substring_mid:
  assumes "i \<le> j" and "j < 4294967296"
  shows "substring (int i) (int j) s = take (j - i) (drop i s)"
  using assms by (simp add: substring_def uns_id Let_def min_def max_def drop_take)

lemma substring_end:
  assumes "i < 4294967296" and "length s < 4294967296"
  shows "substring (int i) (- 1) s = drop i s"
  using assms by (simp add: substring_def uns_id uns_minus_one Let_def min_def max_def)

lemma substring_from_nat:
  assumes "i \<le> length s" and "length s < 4294967296"
  shows "substring_from (int i) s = drop i s"
  using assms by (simp add: substring_from_def substring_mid)

lemma indexOf_ge: "indexOf c i s \<noteq> - 1 \<Longrightarrow> int i \<le> indexOf c i s"
  by (simp add: indexOf_def split: if_splits)

lemma takeWhile_lt: "c \<in> set xs \<Longrightarrow> length (takeWhile (\<lambda>x. x \<noteq> c) xs) < length xs"
  by (induction xs) auto

lemma indexOf_lt: "indexOf c i s \<noteq> - 1 \<Longrightarrow> indexOf c i s < int (length s)"
proof -
  assume "indexOf c i s \<noteq> - 1"
  then have c: "c \<in> set (drop i s)" by (simp add: indexOf_def split: if_splits)
  then have "length (takeWhile (\<lambda>x. x \<noteq> c) (drop i s)) < length (drop i s)" by (rule takeWhile_lt)
  with c show ?thesis by (simp add: indexOf_def)
qed

lemma indexOf_progress:
  "indexOf c i s \<noteq> - 1 \<Longrightarrow> length s - (nat (indexOf c i s) + 1) < length s - i"
  using indexOf_ge [of c i s] indexOf_lt [of c i s] by linarith

lemma indexOf_append:
  assumes "c \<notin> set u"
  shows "indexOf c (length p) (p @ u @ c # v) = int (length p + length u)"
    and "indexOf c (length p) (p @ u) = - 1"
proof -
  have "takeWhile (\<lambda>x. x \<noteq> c) (u @ c # v) = u"
    using assms by (subst takeWhile_append2) auto
  then show "indexOf c (length p) (p @ u @ c # v) = int (length p + length u)"
    by (simp add: indexOf_def)
  show "indexOf c (length p) (p @ u) = - 1" using assms by (simp add: indexOf_def)
qed

lemma digit_value_digit: "d < 10 \<Longrightarrow> digit_value (char_of (d + 48)) = Some d"
  by (simp add: digit_value_def of_char_of take_bit_eq_mod)

lemma digits_value_append:
  "(\<forall>c \<in> set s. digit_value c \<noteq> None) \<Longrightarrow> digits_value n (s @ t) = digits_value (digits_value n s) t"
  by (induction s arbitrary: n) auto

lemma decimal_digits: "\<forall>c \<in> set (decimal n). digit_value c \<noteq> None"
proof (induction n rule: decimal.induct)
  case (1 n)
  then show ?case by (auto simp: decimal.simps [of n] digit_value_digit)
qed

lemma digits_value_decimal: "digits_value 0 (decimal n) = n"
proof (induction n rule: decimal.induct)
  case (1 n)
  then show ?case
    by (simp add: decimal.simps [of n] digit_value_digit digits_value_append decimal_digits)
qed

lemma decimal_nonempty [simp]: "decimal n \<noteq> []"
  by (simp add: decimal.simps [of n])

lemma toInt_decimal: "n < 2147483648 \<Longrightarrow> toInt (decimal n) = int n"
proof -
  assume n: "n < 2147483648"
  obtain c r where d: "decimal n = c # r" using decimal_nonempty by (meson list.exhaust)
  have "digit_value c \<noteq> None" using decimal_digits [of n] d by simp
  then have "\<not> isspace c" "c \<noteq> CHR ''-''" "c \<noteq> CHR ''+''"
    by (auto simp: digit_value_def isspace_def Let_def)
  then have "toInt (decimal n) = min (int (digits_value 0 (decimal n))) (2 ^ 31 - 1)"
    using d by (simp add: toInt_def Let_def)
  with n show ?thesis by (simp add: digits_value_decimal)
qed

section \<open>Streams\<close>

text \<open>\<open>readStringUntil\<close> takes the characters before the terminator and the terminator, or, after
  its timeout, what came. The input is the list of characters that arrive before a timeout.\<close>

definition readStringUntil :: "char \<Rightarrow> string \<Rightarrow> string \<times> string" where
  "readStringUntil c rx = (takeWhile (\<lambda>x. x \<noteq> c) rx, drop 1 (dropWhile (\<lambda>x. x \<noteq> c) rx))"

lemma readStringUntil_found:
  "c \<notin> set u \<Longrightarrow> readStringUntil c (u @ c # v) = (u, v)"
  by (simp add: readStringUntil_def takeWhile_append dropWhile_append)

lemma readStringUntil_le: "readStringUntil c rx = (l, rest) \<Longrightarrow> length rest \<le> length rx"
  using length_dropWhile_le [of "\<lambda>x. x \<noteq> c" rx] by (auto simp: readStringUntil_def)

end
