(* ===== verification/Logger_Calendar.thy ===== *)
theory Logger_Calendar
  imports Time_Clock Arduino_String "HOL-Library.Signed_Division"
begin

text \<open>
  The calendar rules of the sketch: European summer time and the printed time and date of
  \<open>src/functions.ino\<close> (lines 220 to 250), and the month selection of the yield page
  (\<open>src/websites.ino\<close>, lines 544 to 580): which month is shown, where its two links lead, and
  the last day of the month. They are compared with the civil calendar of \<open>Time_Calendar\<close>.
\<close>

section \<open>Summer time\<close>

text \<open>\<open>int\<close> arithmetic: \<open>sdiv\<close> and \<open>smod\<close> round towards zero as \<open>/\<close> and \<open>%\<close> do.\<close>

definition summertime_EU :: "int \<Rightarrow> nat \<Rightarrow> nat \<Rightarrow> nat \<Rightarrow> nat \<Rightarrow> bool" where
  "summertime_EU y m d h tzHours =
     (if m < 3 \<or> m > 10 then False
      else if m > 3 \<and> m < 10 then True
      else if m = 3 \<and> int (h + 24 * d)
                \<ge> int (1 + tzHours) + 24 * (31 - (5 * y sdiv 4 + 4) smod 7)
            \<or> m = 10 \<and> int (h + 24 * d)
                < int (1 + tzHours) + 24 * (31 - (5 * y sdiv 4 + 1) smod 7)
      then True else False)"

text \<open>
  The rule of the directive: summer time starts and ends at 01:00 UTC on the last Sundays of
  March and October. \<open>is_last_sunday y m d\<close>: day \<open>d\<close> (from 1) of month \<open>m\<close> (from 0) is a
  Sunday and no Sunday of the month follows it.
\<close>

definition is_last_sunday :: "nat \<Rightarrow> nat \<Rightarrow> nat \<Rightarrow> bool" where
  "is_last_sunday y m d \<longleftrightarrow> 1 \<le> d \<and> d \<le> monthLength y m \<and> monthLength y m < d + 7
     \<and> (days_before_year y + days_before_month y m + (d - 1) + 4) mod 7 = 0"

lemma sdiv_smod_nat: "int a sdiv int b = int (a div b)" "int a smod int b = int (a mod b)"
  by (cases "a = 0"; cases "b = 0"; simp add: signed_divide_int_def signed_modulo_int_def zdiv_int zmod_int)+

lemma LEAP_YEAR_130:
  assumes "y < 130"
  shows "LEAP_YEAR y \<longleftrightarrow> (y + 2) mod 4 = 0"
proof -
  have "(1970 + y) mod 400 = 0" if "(1970 + y) mod 100 = 0"
  proof -
    from that obtain k where k: "1970 + y = 100 * k" by (metis mod_0_imp_dvd dvdE)
    then have "k = 20" using assms by linarith
    with k show ?thesis by simp
  qed
  then have "LEAP_YEAR y \<longleftrightarrow> (1970 + y) mod 4 = 0" unfolding LEAP_YEAR_def by linarith
  also have "\<dots> \<longleftrightarrow> (y + 2) mod 4 = 0" by presburger
  finally show ?thesis .
qed

lemma days_before_year_130: "y \<le> 130 \<Longrightarrow> days_before_year y = 365 * y + (y + 1) div 4"
proof (induction y)
  case (Suc y)
  then have "LEAP_YEAR y \<longleftrightarrow> (y + 2) mod 4 = 0" by (intro LEAP_YEAR_130) simp
  moreover have "(Suc y + 1) div 4 = (y + 1) div 4 + (if (y + 2) mod 4 = 0 then 1 else 0)"
    by presburger
  ultimately show ?case using Suc by (auto simp: yearDays_def)
qed simp

definition march_sunday :: "nat \<Rightarrow> nat" where
  "march_sunday y = 31 - (5 * (y + 1970) div 4 + 4) mod 7"

definition october_sunday :: "nat \<Rightarrow> nat" where
  "october_sunday y = 31 - (5 * (y + 1970) div 4 + 1) mod 7"

lemma sunday_bounds: "25 \<le> march_sunday y \<and> march_sunday y \<le> 31" "25 \<le> october_sunday y \<and> october_sunday y \<le> 31"
proof -
  have "25 \<le> 31 - x mod 7 \<and> 31 - x mod 7 \<le> 31" for x :: nat
    using mod_less_divisor [of 7 x] by linarith
  then show "25 \<le> march_sunday y \<and> march_sunday y \<le> 31" "25 \<le> october_sunday y \<and> october_sunday y \<le> 31"
    by (simp_all only: march_sunday_def october_sunday_def)
qed

lemma month_starts:
  "days_before_month y 2 = 59 + (if LEAP_YEAR y then 1 else 0)"
  "days_before_month y 9 = 273 + (if LEAP_YEAR y then 1 else 0)"
  by (simp_all add: days_before_month_def monthLength_def monthDays_def eval_nat_numeral)

lemma sunday_congruence:
  assumes "(D :: nat) mod 7 = C mod 7"
  shows "(1461 * q + D + (35 - (5 * q + C) mod 7)) mod 7 = 0"
proof -
  define m where "m = (5 * q + C) mod 7"
  have m: "m < 7" unfolding m_def by (rule mod_less_divisor) simp
  obtain k where k: "5 * q + C = 7 * k + m" unfolding m_def by (metis mult_div_mod_eq)
  obtain a b s where ab: "D = 7 * a + s" "C = 7 * b + s" by (metis assms mult_div_mod_eq)
  define p where "p = 35 - m"
  have p: "35 = m + p" using m by (simp add: p_def)
  have "1461 * q + D + p + b * 7 = 7 * (208 * q + k + a + 5)"
    using k ab p by simp
  moreover have "35 - m = p" using p by simp
  ultimately have "1461 * q + D + (35 - m) + b * 7 = 7 * (208 * q + k + a + 5)" by simp
  then have "(1461 * q + D + (35 - m) + b * 7) mod 7 = 0" by (simp only: mod_mult_self1_is_0)
  then show ?thesis unfolding m_def [symmetric] by (simp only: mod_mult_self1)
qed
lemma weekday_cases:
  fixes q r :: nat
  assumes r: "r = 0 \<or> r = 1 \<or> r = 2 \<or> r = 3"
  shows "(4 * q + r + 1) div 4 = q + (if r = 3 then 1 else 0)"
    "5 * (4 * q + r + 1970) div 4 = 5 * q + (5 * r + 9850) div 4"
  and "(365 * (4 * q + r) + (q + (if r = 3 then 1 else 0)) + (59 + (if r = 2 then 1 else 0)) + (31 - (5 * q + (5 * r + 9850) div 4 + 4) mod 7 - 1) + 4) mod 7 = 0"
  and "(365 * (4 * q + r) + (q + (if r = 3 then 1 else 0)) + (273 + (if r = 2 then 1 else 0)) + (31 - (5 * q + (5 * r + 9850) div 4 + 1) mod 7 - 1) + 4) mod 7 = 0"
proof -
  show "(4 * q + r + 1) div 4 = q + (if r = 3 then 1 else 0)" using r by (elim disjE) simp_all
  have "5 * (4 * q + r + 1970) = (5 * r + 9850) + (5 * q) * 4" by simp
  then show "5 * (4 * q + r + 1970) div 4 = 5 * q + (5 * r + 9850) div 4"
    by (simp only: div_mult_self1)
  have s: "31 - x mod 7 - 1 + 4 + 1 = 35 - (x mod (7::nat))" for x using mod_less_divisor [of 7 x] by linarith
  have c: "(365 * (4 * q + r) + (q + a) + b + (31 - (5 * q + c + e) mod 7 - 1) + 4) mod 7 = 0"
    if "(365 * r + a + b + 6) mod 7 = (c + e) mod 7" for a b c e :: nat
  proof -
    have "365 * (4 * q + r) + (q + a) + b + (31 - (5 * q + c + e) mod 7 - 1) + 4 + 7
       = 1461 * q + (365 * r + a + b + 6) + (35 - (5 * q + (c + e)) mod 7)"
      using s [of "5 * q + (c + e)"] by (simp add: add.assoc)
    then show ?thesis using sunday_congruence [OF that, of q] by (metis mod_add_self2)
  qed
  show "(365 * (4 * q + r) + (q + (if r = 3 then 1 else 0)) + (59 + (if r = 2 then 1 else 0)) + (31 - (5 * q + (5 * r + 9850) div 4 + 4) mod 7 - 1) + 4) mod 7 = 0"
    by (rule c) (use r in \<open>elim disjE; simp\<close>)
  show "(365 * (4 * q + r) + (q + (if r = 3 then 1 else 0)) + (273 + (if r = 2 then 1 else 0)) + (31 - (5 * q + (5 * r + 9850) div 4 + 1) mod 7 - 1) + 4) mod 7 = 0"
    by (rule c) (use r in \<open>elim disjE; simp\<close>)
qed
lemma formula_weekday:
  assumes "y < 130"
  shows "(365 * y + (y + 1) div 4 + (59 + (if LEAP_YEAR y then 1 else 0)) + (march_sunday y - 1) + 4) mod 7 = 0"
    and "(365 * y + (y + 1) div 4 + (273 + (if LEAP_YEAR y then 1 else 0)) + (october_sunday y - 1) + 4) mod 7 = 0"
proof -
  define q r where "q = y div 4" and "r = y mod 4"
  have y: "y = 4 * q + r" and r: "r = 0 \<or> r = 1 \<or> r = 2 \<or> r = 3"
    unfolding q_def r_def by presburger+
  have l: "LEAP_YEAR y \<longleftrightarrow> r = 2" using LEAP_YEAR_130 [OF assms] unfolding r_def by presburger
  show "(365 * y + (y + 1) div 4 + (59 + (if LEAP_YEAR y then 1 else 0)) + (march_sunday y - 1) + 4) mod 7 = 0"
    and "(365 * y + (y + 1) div 4 + (273 + (if LEAP_YEAR y then 1 else 0)) + (october_sunday y - 1) + 4) mod 7 = 0"
    using weekday_cases [OF r, of q] l
    unfolding march_sunday_def october_sunday_def y by (simp_all only:)
qed

lemma formula_is_sunday:
  assumes "y < 130"
  shows "is_last_sunday y 2 (march_sunday y)" "is_last_sunday y 9 (october_sunday y)"
proof -
  have "(days_before_year y + days_before_month y 2 + (march_sunday y - 1) + 4) mod 7 = 0"
    "(days_before_year y + days_before_month y 9 + (october_sunday y - 1) + 4) mod 7 = 0"
    unfolding month_starts days_before_year_130 [OF less_imp_le [OF assms]]
    by (rule formula_weekday [OF assms])+
  moreover have "monthLength y 2 = 31" "monthLength y 9 = 31"
    by (simp_all add: monthLength_def monthDays_def eval_nat_numeral)
  ultimately show "is_last_sunday y 2 (march_sunday y)" "is_last_sunday y 9 (october_sunday y)"
    using sunday_bounds [of y] unfolding is_last_sunday_def by linarith+
qed

lemma last_sunday_unique:
  assumes "is_last_sunday y m d" "is_last_sunday y m e"
  shows "d = e"
proof -
  have le: "a = b" if "a \<le> b" "b \<le> L" "L < a + 7" "1 \<le> a" "(n + (a - 1) + 4) mod 7 = 0"
    "(n + (b - 1) + 4) mod 7 = 0" for a b L n :: nat
  proof -
    have "7 dvd (n + (b - 1) + 4) - (n + (a - 1) + 4)"
      using that(5,6) by (intro dvd_diff_nat) (simp_all add: dvd_eq_mod_eq_0)
    moreover have "(n + (b - 1) + 4) - (n + (a - 1) + 4) = b - a" using that(1,4) by simp
    moreover have "b - a < 7" using that(1-3) by simp
    ultimately have "b - a = 0" by (metis dvd_imp_le not_less gr0I)
    with that(1) show ?thesis by simp
  qed
  show ?thesis
    using le [of d e "monthLength y m" "days_before_year y + days_before_month y m"]
      le [of e d "monthLength y m" "days_before_year y + days_before_month y m"] assms
    unfolding is_last_sunday_def by (metis nat_le_linear)
qed

lemma sunday_int:
  "31 - (5 * int n sdiv 4 + int k) smod 7 = int (31 - (5 * n div 4 + k) mod 7)"
proof -
  have "5 * int n sdiv 4 = int (5 * n div 4)" using sdiv_smod_nat(1) [of "5 * n" 4] by simp
  then have "(5 * int n sdiv 4 + int k) smod 7 = int ((5 * n div 4 + k) mod 7)"
    using sdiv_smod_nat(2) [of "5 * n div 4 + k" 7] by simp
  moreover have "(5 * n div 4 + k) mod 7 \<le> 31"
    using mod_less_divisor [of 7 "5 * n div 4 + k"] by linarith
  ultimately show ?thesis by simp
qed

text \<open>Hours since 1970, month by month.\<close>

lemma month_hours:
  assumes "valid_tm e"
  shows "day_number e = days_before_year (Year e) + (days_before_month (Year e) (Month e - 1) + (Day e - 1))"
    and "Month e \<le> k \<Longrightarrow> days_before_month (Year e) (Month e - 1) + (Day e - 1) < days_before_month (Year e) k"
    and "k < Month e \<Longrightarrow> days_before_month (Year e) k \<le> days_before_month (Year e) (Month e - 1) + (Day e - 1)"
proof -
  show "day_number e = days_before_year (Year e) + (days_before_month (Year e) (Month e - 1) + (Day e - 1))"
    by (simp add: day_number_def)
  show "days_before_month (Year e) (Month e - 1) + (Day e - 1) < days_before_month (Year e) k"
    if "Month e \<le> k"
    using day_number_in_year(2) [OF assms] days_before_month_mono [OF that, of "Year e"] by simp
  show "days_before_month (Year e) k \<le> days_before_month (Year e) (Month e - 1) + (Day e - 1)"
    if "k < Month e"
  proof -
    from that have "k \<le> Month e - 1" by simp
    from days_before_month_mono [OF this, of "Year e"] show ?thesis by simp
  qed
qed

section \<open>The month page\<close>

text \<open>\<open>monat\<close> is the integer the request's argument converts to, cut to a byte; \<open>None\<close> where the
  argument is empty. The page shows month \<open>j\<close>, counted from 0; the links carry \<open>j\<close> and \<open>j+2\<close>.\<close>

definition view_month :: "nat \<Rightarrow> int option \<Rightarrow> nat" where
  "view_month today_month monat =
     (case monat of
        None \<Rightarrow> today_month
      | Some i \<Rightarrow> (let m = byte_of i in if m = 0 then 11 else if m > 12 then 0 else m - 1))"

definition link_back :: "nat \<Rightarrow> int" where "link_back j = int j"
definition link_next :: "nat \<Rightarrow> int" where "link_next j = int j + 2"

text \<open>The index of the last day shown, for a calendar year \<open>y\<close>.\<close>

definition view_last_day :: "nat \<Rightarrow> nat \<Rightarrow> nat" where
  "view_last_day y j =
     (if j = 1 then (if (y mod 4 = 0 \<and> y mod 100 \<noteq> 0) \<or> y mod 400 = 0 then 28 else 27)
      else if j \<le> 6 then (if j mod 2 = 0 then 30 else 29)
      else (if j mod 2 = 0 then 29 else 30))"

section \<open>Printed time and date\<close>


definition two_digits :: "nat \<Rightarrow> string" where
  "two_digits n = (if n < 10 then ''0'' else '''') @ decimal n"

definition printTime :: "u32 \<Rightarrow> 'w clock \<Rightarrow> (string \<times> 'w clock) option" where
  "printTime t c =
     Option.bind (hour t c) (\<lambda>(h, c). Option.bind (minute t c) (\<lambda>(m, c). Option.bind (second t c) (\<lambda>(s, c).
       Some (two_digits h @ '':'' @ two_digits m @ '':'' @ two_digits s, c))))"

definition printDate :: "timelib \<Rightarrow> u32 \<Rightarrow> 'w clock \<Rightarrow> (string \<times> 'w clock) option" where
  "printDate T t c =
     Option.bind (day t c) (\<lambda>(d, c). Option.bind (month t c) (\<lambda>(m, c). Option.bind (year T t c) (\<lambda>(y, c).
       Some (two_digits d @ ''.'' @ two_digits m @ ''.'' @ decimal y, c))))"

lemma two_digits_length: "n < 100 \<Longrightarrow> length (two_digits n) = 2"
proof -
  assume "n < 100"
  then have "n div 10 < 10" by simp
  then show ?thesis by (simp add: two_digits_def decimal.simps [of n] decimal.simps [of "n div 10"])
qed

text \<open>The digits denote the number.\<close>

lemma value_of_two_digits: "digits_value 0 (two_digits n) = n"
  by (simp add: two_digits_def digits_value_decimal digit_value_def)


text \<open>Comparing hours: a day before a month's change, a day after it, a day of that month.\<close>

lemma hours_before:
  fixes A :: nat
  assumes "P < M" and "H < 24"
  shows "(A + P) * 24 + H < (A + M + x) * 24 + z"
proof -
  have "(A + P) * 24 + H < (A + P + 1) * 24" using assms(2) by simp
  also have "\<dots> \<le> (A + M + x) * 24" by (rule mult_le_mono1) (use assms(1) in simp)
  finally show ?thesis by simp
qed

lemma hours_after:
  fixes A :: nat
  assumes "M + 31 \<le> P" and "x \<le> 31" and "1 \<le> x" and "tz < 23"
  shows "(A + M + (x - 1)) * 24 + (1 + tz) \<le> (A + P) * 24 + H"
proof -
  have "(A + M + (x - 1)) * 24 + (1 + tz) \<le> (A + M + (x - 1) + 1) * 24" using assms(4) by simp
  also have "\<dots> \<le> (A + P) * 24" by (rule mult_le_mono1) (use assms(1-3) in simp)
  finally show ?thesis by simp
qed

lemma hours_within:
  fixes A :: nat
  assumes "1 \<le> d" and "1 \<le> x"
  shows "(A + M + (x - 1)) * 24 + z \<le> (A + (M + (d - 1))) * 24 + H \<longleftrightarrow> z + 24 * x \<le> H + 24 * d"
  using assms by (cases d; cases x) (simp_all add: algebra_simps)

section \<open>Properties\<close>

text \<open>C10: from 1970 to 2099 the formula of \<open>summertime_EU\<close> is the European rule: for a valid date
  and hour in normal time it holds exactly from 01:00 UTC on the last Sunday of March until 01:00
  UTC on the last Sunday of October, counted in hours since 1970, for any whole-hour zone east of
  Greenwich.\<close>

theorem summertime_EU_rule:
  assumes "valid_tm e" and "Year e < 130" and "tz < 23"
    and "is_last_sunday (Year e) 2 ds" and "is_last_sunday (Year e) 9 de"
  shows "summertime_EU (int (Year e) + 1970) (Month e) (Day e) (Hour e) tz \<longleftrightarrow>
     (days_before_year (Year e) + days_before_month (Year e) 2 + (ds - 1)) * 24 + (1 + tz)
        \<le> day_number e * 24 + Hour e
     \<and> day_number e * 24 + Hour e
        < (days_before_year (Year e) + days_before_month (Year e) 9 + (de - 1)) * 24 + (1 + tz)"
proof -
  let ?y = "Year e"
  define A where "A = days_before_year ?y"
  define P where "P = days_before_month ?y (Month e - 1) + (Day e - 1)"
  have v: "1 \<le> Month e" "Month e \<le> 12" "1 \<le> Day e" "Hour e < 24"
    using assms(1) by (auto simp: valid_tm_def)
  have ds: "ds = march_sunday ?y" and de: "de = october_sunday ?y"
    using formula_is_sunday [OF assms(2)] assms(4,5) last_sunday_unique by blast+
  note b = sunday_bounds [of ?y, folded ds de]
  have f: "31 - (5 * (int ?y + 1970) sdiv 4 + 4) smod 7 = int ds"
    "31 - (5 * (int ?y + 1970) sdiv 4 + 1) smod 7 = int de"
    using sunday_int [of "?y + 1970" 4] sunday_int [of "?y + 1970" 1]
    by (simp_all add: ds de march_sunday_def october_sunday_def)
  note mh = month_hours [OF assms(1), folded A_def P_def]
  have m3: "days_before_month ?y 3 = days_before_month ?y 2 + 31"
    "days_before_month ?y 10 = days_before_month ?y 9 + 31"
    using days_before_month_simps(2) [of ?y 2] days_before_month_simps(2) [of ?y 9]
    by (simp_all add: monthLength_def monthDays_def eval_nat_numeral)
  have m39: "days_before_month ?y 3 \<le> days_before_month ?y 9" by (rule days_before_month_mono) simp
  have S: "summertime_EU (int ?y + 1970) (Month e) (Day e) (Hour e) tz \<longleftrightarrow>
      3 \<le> Month e \<and> Month e \<le> 10 \<and> (Month e = 3 \<longrightarrow> 1 + tz + 24 * ds \<le> Hour e + 24 * Day e)
      \<and> (Month e = 10 \<longrightarrow> Hour e + 24 * Day e < 1 + tz + 24 * de)"
    unfolding summertime_EU_def f by auto
  let ?from = "(A + days_before_month ?y 2 + (ds - 1)) * 24 + (1 + tz) \<le> (A + P) * 24 + Hour e"
  let ?till = "(A + P) * 24 + Hour e < (A + days_before_month ?y 9 + (de - 1)) * 24 + (1 + tz)"
  have before: "P < days_before_month ?y 9 \<Longrightarrow> ?till" "P < days_before_month ?y 2 \<Longrightarrow> \<not> ?from"
    using hours_before v(4) by (blast, metis not_le)
  have after: "days_before_month ?y 2 + 31 \<le> P \<Longrightarrow> ?from" "days_before_month ?y 9 + 31 \<le> P \<Longrightarrow> \<not> ?till"
    using hours_after [of "days_before_month ?y 2" P ds tz A "Hour e"]
      hours_after [of "days_before_month ?y 9" P de tz A "Hour e"] b assms(3) by auto
  have "summertime_EU (int ?y + 1970) (Month e) (Day e) (Hour e) tz \<longleftrightarrow> ?from \<and> ?till"
  proof -
    consider "Month e \<le> 2" | "Month e = 3" | "3 < Month e \<and> Month e < 10" | "Month e = 10" | "10 < Month e"
      by linarith
    then show ?thesis
    proof cases
      case 1
      with before(2) mh(2) [of 2] show ?thesis unfolding S by auto
    next
      case 2
      then have "P = days_before_month ?y 2 + (Day e - 1)" by (simp add: P_def)
      moreover have "?till" using before(1) mh(2) [of 3] 2 m39 by simp
      ultimately show ?thesis unfolding S using 2 hours_within [of "Day e" ds A _ "1 + tz" "Hour e"] v(3) b
        by auto
    next
      case 3
      with before(1) after(1) mh(2) [of 9] mh(3) [of 3] m3 have "?from" "?till" by auto
      with 3 show ?thesis unfolding S by auto
    next
      case 4
      then have P: "P = days_before_month ?y 9 + (Day e - 1)" by (simp add: P_def)
      have "?from" by (rule after(1)) (use P m3 m39 in simp)
      with 4 P show ?thesis unfolding S using hours_within [of "Day e" de A _ "1 + tz" "Hour e"] v(3) b
        by (auto simp: not_le [symmetric])
    next
      case 5
      with after(2) mh(3) [of 10] m3 show ?thesis unfolding S by auto
    qed
  qed
  then show ?thesis unfolding mh(1) A_def .
qed

lemma summertime_EU_rule_witness:
  "let e = \<lparr>Second = 0, Minute = 0, Hour = 2, Wday = 1, Day = 25, Month = 3, Year = 48\<rparr> in
     summertime_EU (int (Year e) + 1970) (Month e) (Day e) (Hour e) 1 \<longleftrightarrow>
     (days_before_year (Year e) + days_before_month (Year e) 2 + (25 - 1)) * 24 + (1 + 1)
        \<le> day_number e * 24 + Hour e
     \<and> day_number e * 24 + Hour e
        < (days_before_year (Year e) + days_before_month (Year e) 9 + (28 - 1)) * 24 + (1 + 1)"
  unfolding Let_def
  by (rule summertime_EU_rule)
    (simp_all add: valid_tm_def is_last_sunday_def day_number_def days_before_year_130 month_starts
      LEAP_YEAR_130 monthLength_def monthDays_def)

text \<open>The month length the yield page computes is the civil one, so the days it lists are
  exactly the days of the month and lie in the table's row.\<close>

theorem view_month_length:
  assumes "j < 12"
  shows "view_last_day (y + 1970) j + 1 = monthLength y j \<and> view_last_day (y + 1970) j \<le> 30"
proof -
  have leap: "((y + 1970) mod 4 = 0 \<and> (y + 1970) mod 100 \<noteq> 0 \<or> (y + 1970) mod 400 = 0) = LEAP_YEAR y"
  proof -
    have "4 dvd y + 1970" if "400 dvd y + 1970" by (rule dvd_trans [OF _ that]) simp
    then show ?thesis by (auto simp: LEAP_YEAR_def add.commute dvd_eq_mod_eq_0)
  qed
  from assms have "j \<in> {0, 1, 2, 3, 4, 5, 6, 7, 8, 9, 10, 11}"
    by (simp add: less_Suc_eq numeral_eq_Suc)
  then show ?thesis
    unfolding view_last_day_def leap monthLength_def monthDays_def
    by (elim insertE emptyE) simp_all
qed

lemma view_month_length_witness:
  "view_last_day (46 + 1970) 1 + 1 = monthLength 46 1 \<and> view_last_day (46 + 1970) 1 \<le> 30"
  by (rule view_month_length) simp

text \<open>The links of the yield page walk the year: from month \<open>j\<close>, back leads to the month
  before and forward to the month after, December and January being neighbours.\<close>

theorem view_month_links:
  assumes "j < 12"
  shows "view_month td (Some (link_back j)) = (j + 11) mod 12
     \<and> view_month td (Some (link_next j)) = (j + 1) mod 12"
proof -
  from assms have "j \<in> {0, 1, 2, 3, 4, 5, 6, 7, 8, 9, 10, 11}"
    by (simp add: less_Suc_eq numeral_eq_Suc)
  then show ?thesis
    by (elim insertE emptyE) (simp_all add: view_month_def link_back_def link_next_def byte_of_def Let_def)
qed

lemma view_month_links_witness:
  "view_month 5 (Some (link_back 0)) = (0 + 11) mod 12 \<and> view_month 5 (Some (link_next 0)) = (0 + 1) mod 12"
  by (rule view_month_links) simp

text \<open>The printed time has the form hh:mm:ss with the civil time of day in its digits.\<close>

theorem printTime_civil:
  assumes "cache_ok c"
  shows "\<exists>h m s c' e. printTime t c = Some (h @ '':'' @ m @ '':'' @ s, c') \<and> breakTime t = Some e
     \<and> length h = 2 \<and> length m = 2 \<and> length s = 2
     \<and> digits_value 0 h = Hour e \<and> digits_value 0 m = Minute e \<and> digits_value 0 s = Second e"
proof -
  obtain c1 e where h: "hour t c = Some (Hour e, c1)" "breakTime t = Some e" "cache_ok c1"
    using tm_field_ok [OF assms] unfolding hour_def by blast
  obtain c2 where m: "minute t c1 = Some (Minute e, c2)" "cache_ok c2"
    using tm_field_ok [OF h(3), of Minute t] h(2) unfolding minute_def by auto
  obtain c3 where s: "second t c2 = Some (Second e, c3)"
    using tm_field_ok [OF m(2), of Second t] h(2) unfolding second_def by auto
  have "Hour e < 100" "Minute e < 100" "Second e < 100"
    using breakTime_fields(1) [OF h(2)] by (auto simp: valid_tm_def)
  with h m s show ?thesis
    by (intro exI [of _ "two_digits (Hour e)"] exI [of _ "two_digits (Minute e)"]
        exI [of _ "two_digits (Second e)"] exI [of _ c3] exI [of _ e])
      (simp add: printTime_def two_digits_length value_of_two_digits)
qed

lemma printTime_civil_witness:
  "\<exists>h m s c' e. printTime 90061 (clock_init\<lparr>tm := \<lparr>Second = 0, Minute = 0, Hour = 0, Wday = 5,
         Day = 1, Month = 1, Year = 0\<rparr>\<rparr>) = Some (h @ '':'' @ m @ '':'' @ s, c') \<and> breakTime 90061 = Some e
     \<and> length h = 2 \<and> length m = 2 \<and> length s = 2
     \<and> digits_value 0 h = Hour e \<and> digits_value 0 m = Minute e \<and> digits_value 0 s = Second e"
  by (rule printTime_civil) (simp add: cache_ok_def clock_init_def breakTime_def Let_def
      year_loop.simps month_loop.simps to_u32_def to_u8_def sub32_def yearDays_def LEAP_YEAR_def
      monthLength_def monthDays_def)

end
