(* ===== verification/Eeprom.thy ===== *)
theory Eeprom
  imports ESP_Prelude
begin

text \<open>
  The EEPROM emulation (\<open>src/EEPROM/EEPROM.cpp\<close>, \<open>EEPROM.h\<close>): one flash sector mirrored in RAM.
  \<open>eeprom\<close> holds the four members of \<open>EEPROMClass\<close>; \<open>data = None\<close> is the null \<open>_data\<close>. The SDK's
  flash calls are the parameter record \<open>spi_flash\<close> over an abstract flash state, with the documented
  behaviour of NOR flash as the predicate \<open>spi_flash_ok\<close>. An access through a null \<open>_data\<close> is the
  value \<open>None\<close>; \<open>eeprom_never_null\<close> shows no sequence of calls gets there. The section on the
  invariant proves the RAM mirror coherent with the flash; the last section states the interface
  the data logger relies on, a locale \<open>word_store\<close>, and interprets it on this model.
\<close>

section \<open>The flash chip\<close>

record 'f spi_flash =
  SPI_FLASH_SEC_SIZE :: nat
  spi_flash_read :: "nat \<Rightarrow> nat \<Rightarrow> 'f \<Rightarrow> u8 list"
  spi_flash_erase_sector :: "nat \<Rightarrow> 'f \<Rightarrow> bool \<times> 'f"
  spi_flash_write :: "nat \<Rightarrow> u8 list \<Rightarrow> 'f \<Rightarrow> bool \<times> 'f"

text \<open>
  \<open>content f a\<close> is the byte of flash state \<open>f\<close> at address \<open>a\<close>. Erasing a sector sets its bytes to
  \<open>0xFF\<close>; a write into erased bytes stores the bytes given; a read returns what is stored. A call
  that reports failure leaves an arbitrary flash state.
\<close>

definition spi_flash_ok :: "'f spi_flash \<Rightarrow> ('f \<Rightarrow> nat \<Rightarrow> u8) \<Rightarrow> bool" where
  "spi_flash_ok F content \<longleftrightarrow>
     4 dvd SPI_FLASH_SEC_SIZE F \<and> 0 < SPI_FLASH_SEC_SIZE F
   \<and> (\<forall>a n f. spi_flash_read F a n f = map (content f) [a..<a + n])
   \<and> (\<forall>s f f'. spi_flash_erase_sector F s f = (True, f') \<longrightarrow>
        (\<forall>i < SPI_FLASH_SEC_SIZE F. content f' (s * SPI_FLASH_SEC_SIZE F + i) = 255))
   \<and> (\<forall>a bs f f'. spi_flash_write F a bs f = (True, f') \<longrightarrow>
        (\<forall>i < length bs. content f (a + i) = 255) \<longrightarrow>
        (\<forall>i < length bs. content f' (a + i) = bs ! i))"

section \<open>EEPROMClass\<close>

record eeprom =
  sector :: nat
  data :: "u8 list option"
  bufsize :: nat
  dirty :: bool

definition EEPROMClass :: "nat \<Rightarrow> eeprom" where
  "EEPROMClass s = \<lparr>sector = s, data = None, bufsize = 0, dirty = False\<rparr>"

definition eeprom_base :: "'f spi_flash \<Rightarrow> eeprom \<Rightarrow> nat" where
  "eeprom_base F e = sector e * SPI_FLASH_SEC_SIZE F"

definition eeprom_begin :: "'f spi_flash \<Rightarrow> nat \<Rightarrow> eeprom \<Rightarrow> 'f \<Rightarrow> eeprom" where
  "eeprom_begin F sz e f =
     (if sz \<le> 0 then e
      else let sz = (if sz > SPI_FLASH_SEC_SIZE F then SPI_FLASH_SEC_SIZE F else sz);
               sz = (sz + 3) div 4 * 4
           in e\<lparr>data := Some (spi_flash_read F (eeprom_base F e) sz f), bufsize := sz\<rparr>)"

definition eeprom_commit :: "'f spi_flash \<Rightarrow> eeprom \<Rightarrow> 'f \<Rightarrow> bool \<times> eeprom \<times> 'f" where
  "eeprom_commit F e f =
     (if bufsize e = 0 then (False, e, f)
      else if \<not> dirty e then (True, e, f)
      else case data e of
        None \<Rightarrow> (False, e, f)
      | Some d \<Rightarrow>
          (case spi_flash_erase_sector F (sector e) f of
             (False, f) \<Rightarrow> (False, e, f)
           | (True, f) \<Rightarrow>
               (case spi_flash_write F (eeprom_base F e) d f of
                  (False, f) \<Rightarrow> (False, e, f)
                | (True, f) \<Rightarrow> (True, e\<lparr>dirty := False\<rparr>, f))))"

definition eeprom_end :: "'f spi_flash \<Rightarrow> eeprom \<Rightarrow> 'f \<Rightarrow> eeprom \<times> 'f" where
  "eeprom_end F e f =
     (if bufsize e = 0 then (e, f)
      else case eeprom_commit F e f of (_, e, f) \<Rightarrow> (e\<lparr>data := None, bufsize := 0\<rparr>, f))"

definition eeprom_read :: "int \<Rightarrow> eeprom \<Rightarrow> u8" where
  "eeprom_read address e =
     (if address < 0 \<or> nat address \<ge> bufsize e then 0
      else case data e of None \<Rightarrow> 0 | Some d \<Rightarrow> d ! nat address)"

definition eeprom_write :: "int \<Rightarrow> u8 \<Rightarrow> eeprom \<Rightarrow> eeprom" where
  "eeprom_write address value e =
     (if address < 0 \<or> nat address \<ge> bufsize e then e
      else case data e of
        None \<Rightarrow> e
      | Some d \<Rightarrow> (if d ! nat address \<noteq> value
                   then e\<lparr>data := Some (d[nat address := value]), dirty := True\<rparr> else e))"

definition getDataPtr :: "eeprom \<Rightarrow> u8 list option \<times> eeprom" where
  "getDataPtr e = (data e, e\<lparr>dirty := True\<rparr>)"

text \<open>
  The templates \<open>get\<close> and \<open>put\<close> move the bytes of an object: the object is its byte list, so
  \<open>sizeof(T)\<close> is its length.
\<close>

definition eeprom_get :: "int \<Rightarrow> u8 list \<Rightarrow> eeprom \<Rightarrow> u8 list option" where
  "eeprom_get address t e =
     (if address < 0 \<or> nat address + length t > bufsize e then Some t
      else case data e of None \<Rightarrow> None | Some d \<Rightarrow> Some (bytes_at (nat address) (length t) d))"

definition eeprom_put :: "int \<Rightarrow> u8 list \<Rightarrow> eeprom \<Rightarrow> eeprom option" where
  "eeprom_put address t e =
     (if address < 0 \<or> nat address + length t > bufsize e then Some e
      else case data e of
        None \<Rightarrow> None
      | Some d \<Rightarrow> Some (e\<lparr>data := Some (blit (nat address) t d), dirty := True\<rparr>))"

section \<open>The invariant\<close>

text \<open>
  The buffer exists exactly when the size is positive and has that size; a mirror that is not
  dirty equals the flash.
\<close>

definition eeprom_wf :: "eeprom \<Rightarrow> bool" where
  "eeprom_wf e \<longleftrightarrow> (case data e of None \<Rightarrow> bufsize e = 0
                    | Some d \<Rightarrow> length d = bufsize e \<and> 0 < bufsize e)"

definition eeprom_inv :: "'f spi_flash \<Rightarrow> ('f \<Rightarrow> nat \<Rightarrow> u8) \<Rightarrow> eeprom \<times> 'f \<Rightarrow> bool" where
  "eeprom_inv F content = (\<lambda>(e, f). eeprom_wf e \<and> bufsize e \<le> SPI_FLASH_SEC_SIZE F
     \<and> (\<forall>d. data e = Some d \<longrightarrow> \<not> dirty e \<longrightarrow> (\<forall>i < length d. content f (eeprom_base F e + i) = d ! i)))"

inductive eeprom_step :: "'f spi_flash \<Rightarrow> eeprom \<times> 'f \<Rightarrow> eeprom \<times> 'f \<Rightarrow> bool" for F where
  step_begin: "eeprom_step F (e, f) (eeprom_begin F n e f, f)"
| step_write: "eeprom_step F (e, f) (eeprom_write a v e, f)"
| step_put: "eeprom_put a t e = Some e' \<Longrightarrow> eeprom_step F (e, f) (e', f)"
| step_ptr: "eeprom_step F (e, f) (snd (getDataPtr e), f)"
| step_commit: "eeprom_commit F e f = (r, e', f') \<Longrightarrow> eeprom_step F (e, f) (e', f')"
| step_end: "eeprom_end F e f = (e', f') \<Longrightarrow> eeprom_step F (e, f) (e', f')"

inductive_cases eeprom_stepE: "eeprom_step F s t"

inductive eeprom_reachable :: "'f spi_flash \<Rightarrow> eeprom \<times> 'f \<Rightarrow> bool" for F where
  reach_init: "eeprom_reachable F (EEPROMClass s, f)"
| reach_step: "eeprom_reachable F s \<Longrightarrow> eeprom_step F s t \<Longrightarrow> eeprom_reachable F t"

lemma eeprom_wf_init [simp]: "eeprom_wf (EEPROMClass s)"
  by (simp add: eeprom_wf_def EEPROMClass_def)

lemma eeprom_wf_cases:
  assumes "eeprom_wf e"
  obtains "data e = None" "bufsize e = 0"
  | d where "data e = Some d" "length d = bufsize e" "0 < bufsize e"
  using assms by (cases "data e") (auto simp: eeprom_wf_def)

lemma spi_flash_okD:
  assumes "spi_flash_ok F content"
  shows "4 dvd SPI_FLASH_SEC_SIZE F" "0 < SPI_FLASH_SEC_SIZE F"
    and "spi_flash_read F a n f = map (content f) [a..<a + n]"
    and "spi_flash_erase_sector F s f = (True, f') \<Longrightarrow> i < SPI_FLASH_SEC_SIZE F
           \<Longrightarrow> content f' (s * SPI_FLASH_SEC_SIZE F + i) = 255"
    and "spi_flash_write F a bs f = (True, f') \<Longrightarrow> (\<And>i. i < length bs \<Longrightarrow> content f (a + i) = 255)
           \<Longrightarrow> i < length bs \<Longrightarrow> content f' (a + i) = bs ! i"
  using assms by (auto simp: spi_flash_ok_def)

lemma round_up_4: "0 < n \<Longrightarrow> n \<le> s \<Longrightarrow> 4 dvd s \<Longrightarrow> (n + 3) div 4 * 4 \<le> s \<and> 0 < (n + 3) div 4 * (4::nat)"
  by (auto elim!: dvdE)

lemma begin_inv:
  assumes "spi_flash_ok F content" and "eeprom_inv F content (e, f)"
  shows "eeprom_inv F content (eeprom_begin F n e f, f)"
proof (cases "n = 0")
  case True
  with assms show ?thesis by (simp add: eeprom_begin_def)
next
  case False
  let ?n = "if n > SPI_FLASH_SEC_SIZE F then SPI_FLASH_SEC_SIZE F else n"
  have "(?n + 3) div 4 * 4 \<le> SPI_FLASH_SEC_SIZE F \<and> 0 < (?n + 3) div 4 * 4"
    by (rule round_up_4) (use False spi_flash_okD(1,2) [OF assms(1)] in auto)
  with False show ?thesis
    by (simp add: eeprom_begin_def eeprom_inv_def eeprom_wf_def eeprom_base_def Let_def
        spi_flash_okD(3) [OF assms(1)])
qed

lemma write_inv: "eeprom_inv F content (e, f) \<Longrightarrow> eeprom_inv F content (eeprom_write a v e, f)"
  by (auto simp: eeprom_inv_def eeprom_wf_def eeprom_write_def eeprom_base_def split: option.splits)

lemma put_inv:
  "eeprom_inv F content (e, f) \<Longrightarrow> eeprom_put a t e = Some e' \<Longrightarrow> eeprom_inv F content (e', f)"
  by (auto simp: eeprom_inv_def eeprom_wf_def eeprom_put_def eeprom_base_def length_blit
      split: option.splits if_splits)

lemma ptr_inv: "eeprom_inv F content (e, f) \<Longrightarrow> eeprom_inv F content (snd (getDataPtr e), f)"
  by (auto simp: eeprom_inv_def eeprom_wf_def getDataPtr_def split: option.splits)

text \<open>A commit that reports success leaves the flash holding the mirror.\<close>

lemma commit_stores:
  assumes F: "spi_flash_ok F content" and inv: "eeprom_inv F content (e, f)"
    and c: "eeprom_commit F e f = (True, e', f')"
  shows "\<exists>d. data e = Some d \<and> e' = e\<lparr>dirty := False\<rparr>
           \<and> (\<forall>i < length d. content f' (eeprom_base F e + i) = d ! i)"
proof -
  from inv have wf: "eeprom_wf e" and sz: "bufsize e \<le> SPI_FLASH_SEC_SIZE F"
    by (auto simp: eeprom_inv_def)
  from wf show ?thesis
  proof (cases rule: eeprom_wf_cases)
    case 1
    with c show ?thesis by (simp add: eeprom_commit_def)
  next
    case (2 d)
    show ?thesis
    proof (cases "dirty e")
      case False
      with c 2 inv show ?thesis by (auto simp: eeprom_commit_def eeprom_inv_def)
    next
      case True
      with c 2 obtain f1 where er: "spi_flash_erase_sector F (sector e) f = (True, f1)"
        and wr: "spi_flash_write F (eeprom_base F e) d f1 = (True, f')" and e': "e' = e\<lparr>dirty := False\<rparr>"
        by (auto simp: eeprom_commit_def split: prod.splits bool.splits)
      have "content f1 (eeprom_base F e + i) = 255" if "i < length d" for i
        unfolding eeprom_base_def by (rule spi_flash_okD(4) [OF F er]) (use that 2 sz in simp)
      from spi_flash_okD(5) [OF F wr this] 2 e' show ?thesis by simp
    qed
  qed
qed

lemma commit_fails:
  "eeprom_commit F e f = (False, e', f') \<Longrightarrow> e' = e \<and> (bufsize e = 0 \<or> data e = None \<or> dirty e)"
  by (auto simp: eeprom_commit_def split: if_splits option.splits prod.splits bool.splits)

lemma commit_inv:
  assumes F: "spi_flash_ok F content" and inv: "eeprom_inv F content (e, f)"
    and c: "eeprom_commit F e f = (r, e', f')"
  shows "eeprom_inv F content (e', f')"
proof (cases r)
  case True
  with commit_stores [OF F inv] c inv show ?thesis
    by (auto simp: eeprom_inv_def eeprom_wf_def eeprom_base_def)
next
  case False
  with c have "eeprom_commit F e f = (False, e', f')" by simp
  from commit_fails [OF this] have "e' = e" and "bufsize e = 0 \<or> data e = None \<or> dirty e" by auto
  with inv show ?thesis by (auto simp: eeprom_inv_def eeprom_wf_def split: option.splits)
qed

lemma end_inv:
  assumes F: "spi_flash_ok F content" and inv: "eeprom_inv F content (e, f)"
    and c: "eeprom_end F e f = (e', f')"
  shows "eeprom_inv F content (e', f')"
  using c inv by (auto simp: eeprom_end_def eeprom_inv_def eeprom_wf_def split: if_splits prod.splits)

lemma step_inv:
  assumes "spi_flash_ok F content" and "eeprom_step F s t" and "eeprom_inv F content s"
  shows "eeprom_inv F content t"
  using assms(2,3)
  by (cases rule: eeprom_step.cases)
    (auto intro: assms(1) begin_inv write_inv put_inv ptr_inv commit_inv end_inv)

lemma reachable_inv:
  assumes "spi_flash_ok F content" and "eeprom_reachable F s"
  shows "eeprom_inv F content s"
  using assms(2)
proof (induction rule: eeprom_reachable.induct)
  case (reach_init s f)
  show ?case by (simp add: eeprom_inv_def EEPROMClass_def eeprom_wf_def)
next
  case (reach_step s t)
  from reach_step.hyps(2) reach_step.IH show ?case by (rule step_inv [OF assms(1)])
qed

section \<open>A store of 32-bit words\<close>

text \<open>
  What the data logger relies on: words put at an address are read back there, words at disjoint
  addresses are unaffected, and the capacity does not change.
\<close>

locale word_store =
  fixes put :: "nat \<Rightarrow> u32 \<Rightarrow> 's \<Rightarrow> 's"
    and get :: "nat \<Rightarrow> 's \<Rightarrow> u32"
    and ok :: "'s \<Rightarrow> bool"
    and capacity :: "'s \<Rightarrow> nat"
  assumes get_put_same: "ok s \<Longrightarrow> a + 4 \<le> capacity s \<Longrightarrow> get a (put a v s) = v"
    and get_put_other: "ok s \<Longrightarrow> a + 4 \<le> capacity s \<Longrightarrow> b + 4 \<le> capacity s
          \<Longrightarrow> a + 4 \<le> b \<or> b + 4 \<le> a \<Longrightarrow> get b (put a v s) = get b s"
    and ok_put: "ok s \<Longrightarrow> a + 4 \<le> capacity s \<Longrightarrow> ok (put a v s)"
    and capacity_put: "ok s \<Longrightarrow> a + 4 \<le> capacity s \<Longrightarrow> capacity (put a v s) = capacity s"
begin

lemma put_all_ok:
  assumes "ok s" and "\<forall>(a, v) \<in> set avs. a + 4 \<le> capacity s"
  shows "ok (fold (\<lambda>(a, v). put a v) avs s)
       \<and> capacity (fold (\<lambda>(a, v). put a v) avs s) = capacity s"
  using assms by (induction avs arbitrary: s) (auto simp: ok_put capacity_put)

lemma put_all_frame:
  assumes "ok s" and "\<forall>(a, v) \<in> set avs. a + 4 \<le> capacity s \<and> (a + 4 \<le> b \<or> b + 4 \<le> a)"
    and "b + 4 \<le> capacity s"
  shows "get b (fold (\<lambda>(a, v). put a v) avs s) = get b s"
  using assms
  by (induction avs arbitrary: s) (auto simp: ok_put capacity_put get_put_other)

text \<open>A table of words at pairwise disjoint addresses is read back entry by entry.\<close>

lemma put_all_get:
  assumes "ok s" and "\<forall>(a, v) \<in> set avs. a + 4 \<le> capacity s" and "(b, w) \<in> set avs"
    and "sorted_wrt (\<lambda>x y. fst x + 4 \<le> fst y \<or> fst y + 4 \<le> fst x) avs"
  shows "get b (fold (\<lambda>(a, v). put a v) avs s) = w"
  using assms
proof (induction avs arbitrary: s)
  case Nil
  then show ?case by simp
next
  case (Cons p avs)
  obtain a v where p: "p = (a, v)" by (cases p)
  have a: "a + 4 \<le> capacity s" "ok (put a v s)" "capacity (put a v s) = capacity s"
    using Cons.prems p by (auto simp: ok_put capacity_put)
  show ?case
  proof (cases "(b, w) = (a, v)")
    case True
    have "get a (fold (\<lambda>(a, v). put a v) avs (put a v s)) = get a (put a v s)"
      by (rule put_all_frame) (use a Cons.prems p in \<open>auto split: prod.splits\<close>)
    with True p a Cons.prems(1) show ?thesis by (simp add: get_put_same)
  next
    case False
    with Cons.prems p have "(b, w) \<in> set avs" by auto
    with Cons.IH [of "put a v s"] a p Cons.prems show ?thesis by auto
  qed
qed

end

definition eeprom_put_u32 :: "nat \<Rightarrow> u32 \<Rightarrow> eeprom \<Rightarrow> eeprom" where
  "eeprom_put_u32 a v e = (case eeprom_put (int a) (le32 v) e of None \<Rightarrow> e | Some e' \<Rightarrow> e')"

definition eeprom_get_u32 :: "nat \<Rightarrow> eeprom \<Rightarrow> u32" where
  "eeprom_get_u32 a e = (case eeprom_get (int a) (le32 0) e of None \<Rightarrow> 0 | Some bs \<Rightarrow> of_le32 bs)"

interpretation ee: word_store eeprom_put_u32 eeprom_get_u32 eeprom_wf bufsize
proof unfold_locales
  fix s a v b
  assume wf: "eeprom_wf s" and a: "a + 4 \<le> bufsize s"
  then obtain d where d: "data s = Some d" "length d = bufsize s" "0 < bufsize s"
    by (cases rule: eeprom_wf_cases) auto
  then show "eeprom_get_u32 a (eeprom_put_u32 a v s) = v"
    and "eeprom_wf (eeprom_put_u32 a v s)" and "bufsize (eeprom_put_u32 a v s) = bufsize s"
    using a bytes_at_blit_same [of a "le32 v" d]
    by (simp_all add: eeprom_get_u32_def eeprom_put_u32_def eeprom_get_def eeprom_put_def
        eeprom_wf_def byte_simps)
  assume "b + 4 \<le> bufsize s" and "a + 4 \<le> b \<or> b + 4 \<le> a"
  with a d have "bytes_at b 4 (blit a (le32 v) d) = bytes_at b 4 d"
    by (intro bytes_at_blit_other) auto
  with a d show "eeprom_get_u32 b (eeprom_put_u32 a v s) = eeprom_get_u32 b s"
    by (simp add: eeprom_get_u32_def eeprom_put_u32_def eeprom_get_def eeprom_put_def byte_simps)
qed

section \<open>Properties\<close>

text \<open>A flash that behaves as documented: a write clears bits, an erase sets them.\<close>

definition nor_flash :: "(nat \<Rightarrow> u8) spi_flash" where
  "nor_flash = \<lparr>SPI_FLASH_SEC_SIZE = 4096,
     spi_flash_read = (\<lambda>a n f. map f [a..<a + n]),
     spi_flash_erase_sector = (\<lambda>s f. (True, \<lambda>a. if a div 4096 = s then 255 else f a)),
     spi_flash_write = (\<lambda>a bs f. (True, \<lambda>x. if a \<le> x \<and> x < a + length bs
                                              then and (f x) (bs ! (x - a)) else f x))\<rparr>"

lemma and_255 [simp]: "and 255 (b :: u8) = b"
proof -
  have "(255 :: u8) = - 1" by simp
  then show ?thesis by (simp only: and.left_neutral)
qed

lemma nor_flash_ok: "spi_flash_ok nor_flash id"
  by (auto simp: spi_flash_ok_def nor_flash_def)

text \<open>C7: in every state a sequence of calls reaches from the constructor, the buffer exists
  exactly when its size is positive and has that size, the size fits the sector, a buffer that is
  not dirty equals the flash, and no \<open>get\<close>, \<open>put\<close> of any object at any address reaches a null or an
  outside byte.\<close>

theorem eeprom_never_null:
  assumes "spi_flash_ok F content" and "eeprom_reachable F (e, f)" and "0 < length t"
  shows "eeprom_inv F content (e, f)
     \<and> eeprom_get a t e \<noteq> None \<and> eeprom_put a t e \<noteq> None
     \<and> (0 \<le> a \<longrightarrow> nat a < bufsize e \<longrightarrow> (\<exists>d. data e = Some d \<and> nat a < length d \<and> eeprom_read a e = d ! nat a))"
  using reachable_inv [OF assms(1,2)] assms(3)
  by (auto simp: eeprom_inv_def eeprom_wf_def eeprom_get_def eeprom_put_def eeprom_read_def
      split: option.splits)

lemma eeprom_never_null_witness:
  "let e = eeprom_begin nor_flash 1520 (EEPROMClass 1019) (\<lambda>a. of_nat a) in
     eeprom_get 1518 [0, 0, 0, 0] e \<noteq> None \<and> eeprom_put 1518 [0, 0, 0, 0] e \<noteq> None"
  using eeprom_never_null [OF nor_flash_ok reach_step [OF reach_init step_begin], where t = "[0, 0, 0, 0]"]
  by (simp add: Let_def)

text \<open>C6: what was committed survives a power cycle: when \<open>commit\<close> reports success in any
  reachable state, a fresh object of the same sector that begins with at least that size reads
  back the bytes of the buffer.\<close>

theorem eeprom_power_cycle:
  assumes "spi_flash_ok F content" and "eeprom_reachable F (e, f)"
    and "eeprom_commit F e f = (True, e', f')"
    and "bufsize e \<le> n" and "n \<le> SPI_FLASH_SEC_SIZE F"
  shows "\<exists>d d'. data e = Some d
     \<and> data (eeprom_begin F n (EEPROMClass (sector e)) f') = Some d' \<and> take (bufsize e) d' = d"
proof -
  have inv: "eeprom_inv F content (e, f)" by (rule reachable_inv [OF assms(1,2)])
  obtain d where d: "data e = Some d" "\<forall>i < length d. content f' (eeprom_base F e + i) = d ! i"
    using commit_stores [OF assms(1) inv assms(3)] by blast
  have l: "length d = bufsize e" "0 < bufsize e"
    using inv d(1) by (auto simp: eeprom_inv_def eeprom_wf_def)
  let ?n = "(n + 3) div 4 * 4"
  have n: "n \<le> ?n" "0 < n" using assms(4) l(2) by linarith+
  let ?d' = "map (content f') [eeprom_base F e..<eeprom_base F e + ?n]"
  have "data (eeprom_begin F n (EEPROMClass (sector e)) f') = Some ?d'"
    using n(2) assms(5)
    by (simp add: eeprom_begin_def Let_def EEPROMClass_def eeprom_base_def spi_flash_okD(3) [OF assms(1)])
  moreover have "take (bufsize e) ?d' = d"
    using d(2) l(1) n(1) assms(4) by (intro nth_equalityI) auto
  ultimately show ?thesis using d(1) by blast
qed

lemma eeprom_power_cycle_witness:
  "let e = eeprom_begin nor_flash 4 (EEPROMClass 0) (\<lambda>_. 7); f' = snd (snd (eeprom_commit nor_flash e (\<lambda>_. 7)))
   in \<exists>d d'. data e = Some d \<and> data (eeprom_begin nor_flash 8 (EEPROMClass (sector e)) f') = Some d'
      \<and> take (bufsize e) d' = d"
  unfolding Let_def
  by (rule eeprom_power_cycle [OF nor_flash_ok reach_step [OF reach_init step_begin],
        where e' = "eeprom_begin nor_flash 4 (EEPROMClass 0) (\<lambda>_. 7)"])
    (simp_all add: eeprom_commit_def eeprom_begin_def EEPROMClass_def nor_flash_def eeprom_base_def)

end
