(* ===== verification/Float32.thy ===== *)
theory Float32
  imports Complex_Main ESP_Prelude
begin

text \<open>
  The floating-point types of C++ the sketch computes with. A \<open>float\<close> variable is its IEEE 754
  binary32 bit pattern, so that copying its bytes into the EEPROM is a copy of a word; arithmetic
  decodes to a value \<open>fp\<close>, computes exactly and rounds to nearest, ties to even. A \<open>double\<close> only
  occurs inside expressions and is a value rounded to 53 bits. The sign of zero is not kept. A
  conversion to an unsigned integer that does not fit is undefined behaviour, the value \<open>None\<close>.
  The lemmas show that whole numbers below 2^24 are computed exactly.
\<close>

datatype fp = NaN | Inf bool | Fin rat

section \<open>Rounding\<close>

fun ilog2 :: "nat \<Rightarrow> nat" where
  "ilog2 n = (if n < 2 then 0 else Suc (ilog2 (n div 2)))"

declare ilog2.simps [simp del]

definition exponent :: "rat \<Rightarrow> int" where
  "exponent r = (case quotient_of r of (n, d) \<Rightarrow>
     let k = int (ilog2 (nat n)) - int (ilog2 (nat d)) in if 2 powi k \<le> r then k else k - 1)"

definition round_even :: "rat \<Rightarrow> int" where
  "round_even x = (let f = \<lfloor>x\<rfloor>; d = x - of_int f in
     if d < 1 / 2 then f else if d > 1 / 2 then f + 1 else if even f then f else f + 1)"

definition fp_round :: "int \<Rightarrow> int \<Rightarrow> int \<Rightarrow> rat \<Rightarrow> fp" where
  "fp_round p emin emax r =
     (if r = 0 then Fin 0
      else let q = 2 powi (max (exponent \<bar>r\<bar>) emin - (p - 1));
               v = of_int (round_even (\<bar>r\<bar> / q)) * q
           in if v \<ge> 2 powi (emax + 1) then Inf (r < 0)
              else Fin (if r < 0 then - v else v))"

abbreviation f32_round :: "rat \<Rightarrow> fp" where
  "f32_round \<equiv> fp_round 24 (-126) 127"

abbreviation f64_round :: "rat \<Rightarrow> fp" where
  "f64_round \<equiv> fp_round 53 (-1022) 1023"

section \<open>Bit patterns\<close>

definition f32_decode :: "u32 \<Rightarrow> fp" where
  "f32_decode w =
     (let u = unat w; s = u div 2 ^ 31; e = u div 2 ^ 23 mod 256; m = u mod 2 ^ 23;
          sgn = (if s = 1 then -1 else 1)
      in if e = 255 then (if m = 0 then Inf (s = 1) else NaN)
         else if e = 0 then Fin (sgn * (of_nat m * 2 powi (-149)))
         else Fin (sgn * (of_nat (2 ^ 23 + m) * 2 powi (int e - 150))))"

definition f32_encode :: "fp \<Rightarrow> u32" where
  "f32_encode x = (case x of
       NaN \<Rightarrow> of_nat (255 * 2 ^ 23 + 2 ^ 22)
     | Inf neg \<Rightarrow> of_nat ((if neg then 2 ^ 31 else 0) + 255 * 2 ^ 23)
     | Fin r \<Rightarrow>
         (if r = 0 then 0
          else let e = exponent \<bar>r\<bar>; s = (if r < 0 then 2 ^ 31 else 0) in
               if e < -126 then of_nat (s + nat \<lfloor>\<bar>r\<bar> / 2 powi (-149)\<rfloor>)
               else of_nat (s + nat (e + 127) * 2 ^ 23 + (nat \<lfloor>\<bar>r\<bar> / 2 powi (e - 23)\<rfloor> - 2 ^ 23))))"

section \<open>Operations\<close>

definition fp_neg :: "fp \<Rightarrow> bool" where
  "fp_neg x = (case x of NaN \<Rightarrow> False | Inf s \<Rightarrow> s | Fin r \<Rightarrow> r < 0)"

fun fp_add :: "(rat \<Rightarrow> fp) \<Rightarrow> fp \<Rightarrow> fp \<Rightarrow> fp" where
  "fp_add rnd (Fin a) (Fin b) = rnd (a + b)"
| "fp_add rnd (Inf s) (Inf t) = (if s = t then Inf s else NaN)"
| "fp_add rnd (Inf s) (Fin b) = Inf s"
| "fp_add rnd (Fin a) (Inf t) = Inf t"
| "fp_add rnd _ _ = NaN"

fun fp_mul :: "(rat \<Rightarrow> fp) \<Rightarrow> fp \<Rightarrow> fp \<Rightarrow> fp" where
  "fp_mul rnd (Fin a) (Fin b) = rnd (a * b)"
| "fp_mul rnd (Inf s) (Inf t) = Inf (s \<noteq> t)"
| "fp_mul rnd (Inf s) (Fin b) = (if b = 0 then NaN else Inf (s \<noteq> (b < 0)))"
| "fp_mul rnd (Fin a) (Inf t) = (if a = 0 then NaN else Inf ((a < 0) \<noteq> t))"
| "fp_mul rnd _ _ = NaN"

fun fp_div :: "(rat \<Rightarrow> fp) \<Rightarrow> fp \<Rightarrow> fp \<Rightarrow> fp" where
  "fp_div rnd (Fin a) (Fin b) = (if b = 0 then (if a = 0 then NaN else Inf (a < 0)) else rnd (a / b))"
| "fp_div rnd (Inf s) (Inf t) = NaN"
| "fp_div rnd (Inf s) (Fin b) = Inf (s \<noteq> (b < 0))"
| "fp_div rnd (Fin a) (Inf t) = Fin 0"
| "fp_div rnd _ _ = NaN"

fun fp_less :: "fp \<Rightarrow> fp \<Rightarrow> bool" where
  "fp_less (Fin a) (Fin b) = (a < b)"
| "fp_less (Inf s) (Inf t) = (s \<and> \<not> t)"
| "fp_less (Inf s) (Fin b) = s"
| "fp_less (Fin a) (Inf t) = (\<not> t)"
| "fp_less _ _ = False"

text \<open>The conversions: \<open>unsigned int\<close> to \<open>float\<close>, \<open>double\<close> to \<open>float\<close> and \<open>float\<close> to \<open>unsigned int\<close>.\<close>

definition f32_of_u32 :: "u32 \<Rightarrow> u32" where
  "f32_of_u32 n = f32_encode (f32_round (of_nat (unat n)))"

definition f32_of_fp :: "fp \<Rightarrow> u32" where
  "f32_of_fp x = f32_encode (case x of Fin r \<Rightarrow> f32_round r | y \<Rightarrow> y)"

definition u32_of_f32 :: "u32 \<Rightarrow> u32 option" where
  "u32_of_f32 w = (case f32_decode w of
       Fin r \<Rightarrow> (if -1 < r \<and> r < 2 ^ 32 then Some (of_int (if r < 0 then 0 else \<lfloor>r\<rfloor>)) else None)
     | _ \<Rightarrow> None)"

definition f32_add :: "u32 \<Rightarrow> u32 \<Rightarrow> u32" where
  "f32_add a b = f32_encode (fp_add f32_round (f32_decode a) (f32_decode b))"

definition f32_mul :: "u32 \<Rightarrow> u32 \<Rightarrow> u32" where
  "f32_mul a b = f32_encode (fp_mul f32_round (f32_decode a) (f32_decode b))"

definition f32_div :: "u32 \<Rightarrow> u32 \<Rightarrow> u32" where
  "f32_div a b = f32_encode (fp_div f32_round (f32_decode a) (f32_decode b))"

definition f32_less :: "u32 \<Rightarrow> u32 \<Rightarrow> bool" where
  "f32_less a b = fp_less (f32_decode a) (f32_decode b)"

definition f32_eq :: "u32 \<Rightarrow> u32 \<Rightarrow> bool" where
  "f32_eq a b = (case (f32_decode a, f32_decode b) of
     (NaN, _) \<Rightarrow> False | (_, NaN) \<Rightarrow> False | (x, y) \<Rightarrow> x = y)"

section \<open>Whole numbers below 2^24 are exact\<close>

lemma ilog2_bounds: "0 < n \<Longrightarrow> 2 ^ ilog2 n \<le> n \<and> n < 2 ^ Suc (ilog2 n)"
proof (induction n rule: ilog2.induct)
  case (1 n)
  show ?case
  proof (cases "n < 2")
    case True
    with 1 show ?thesis by (subst (1 2) ilog2.simps) auto
  next
    case False
    with 1 have "2 ^ ilog2 (n div 2) \<le> n div 2 \<and> n div 2 < 2 ^ Suc (ilog2 (n div 2))" by auto
    with False show ?thesis by (subst (1 2) ilog2.simps) auto
  qed
qed

lemma exponent_nat: "0 < n \<Longrightarrow> exponent (of_nat n) = int (ilog2 n)"
proof -
  assume n: "0 < n"
  have q: "quotient_of (of_nat n) = (int n, 1)"
    using quotient_of_int [of "int n"] by simp
  have "ilog2 1 = 0" by (simp add: ilog2.simps)
  moreover have "(2::rat) powi int (ilog2 n) \<le> of_nat n"
    using ilog2_bounds [OF n] by (simp add: power_int_of_nat)
  ultimately show ?thesis by (simp add: exponent_def q)
qed

lemma ilog2_24: "0 < n \<Longrightarrow> n < 16777216 \<Longrightarrow> ilog2 n \<le> 23"
proof (rule ccontr)
  assume "0 < n" "n < 16777216" "\<not> ilog2 n \<le> 23"
  then have "(2::nat) ^ 24 \<le> 2 ^ ilog2 n" by (intro power_increasing) auto
  with ilog2_bounds [OF \<open>0 < n\<close>] \<open>n < 16777216\<close> show False by simp
qed

text \<open>The significand of such a number: it is scaled into 24 bits without a fraction.\<close>

lemma scaled_nat:
  assumes "0 < n" "n < 16777216"
  shows "(of_nat n :: rat) / 2 powi (int (ilog2 n) - 23) = of_nat (n * 2 ^ (23 - ilog2 n))"
    and "8388608 \<le> n * 2 ^ (23 - ilog2 n)" and "n * 2 ^ (23 - ilog2 n) < 16777216"
proof -
  have e: "ilog2 n \<le> 23" by (rule ilog2_24 [OF assms])
  have "(2::rat) powi (int (ilog2 n) - 23) = inverse (2 ^ (23 - ilog2 n))"
    using e by (simp add: power_int_def nat_diff_distrib power_one_over inverse_eq_divide)
  then show "(of_nat n :: rat) / 2 powi (int (ilog2 n) - 23) = of_nat (n * 2 ^ (23 - ilog2 n))"
    by (simp add: divide_inverse)
  have p: "(2::nat) ^ ilog2 n * 2 ^ (23 - ilog2 n) = 2 ^ 23"
    using e by (simp add: power_add [symmetric])
  have "2 ^ ilog2 n * 2 ^ (23 - ilog2 n) \<le> n * (2::nat) ^ (23 - ilog2 n)"
    using ilog2_bounds [OF assms(1)] by simp
  with p show "8388608 \<le> n * 2 ^ (23 - ilog2 n)" by simp
  have "n * 2 ^ (23 - ilog2 n) < 2 ^ Suc (ilog2 n) * (2::nat) ^ (23 - ilog2 n)"
    using ilog2_bounds [OF assms(1)] by simp
  also have "\<dots> = 2 * 2 ^ 23" using p by simp
  finally show "n * 2 ^ (23 - ilog2 n) < 16777216" by simp
qed

lemma round_even_int [simp]: "round_even (of_int k) = k"
  by (simp add: round_even_def)

lemma round_even_nat [simp]: "round_even (of_nat k) = int k"
  using round_even_int [of "int k"] by simp

lemma ilog2_less: "0 < n \<Longrightarrow> n < 2 ^ p \<Longrightarrow> ilog2 n < p"
proof (rule ccontr)
  assume "0 < n" "n < 2 ^ p" "\<not> ilog2 n < p"
  then have "(2::nat) ^ p \<le> 2 ^ ilog2 n" by (intro power_increasing) auto
  with ilog2_bounds [OF \<open>0 < n\<close>] \<open>n < 2 ^ p\<close> show False by simp
qed

lemma fp_round_nat:
  assumes "n < 2 ^ p" "emin \<le> 0" "int p \<le> emax + 1"
  shows "fp_round (int p) emin emax (of_nat n) = Fin (of_nat n)"
proof (cases "n = 0")
  case True
  then show ?thesis by (simp add: fp_round_def)
next
  case False
  then have e: "ilog2 n < p" using ilog2_less [of n p] assms(1) by simp
  define q where "q = (2::rat) powi (int (ilog2 n) - (int p - 1))"
  have q: "q = inverse (2 ^ (p - 1 - ilog2 n))"
    using e by (simp add: q_def power_int_def nat_diff_distrib of_nat_diff power_one_over inverse_eq_divide)
  then have "of_nat n / q = of_nat (n * 2 ^ (p - 1 - ilog2 n))" by (simp add: divide_inverse)
  then have "of_int (round_even (of_nat n / q)) * q = of_nat (n * 2 ^ (p - 1 - ilog2 n)) * q"
    by (simp only: round_even_nat of_int_of_nat_eq)
  also have "\<dots> = of_nat n" by (simp add: q)
  finally have v: "of_int (round_even (of_nat n / q)) * q = of_nat n" .
  have "(of_nat n :: rat) < of_nat (2 ^ p)" using assms(1) by (simp only: of_nat_less_iff)
  also have "\<dots> = 2 powi int p" by (simp add: power_int_of_nat)
  also have "\<dots> \<le> 2 powi (emax + 1)" using assms(3) by (intro power_int_increasing) auto
  finally have lt: "(of_nat n :: rat) < 2 powi (emax + 1)" .
  have mx: "max (int (ilog2 n)) emin = int (ilog2 n)" using assms(2) by simp
  show ?thesis
    using v lt False unfolding q_def by (simp add: fp_round_def exponent_nat Let_def not_le mx)
qed

lemma f32_round_nat: "n < 16777216 \<Longrightarrow> f32_round (of_nat n) = Fin (of_nat n)"
  using fp_round_nat [of n 24 "-126" 127] by simp

lemma f64_round_nat: "n < 9007199254740992 \<Longrightarrow> f64_round (of_nat n) = Fin (of_nat n)"
  using fp_round_nat [of n 53 "-1022" 1023] by simp

lemma f32_decode_encode_nat:
  assumes "n < 16777216"
  shows "f32_decode (f32_encode (Fin (of_nat n))) = Fin (of_nat n)"
proof (cases "n = 0")
  case True
  then show ?thesis by (simp add: f32_encode_def f32_decode_def)
next
  case False
  then have n: "0 < n" by simp
  define m where "m = n * 2 ^ (23 - ilog2 n)"
  have e: "ilog2 n \<le> 23" by (rule ilog2_24 [OF n assms])
  note sc = scaled_nat [OF n assms, folded m_def]
  define u where "u = (ilog2 n + 127) * 8388608 + (m - 8388608)"
  have u: "u < 2147483648" using e sc(3) by (simp add: u_def)
  have "nat (int (ilog2 n) + 127) = ilog2 n + 127" by simp
  then have "f32_encode (Fin (of_nat n)) = of_nat u"
    using n sc(1) by (simp add: f32_encode_def exponent_nat Let_def u_def)
  then have un: "unat (f32_encode (Fin (of_nat n))) = u"
    using u by (simp only: unat_of_nat_u32)
  have "m - 8388608 < 8388608" using sc(3) by simp
  then have d: "u div 8388608 = ilog2 n + 127" "u mod 8388608 = m - 8388608"
    unfolding u_def by (simp_all only: div_mult_self3 mod_mult_self3 div_less mod_less)
  have d31: "u div 2147483648 = 0" using u by simp
  have "(of_nat m :: rat) * 2 powi (int (ilog2 n) - 23) = of_nat n"
    using sc(1) by (metis nonzero_eq_divide_eq power_int_not_zero zero_neq_numeral)
  with e sc(2) show ?thesis
    by (simp add: f32_decode_def un d d31 Let_def)
qed

text \<open>Hence the operations of the sketch are exact on them; \<open>is_nat w n\<close> says that \<open>w\<close> is the whole
  number \<open>n\<close>.\<close>

definition is_nat :: "u32 \<Rightarrow> nat \<Rightarrow> bool" where
  "is_nat w n \<longleftrightarrow> n < 16777216 \<and> f32_decode w = Fin (of_nat n)"

lemma is_nat_0 [simp]: "is_nat 0 0"
  by (simp add: is_nat_def f32_decode_def)

lemma is_nat_of_u32: "unat n < 16777216 \<Longrightarrow> is_nat (f32_of_u32 n) (unat n)"
  using f32_round_nat [of "unat n"] f32_decode_encode_nat [of "unat n"]
  by (simp add: is_nat_def f32_of_u32_def)

lemma is_nat_add: "is_nat a m \<Longrightarrow> is_nat b n \<Longrightarrow> m + n < 16777216 \<Longrightarrow> is_nat (f32_add a b) (m + n)"
  using f32_round_nat [of "m + n"] f32_decode_encode_nat [of "m + n"]
  by (simp add: is_nat_def f32_add_def)

lemma is_nat_of_fp: "n < 16777216 \<Longrightarrow> is_nat (f32_of_fp (Fin (of_nat n))) n"
  using f32_round_nat [of n] f32_decode_encode_nat [of n]
  by (simp add: is_nat_def f32_of_fp_def)

lemma u32_of_is_nat: "is_nat a m \<Longrightarrow> u32_of_f32 a = Some (of_nat m)"
proof -
  assume a: "is_nat a m"
  then have "(of_nat m :: rat) < of_nat (2 ^ 32)" by (simp only: of_nat_less_iff is_nat_def) simp
  with a show ?thesis by (simp add: is_nat_def u32_of_f32_def)
qed

lemma less_is_nat: "is_nat a m \<Longrightarrow> is_nat b n \<Longrightarrow> f32_less a b = (m < n)"
  by (simp add: is_nat_def f32_less_def)

end
