(* ===== verification/Logger_State.thy ===== *)
theory Logger_State
  imports Eeprom Float32 "HOL-Library.Monad_Syntax"
begin

text \<open>
  The data logger's state (the globals of \<open>src/esplog.ino\<close>) and its storage operations of
  \<open>src/functions.ino\<close>: the EEPROM address of a day, storing a day and a setting, deleting the
  EEPROM. An access outside a C array and a null access are \<open>None\<close>. \<open>dtostrf\<close>, the flash driver
  and the contents of uninitialised variables are parameters. The debug macros compile to nothing
  (\<open>DEBUG\<close> is 0) and \<open>delay\<close> changes no state.
\<close>

section \<open>Globals\<close>

record valueStore =
  val :: u32
  printValue :: string
  realName :: string
  unitName :: string

record Date =
  date_day :: nat
  date_month :: nat
  date_year :: int

record 'f logger =
  ee :: eeprom
  flash :: 'f
  counter :: u32
  fuenfMinutenZaehler :: "u32 list"
  tagesCounter :: "u32 list list"
  impulseProKwh :: u32
  compensation :: u32
  generatorLeistung :: u32
  offset :: u32
  interval :: u32
  ausgabe :: "valueStore list"
  yesterday :: Date
  today :: Date
  sommerzeit :: bool
  unixtime :: u32
  fhemHost :: "u8 list"
  fhemPort :: u32

record 'f board =
  spi :: "'f spi_flash"
  dtostrf :: "fp \<Rightarrow> nat \<Rightarrow> nat \<Rightarrow> string"

definition anzahlTage :: nat where "anzahlTage = 30"
definition anzahlMonate :: nat where "anzahlMonate = 11"
definition lenStore :: nat where "lenStore = 11"

definition adresseEepromZK :: nat where "adresseEepromZK = 1488"
definition adresseEepromSM :: nat where "adresseEepromSM = 1492"
definition adresseEepromCO :: nat where "adresseEepromCO = 1496"
definition adresseEepromGL :: nat where "adresseEepromGL = 1500"
definition adresseEepromFhemHost :: nat where "adresseEepromFhemHost = 1504"
definition adresseEepromFhemPort :: nat where "adresseEepromFhemPort = 1512"
definition adresseEepromOF :: nat where "adresseEepromOF = 1514"

lemmas logger_const_defs =
  anzahlTage_def anzahlMonate_def lenStore_def adresseEepromZK_def adresseEepromSM_def
  adresseEepromCO_def adresseEepromGL_def adresseEepromFhemHost_def adresseEepromFhemPort_def
  adresseEepromOF_def

text \<open>The sizes the declarations give the arrays.\<close>

definition logger_wf :: "'f logger \<Rightarrow> bool" where
  "logger_wf s \<longleftrightarrow> length (fuenfMinutenZaehler s) = 288
     \<and> length (tagesCounter s) = anzahlMonate + 1
     \<and> (\<forall>r \<in> set (tagesCounter s). length r = anzahlTage + 1)
     \<and> length (ausgabe s) = lenStore \<and> length (fhemHost s) = 4 \<and> eeprom_wf (ee s)"

definition tc_get :: "'f logger \<Rightarrow> nat \<Rightarrow> nat \<Rightarrow> u32 option" where
  "tc_get s m d = Option.bind (arr_get (tagesCounter s) m) (\<lambda>r. arr_get r d)"

definition tc_set :: "'f logger \<Rightarrow> nat \<Rightarrow> nat \<Rightarrow> u32 \<Rightarrow> 'f logger option" where
  "tc_set s m d v = do {
     r \<leftarrow> arr_get (tagesCounter s) m;
     r \<leftarrow> arr_set r d v;
     ms \<leftarrow> arr_set (tagesCounter s) m r;
     Some (s\<lparr>tagesCounter := ms\<rparr>) }"

section \<open>Storage operations\<close>

definition eeAddress :: "nat \<Rightarrow> nat \<Rightarrow> int" where
  "eeAddress j i = ((int i + 1) + (int j * 31) - 1) * 4"

definition putEeprom :: "'f board \<Rightarrow> u32 \<Rightarrow> nat \<Rightarrow> nat \<Rightarrow> 'f logger \<Rightarrow> 'f logger option" where
  "putEeprom B tmp nowMonth nowDay s = do {
     bs \<leftarrow> eeprom_get (eeAddress nowMonth nowDay) (le32 tmp) (ee s);
     v \<leftarrow> tc_get s nowMonth nowDay;
     if of_le32 bs \<noteq> v then do {
       e \<leftarrow> eeprom_put (eeAddress nowMonth nowDay) (le32 v) (ee s);
       (case eeprom_commit (spi B) e (flash s) of (_, e, f) \<Rightarrow> Some (s\<lparr>ee := e, flash := f\<rparr>))
     } else Some s }"

definition putEepromValue :: "'f board \<Rightarrow> nat \<Rightarrow> u32 \<Rightarrow> 'f logger \<Rightarrow> 'f logger option" where
  "putEepromValue B address fval s = do {
     e \<leftarrow> eeprom_put (int address) (le32 fval) (ee s);
     (case eeprom_commit (spi B) e (flash s) of (_, e, f) \<Rightarrow> Some (s\<lparr>ee := e, flash := f\<rparr>)) }"

text \<open>\<open>for (j = 0; j < sizeof(tagesCounter); j++) EEPROM.put(j,0);\<close> with an \<open>int\<close> zero.\<close>

definition sizeof_tagesCounter :: nat where
  "sizeof_tagesCounter = (anzahlMonate + 1) * (anzahlTage + 1) * 4"

fun deleteEEPROM_loop :: "nat list \<Rightarrow> eeprom \<Rightarrow> eeprom option" where
  "deleteEEPROM_loop [] e = Some e"
| "deleteEEPROM_loop (j # js) e = Option.bind (eeprom_put (int j) (le32 0) e) (deleteEEPROM_loop js)"

definition deleteEEPROM :: "'f board \<Rightarrow> 'f logger \<Rightarrow> 'f logger option" where
  "deleteEEPROM B s = do {
     e \<leftarrow> deleteEEPROM_loop [0..<sizeof_tagesCounter] (ee s);
     (case eeprom_commit (spi B) e (flash s) of (_, e, f) \<Rightarrow>
        case eeprom_end (spi B) e f of (e, f) \<Rightarrow> Some (s\<lparr>ee := e, flash := f\<rparr>)) }"

text \<open>\<open>memset\<close> of the day table, and the three yields with their printed form.\<close>

definition show_value :: "'f board \<Rightarrow> nat \<Rightarrow> fp \<Rightarrow> nat \<Rightarrow> 'f logger \<Rightarrow> 'f logger option" where
  "show_value B i x prec s = do {
     a \<leftarrow> arr_get (ausgabe s) i;
     as \<leftarrow> arr_set (ausgabe s) i (a\<lparr>printValue := dtostrf B x 2 prec\<rparr>);
     Some (s\<lparr>ausgabe := as\<rparr>) }"

definition set_value :: "nat \<Rightarrow> u32 \<Rightarrow> 'f logger \<Rightarrow> 'f logger option" where
  "set_value i v s = do {
     a \<leftarrow> arr_get (ausgabe s) i;
     as \<leftarrow> arr_set (ausgabe s) i (a\<lparr>val := v\<rparr>);
     Some (s\<lparr>ausgabe := as\<rparr>) }"

definition get_value :: "'f logger \<Rightarrow> nat \<Rightarrow> u32 option" where
  "get_value s i = map_option val (arr_get (ausgabe s) i)"

definition deleteRAM :: "'f board \<Rightarrow> 'f logger \<Rightarrow> 'f logger option" where
  "deleteRAM B s = do {
     s \<leftarrow> Some (s\<lparr>tagesCounter := map (map (\<lambda>_. 0)) (tagesCounter s)\<rparr>);
     s \<leftarrow> set_value 0 0 s;
     s \<leftarrow> show_value B 0 (f32_decode 0) 2 s;
     s \<leftarrow> set_value 1 0 s;
     s \<leftarrow> show_value B 1 (f32_decode 0) 2 s;
     s \<leftarrow> set_value 2 0 s;
     s \<leftarrow> show_value B 2 (f32_decode 0) 2 s;
     Some (s\<lparr>counter := 0\<rparr>) }"

section \<open>Addresses\<close>

lemma eeAddress_nat: "eeAddress m d = int ((m * 31 + d) * 4)"
  by (simp add: eeAddress_def algebra_simps)

lemma eeAddress_range:
  "m \<le> anzahlMonate \<Longrightarrow> d \<le> anzahlTage \<Longrightarrow> (m * 31 + d) * 4 + 4 \<le> 1488"
  by (simp add: logger_const_defs)

lemma eeAddress_disjoint_nat:
  assumes "d \<le> anzahlTage" "d' \<le> anzahlTage" "(m, d) \<noteq> (m', d')"
  shows "(m * 31 + d) * 4 + 4 \<le> (m' * 31 + d') * 4 \<or> (m' * 31 + d') * 4 + 4 \<le> (m * 31 + d) * (4 :: nat)"
proof -
  have "m * 31 + d \<noteq> m' * 31 + d'"
    using mixed_radix_unique [of m 31 d m' d'] assms by (auto simp: logger_const_defs)
  then show ?thesis by (rule words_disjoint)
qed

section \<open>The day table in the EEPROM\<close>

lemma tc_get_in:
  assumes "logger_wf s" "m \<le> anzahlMonate" "d \<le> anzahlTage"
  shows "tc_get s m d = Some (tagesCounter s ! m ! d)"
  using assms by (simp add: tc_get_def logger_wf_def logger_const_defs)

lemma tc_set_in:
  assumes "logger_wf s" "m \<le> anzahlMonate" "d \<le> anzahlTage"
  shows "tc_set s m d v = Some (s\<lparr>tagesCounter := (tagesCounter s)[m := (tagesCounter s ! m)[d := v]]\<rparr>)"
  using assms by (simp add: tc_set_def logger_wf_def logger_const_defs)

lemma put_get_u32:
  "eeprom_wf e \<Longrightarrow> eeprom_put (int a) (le32 v) e = Some (eeprom_put_u32 a v e)"
  "eeprom_wf e \<Longrightarrow> a + 4 \<le> bufsize e \<Longrightarrow>
     \<exists>bs. eeprom_get (int a) t e = Some bs \<and> (length t = 4 \<longrightarrow> of_le32 bs = eeprom_get_u32 a e)"
  by (auto simp: eeprom_put_u32_def eeprom_put_def eeprom_get_u32_def eeprom_get_def eeprom_wf_def
      split: option.splits)

lemma commit_word_store:
  assumes "eeprom_commit F e f = (r, e', f')" and "eeprom_wf e"
  shows "eeprom_wf e'" "bufsize e' = bufsize e" "eeprom_get_u32 a e' = eeprom_get_u32 a e"
    "data e' = data e" "sector e' = sector e"
  using assms
  by (auto simp: eeprom_commit_def eeprom_wf_def eeprom_get_u32_def eeprom_get_def
      split: if_splits option.splits prod.splits bool.splits)

text \<open>
  Storing a day: the EEPROM word of that day becomes the RAM counter, every word that does not
  overlap it keeps its value, the rest of the logger does not change.
\<close>

lemma putEeprom_spec:
  assumes wf: "logger_wf s" and b: "1488 \<le> bufsize (ee s)"
    and m: "m \<le> anzahlMonate" and d: "d \<le> anzahlTage"
  shows "\<exists>e f. putEeprom B tmp m d s = Some (s\<lparr>ee := e, flash := f\<rparr>) \<and> eeprom_wf e
     \<and> bufsize e = bufsize (ee s) \<and> sector e = sector (ee s)
     \<and> eeprom_get_u32 ((m * 31 + d) * 4) e = tagesCounter s ! m ! d
     \<and> (\<forall>a. a + 4 \<le> bufsize e \<longrightarrow> a + 4 \<le> (m * 31 + d) * 4 \<or> (m * 31 + d) * 4 + 4 \<le> a
           \<longrightarrow> eeprom_get_u32 a e = eeprom_get_u32 a (ee s))"
proof -
  let ?a = "(m * 31 + d) * 4" and ?v = "tagesCounter s ! m ! d"
  have ew: "eeprom_wf (ee s)" using wf by (simp add: logger_wf_def)
  have a: "?a + 4 \<le> bufsize (ee s)" using eeAddress_range [OF m d] b by simp
  obtain bs where bs: "eeprom_get (int ?a) (le32 tmp) (ee s) = Some bs"
    "of_le32 bs = eeprom_get_u32 ?a (ee s)"
    using put_get_u32(2) [OF ew a, of "le32 tmp"] by auto
  show ?thesis
  proof (cases "of_le32 bs = ?v")
    case True
    then have "putEeprom B tmp m d s = Some (s\<lparr>ee := ee s, flash := flash s\<rparr>)"
      using bs tc_get_in [OF wf m d] by (simp add: putEeprom_def eeAddress_nat)
    with True bs ew show ?thesis by (intro exI [of _ "ee s"] exI [of _ "flash s"]) auto
  next
    case False
    let ?e = "eeprom_put_u32 ?a ?v (ee s)"
    obtain r e f where c: "eeprom_commit (spi B) ?e (flash s) = (r, e, f)" by (metis prod_cases3)
    have "putEeprom B tmp m d s = Some (s\<lparr>ee := e, flash := f\<rparr>)"
      using bs False c tc_get_in [OF wf m d] put_get_u32(1) [OF ew, of ?a ?v]
      by (simp add: putEeprom_def eeAddress_nat)
    moreover have "sector ?e = sector (ee s)"
      by (simp add: eeprom_put_u32_def eeprom_put_def split: option.splits)
    moreover note commit_word_store [OF c ee.ok_put [OF ew a]]
      ee.get_put_same [OF ew a] ee.get_put_other [OF ew a] ee.capacity_put [OF ew a]
    ultimately show ?thesis by (intro exI [of _ e] exI [of _ f]) auto
  qed
qed

section \<open>Deleting the EEPROM\<close>

text \<open>The loop clears the bytes of the table and the three bytes after it.\<close>

lemma deleteEEPROM_loop_append:
  "deleteEEPROM_loop (xs @ ys) e = Option.bind (deleteEEPROM_loop xs e) (deleteEEPROM_loop ys)"
  by (induction xs arbitrary: e) (auto split: bind_split)

lemma blit_zeros:
  assumes "n + 4 \<le> length d"
  shows "blit n (replicate 4 0) (replicate (n + 3) 0 @ drop (n + 3) d)
         = replicate (n + 4) 0 @ drop (n + 4) d"
proof -
  have "take n (replicate (n + 3) 0 @ drop (n + 3) d) = replicate n 0" by simp
  moreover have "drop (n + 4) (replicate (n + 3) 0 @ drop (n + 3) d) = drop (n + 4) d"
    by (simp add: add.commute)
  ultimately show ?thesis by (simp only: blit_def length_replicate replicate_add append_assoc)
qed

lemma le32_0: "le32 0 = replicate 4 0"
proof -
  have "replicate 4 x = [x, x, x, x]" for x :: u8 by (simp add: replicate_app_Cons_same numeral_nat)
  then show ?thesis by (simp add: le32_def)
qed

lemma deleteEEPROM_loop_upto:
  assumes "data e = Some d" "length d = bufsize e" "n + 3 \<le> bufsize e" "0 < n"
  shows "deleteEEPROM_loop [0..<n] e
    = Some (e\<lparr>data := Some (replicate (n + 3) 0 @ drop (n + 3) d), dirty := True\<rparr>)"
  using assms(3,4)
proof (induction n)
  case 0
  then show ?case by simp
next
  case (Suc n)
  show ?case
  proof (cases "n = 0")
    case True
    with assms Suc.prems show ?thesis
      by (simp add: eeprom_put_def blit_def le32_0)
  next
    case False
    let ?d = "replicate (n + 3) 0 @ drop (n + 3) d"
    have n: "n + 4 \<le> length d" "0 < n" "n + 3 \<le> bufsize e" using Suc.prems False assms(2) by auto
    have "eeprom_put (int n) (le32 0) (e\<lparr>data := Some ?d, dirty := True\<rparr>)
        = Some (e\<lparr>data := Some (blit n (le32 0) ?d), dirty := True\<rparr>)"
      using n(1) assms(2) by (simp add: eeprom_put_def del: replicate.simps)
    then have "eeprom_put (int n) (le32 0) (e\<lparr>data := Some ?d, dirty := True\<rparr>)
        = Some (e\<lparr>data := Some (replicate (n + 4) 0 @ drop (n + 4) d), dirty := True\<rparr>)"
      by (simp only: le32_0 blit_zeros [OF n(1)])
    moreover have "Suc n + 3 = n + 4" by simp
    ultimately show ?thesis
      unfolding upt_Suc_append [OF le0] deleteEEPROM_loop_append Suc.IH [OF n(3,2)]
      by (simp only: bind.bind_lunit deleteEEPROM_loop.simps)
  qed
qed

lemma sizeof_tagesCounter: "sizeof_tagesCounter = 1488"
  by (simp add: sizeof_tagesCounter_def logger_const_defs)

lemma deleteEEPROM_loop_closed: "bufsize e = 0 \<Longrightarrow> deleteEEPROM_loop js e = Some e"
  by (induction js) (auto simp: eeprom_put_def)

text \<open>Afterwards the buffer is gone, also when it was gone before.\<close>

lemma deleteEEPROM_ends:
  assumes "logger_wf s" and "bufsize (ee s) = 0 \<or> 1520 \<le> bufsize (ee s)"
  obtains e f where "deleteEEPROM B s = Some (s\<lparr>ee := e, flash := f\<rparr>)" "bufsize e = 0" "eeprom_wf e"
proof (cases "bufsize (ee s) = 0")
  case True
  then have "deleteEEPROM B s = Some (s\<lparr>ee := ee s, flash := flash s\<rparr>)"
    by (simp add: deleteEEPROM_def deleteEEPROM_loop_closed eeprom_commit_def eeprom_end_def)
  with True assms(1) show ?thesis by (intro that [of "flash s" "ee s"]) (simp_all add: logger_wf_def)
next
  case False
  then obtain d where d: "data (ee s) = Some d" "length d = bufsize (ee s)" "0 < bufsize (ee s)"
    using assms by (auto simp: logger_wf_def elim: eeprom_wf_cases)
  let ?e = "ee s\<lparr>data := Some (replicate 1491 0 @ drop 1491 d), dirty := True\<rparr>"
  have lp: "deleteEEPROM_loop [0..<sizeof_tagesCounter] (ee s) = Some ?e"
    unfolding sizeof_tagesCounter using deleteEEPROM_loop_upto [OF d(1,2), of 1488] assms(2) False by simp
  have we: "eeprom_wf ?e" using d assms(2) False by (simp add: eeprom_wf_def)
  obtain r1 e1 f1 where c1: "eeprom_commit (spi B) ?e (flash s) = (r1, e1, f1)" by (metis prod_cases3)
  obtain r2 e2 f2 where c2: "eeprom_commit (spi B) e1 f1 = (r2, e2, f2)" by (metis prod_cases3)
  have "bufsize e1 \<noteq> 0" using commit_word_store(2) [OF c1 we] d(3) by simp
  then have en: "eeprom_end (spi B) e1 f1 = (e2\<lparr>data := None, bufsize := 0\<rparr>, f2)"
    using c2 by (simp add: eeprom_end_def)
  have "eeprom_wf e2" using commit_word_store(1) [OF c2] commit_word_store(1) [OF c1 we] by blast
  with en c1 lp show ?thesis
    by (intro that [of f2 "e2\<lparr>data := None, bufsize := 0\<rparr>"]) (simp_all add: deleteEEPROM_def eeprom_wf_def)
qed

lemma putEeprom_closed:
  assumes "logger_wf s" and "bufsize (ee s) = 0" and "m \<le> anzahlMonate" and "d \<le> anzahlTage"
  shows "putEeprom B tmp m d s = Some s"
  using assms tc_get_in [OF assms(1,3,4)]
  by (simp add: putEeprom_def eeprom_get_def eeprom_put_def eeprom_commit_def)

lemma putEepromValue_closed: "bufsize (ee s) = 0 \<Longrightarrow> putEepromValue B a v s = Some s"
  by (simp add: putEepromValue_def eeprom_put_def eeprom_commit_def)

section \<open>Properties\<close>

text \<open>The EEPROM words of the 372 days are pairwise disjoint and fill the first 1488 bytes, below
  the settings.\<close>

theorem day_words_disjoint:
  assumes "m \<le> anzahlMonate" and "d \<le> anzahlTage" and "m' \<le> anzahlMonate" and "d' \<le> anzahlTage"
  shows "0 \<le> eeAddress m d \<and> eeAddress m d + 4 \<le> int adresseEepromZK
     \<and> (eeAddress m d = eeAddress m' d' \<longleftrightarrow> m = m' \<and> d = d')
     \<and> ((m, d) \<noteq> (m', d') \<longrightarrow> eeAddress m d + 4 \<le> eeAddress m' d' \<or> eeAddress m' d' + 4 \<le> eeAddress m d)"
proof -
  have "(m * 31 + d) * 4 + 4 \<le> 1488" by (rule eeAddress_range [OF assms(1,2)])
  moreover have "m = m' \<and> d = d'" if "m * 31 + d = m' * 31 + d'"
    by (rule mixed_radix_unique [OF that]) (use assms(2,4) in \<open>simp_all add: logger_const_defs\<close>)
  moreover have "(m, d) \<noteq> (m', d') \<Longrightarrow> (m * 31 + d) * 4 + 4 \<le> (m' * 31 + d') * 4
      \<or> (m' * 31 + d') * 4 + 4 \<le> (m * 31 + d) * 4"
    by (rule eeAddress_disjoint_nat [OF assms(2,4)])
  ultimately show ?thesis
    unfolding eeAddress_nat adresseEepromZK_def by (auto simp del: of_nat_mult of_nat_add)
qed

lemma day_words_disjoint_witness: "eeAddress 0 30 + 4 \<le> eeAddress 1 0 \<or> eeAddress 1 0 + 4 \<le> eeAddress 0 30"
  using day_words_disjoint [of 0 30 1 0] by (simp add: logger_const_defs)

text \<open>C9: deleting the day table also clears the first three bytes of the meter constant that
  follows it, the loop's last 4-byte stores reaching past the table, and then releases the buffer:
  from there on no day and no setting is stored, neither in the buffer nor in the flash.\<close>

theorem deleteEEPROM_clears_too_much:
  assumes "logger_wf s" and "1520 \<le> bufsize (ee s)"
  shows "\<exists>s' d. deleteEEPROM B s = Some s' \<and> data (ee s) = Some d
     \<and> deleteEEPROM_loop [0..<sizeof_tagesCounter] (ee s)
       = Some (ee s\<lparr>data := Some (replicate (adresseEepromZK + 3) 0 @ drop (adresseEepromZK + 3) d),
                    dirty := True\<rparr>)
     \<and> bufsize (ee s') = 0
     \<and> putEepromValue B a v s' = Some s'
     \<and> (m \<le> anzahlMonate \<longrightarrow> day \<le> anzahlTage \<longrightarrow> putEeprom B tmp m day s' = Some s')"
proof -
  obtain d where d: "data (ee s) = Some d" "length d = bufsize (ee s)"
    using assms by (auto simp: logger_wf_def elim: eeprom_wf_cases)
  have lp: "deleteEEPROM_loop [0..<sizeof_tagesCounter] (ee s)
      = Some (ee s\<lparr>data := Some (replicate 1491 0 @ drop 1491 d), dirty := True\<rparr>)"
    unfolding sizeof_tagesCounter using deleteEEPROM_loop_upto [OF d, of 1488] assms(2) by simp
  obtain e f where ef: "deleteEEPROM B s = Some (s\<lparr>ee := e, flash := f\<rparr>)" "bufsize e = 0" "eeprom_wf e"
    by (rule deleteEEPROM_ends [OF assms(1) disjI2 [OF assms(2)], of B])
  let ?s' = "s\<lparr>ee := e, flash := f\<rparr>"
  have "logger_wf ?s'" "bufsize (ee ?s') = 0" using assms(1) ef by (simp_all add: logger_wf_def)
  note stuck = putEeprom_closed [OF this, of m day B tmp] putEepromValue_closed [OF this(2), of B a v]
  show ?thesis
    by (intro exI [of _ ?s'] exI [of _ d]) (use ef d lp stuck in \<open>simp add: adresseEepromZK_def\<close>)
qed

text \<open>A logger for the witnesses: sector 1019 begun with 1520 bytes of a filled flash.\<close>

definition demo_board :: "(nat \<Rightarrow> u8) board" where
  "demo_board = \<lparr>spi = nor_flash, dtostrf = (\<lambda>_ _ _. ''0'')\<rparr>"

definition demo_logger :: "(nat \<Rightarrow> u8) logger" where
  "demo_logger = \<lparr>
     ee = \<lparr>sector = 1019, data = Some (replicate 1520 255), bufsize = 1520, dirty = False\<rparr>,
     flash = (\<lambda>_. 255), counter = 10, fuenfMinutenZaehler = replicate 288 0,
     tagesCounter = replicate 12 (replicate 31 0), impulseProKwh = 1000, compensation = 0,
     generatorLeistung = 1, offset = 0, interval = 2000,
     ausgabe = replicate 11 \<lparr>val = 0, printValue = ''0'', realName = [], unitName = []\<rparr>,
     yesterday = \<lparr>date_day = 0, date_month = 0, date_year = 0\<rparr>,
     today = \<lparr>date_day = 14, date_month = 6, date_year = 2018\<rparr>,
     sommerzeit = False, unixtime = 0, fhemHost = [0, 0, 0, 0], fhemPort = 8383\<rparr>"

lemma demo_logger_wf: "logger_wf demo_logger"
  by (simp add: logger_wf_def demo_logger_def logger_const_defs eeprom_wf_def)

lemma deleteEEPROM_clears_too_much_witness:
  "\<exists>s'. deleteEEPROM demo_board demo_logger = Some s' \<and> putEeprom demo_board 0 6 14 s' = Some s'"
  using deleteEEPROM_clears_too_much [OF demo_logger_wf, of demo_board 0 0 6 14 0]
  by (auto simp: demo_logger_def logger_const_defs)

text \<open>Two settings overlap: saving the FHEM port as a float writes its upper two bytes over the
  lower two bytes of the meter offset.\<close>

theorem port_overwrites_offset:
  assumes "logger_wf s" and "1520 \<le> bufsize (ee s)"
    and "putEepromValue B adresseEepromFhemPort v s = Some s'"
  shows "\<exists>bs. eeprom_get (int adresseEepromOF) (le32 w) (ee s') = Some bs \<and> take 2 bs = drop 2 (le32 v)"
proof -
  obtain d where d: "data (ee s) = Some d" "length d = bufsize (ee s)" "0 < bufsize (ee s)"
    using assms(1,2) by (auto simp: logger_wf_def elim: eeprom_wf_cases)
  let ?e = "ee s\<lparr>data := Some (blit 1512 (le32 v) d), dirty := True\<rparr>"
  have pe: "eeprom_put (int adresseEepromFhemPort) (le32 v) (ee s) = Some ?e"
    using d assms(2) by (simp add: eeprom_put_def adresseEepromFhemPort_def)
  have we: "eeprom_wf ?e" using d assms(2) by (simp add: eeprom_wf_def length_blit)
  obtain r e f where c: "eeprom_commit (spi B) ?e (flash s) = (r, e, f)" by (metis prod_cases3)
  have s': "ee s' = e" using assms(3) pe c by (auto simp: putEepromValue_def)
  note k = commit_word_store [OF c we]
  have lb: "length (blit 1512 (le32 v) d) = bufsize (ee s)" using d assms(2) by (simp add: length_blit)
  have "bytes_at 1514 2 (blit 1512 (le32 v) d) = drop 2 (le32 v)"
    using d(2) assms(2) by (simp add: blit_def bytes_at_def)
  moreover have "take 2 (bytes_at 1514 4 (blit 1512 (le32 v) d)) = bytes_at 1514 2 (blit 1512 (le32 v) d)"
    by (simp add: bytes_at_def)
  ultimately show ?thesis
    using k(2,4) s' assms(2) by (simp add: eeprom_get_def adresseEepromOF_def)
qed

lemma port_overwrites_offset_witness:
  "\<exists>s' bs. putEepromValue demo_board adresseEepromFhemPort 1174595584 demo_logger = Some s'
     \<and> eeprom_get (int adresseEepromOF) (le32 0) (ee s') = Some bs \<and> take 2 bs = drop 2 (le32 1174595584)"
proof -
  have "\<exists>s'. putEepromValue demo_board adresseEepromFhemPort 1174595584 demo_logger = Some s'"
    by (simp add: putEepromValue_def eeprom_put_def demo_logger_def adresseEepromFhemPort_def
        split: prod.split)
  then obtain s' where s': "putEepromValue demo_board adresseEepromFhemPort 1174595584 demo_logger = Some s'"
    by blast
  have "1520 \<le> bufsize (ee demo_logger)" by (simp add: demo_logger_def)
  from port_overwrites_offset [OF demo_logger_wf this s', of 0] s' show ?thesis by blast
qed

end
