(* ===== verification/Logger_Meter.thy ===== *)
theory Logger_Meter
  imports Logger_State
begin

text \<open>
  The five-minute routine of \<open>src/functions.ino\<close> (lines 3 to 51): it turns the pulses counted since
  the last call into watt hours, adds them to the day, month and year, records the power of the
  interval and stores the day. \<open>hour()\<close> and \<open>minute()\<close> are the two readings \<open>hh\<close> and \<open>mm\<close> of the
  clock. The lemmas follow the routine's two halves; the exact accounting holds as long as the sums
  stay below 2^24, where a \<open>float\<close> still represents every whole number.
\<close>

section \<open>The routine\<close>

text \<open>\<open>ausgabe[i].value += tmp; dtostrf((ausgabe[i].value/1000), 2, 2, ausgabe[i].printValue);\<close>\<close>

definition add_value :: "'f board \<Rightarrow> nat \<Rightarrow> u32 \<Rightarrow> 'f logger \<Rightarrow> 'f logger option" where
  "add_value B i tmp s = do {
     v \<leftarrow> get_value s i;
     s \<leftarrow> set_value i (f32_add v tmp) s;
     v \<leftarrow> get_value s i;
     show_value B i (f32_decode (f32_div v (f32_of_u32 1000))) 2 s }"

definition meter_add :: "'f board \<Rightarrow> nat \<Rightarrow> nat \<Rightarrow> 'f logger \<Rightarrow> 'f logger option" where
  "meter_add B nowMonth nowDay s = do {
     let tmp = f32_of_u32 (counter s * 1000 div impulseProKwh s);
     old \<leftarrow> tc_get s nowMonth nowDay;
     new \<leftarrow> u32_of_f32 (f32_add (f32_of_u32 old) tmp);
     s \<leftarrow> tc_set s nowMonth nowDay new;
     s \<leftarrow> add_value B 0 tmp s;
     s \<leftarrow> add_value B 1 tmp s;
     s \<leftarrow> add_value B 2 tmp s;
     y \<leftarrow> get_value s 2;
     s \<leftarrow> set_value 3 (f32_of_fp (fp_div f64_round
            (f32_decode (f32_div y (f32_of_u32 (generatorLeistung s)))) (Fin 1))) s;
     v \<leftarrow> get_value s 3;
     s \<leftarrow> show_value B 3 (f32_decode v) 2 s;
     add_value B 10 tmp s }"

text \<open>\<open>counter * 3600.0/300.0\<close>, computed in double precision and stored in a \<open>float\<close>.\<close>

definition interval_power :: "u32 \<Rightarrow> u32" where
  "interval_power c = f32_of_fp (fp_div f64_round
     (fp_mul f64_round (Fin (of_nat (unat c))) (Fin 3600)) (Fin 300))"

definition meter_power :: "'f board \<Rightarrow> nat \<Rightarrow> nat \<Rightarrow> 'f logger \<Rightarrow> 'f logger option" where
  "meter_power B hh mm s = do {
     let p = interval_power (counter s);
     s \<leftarrow> set_value 6 p s;
     s \<leftarrow> show_value B 6 (f32_decode p) 0 s;
     w \<leftarrow> u32_of_f32 p;
     fs \<leftarrow> arr_set (fuenfMinutenZaehler s) (hh * 12 + mm div 5) w;
     s \<leftarrow> Some (s\<lparr>fuenfMinutenZaehler := fs\<rparr>);
     mx \<leftarrow> get_value s 5;
     if f32_less mx p then do {
       s \<leftarrow> set_value 5 p s;
       show_value B 5 (f32_decode p) 0 s
     } else Some s }"

definition FuenfMinutenTimer ::
    "'f board \<Rightarrow> u32 \<Rightarrow> nat \<Rightarrow> nat \<Rightarrow> nat \<Rightarrow> nat \<Rightarrow> 'f logger \<Rightarrow> 'f logger option" where
  "FuenfMinutenTimer B stack hh mm nowMonth nowDay s = do {
     s \<leftarrow> (if 0 < impulseProKwh s then meter_add B nowMonth nowDay s else Some s);
     s \<leftarrow> meter_power B hh mm s;
     s \<leftarrow> Some (s\<lparr>counter := 0\<rparr>);
     putEeprom B stack (date_month (today s)) (date_day (today s)) s }"

section \<open>Updates of the output values\<close>

text \<open>\<open>vals s\<close> are the unformatted output values; the formatted ones follow them.\<close>

definition vals :: "'f logger \<Rightarrow> u32 list" where
  "vals s = map val (ausgabe s)"

text \<open>Two logger states that differ in the output values alone.\<close>

definition same_but_ausgabe :: "'f logger \<Rightarrow> 'f logger \<Rightarrow> bool" where
  "same_but_ausgabe s s' \<longleftrightarrow> s' = s\<lparr>ausgabe := ausgabe s'\<rparr>"

lemma same_but_ausgabe_fields:
  "same_but_ausgabe s s' \<Longrightarrow> counter s' = counter s \<and> fuenfMinutenZaehler s' = fuenfMinutenZaehler s
     \<and> tagesCounter s' = tagesCounter s \<and> impulseProKwh s' = impulseProKwh s
     \<and> generatorLeistung s' = generatorLeistung s \<and> ee s' = ee s \<and> flash s' = flash s
     \<and> today s' = today s \<and> yesterday s' = yesterday s \<and> fhemHost s' = fhemHost s"
  unfolding same_but_ausgabe_def by (cases s; cases s') simp

lemma same_but_ausgabe_refl [simp]: "same_but_ausgabe s s"
  by (simp add: same_but_ausgabe_def)

lemma same_but_ausgabe_trans:
  "same_but_ausgabe s t \<Longrightarrow> same_but_ausgabe t u \<Longrightarrow> same_but_ausgabe s u"
  unfolding same_but_ausgabe_def by (cases s; cases t; cases u) simp

lemma get_value_in: "i < length (vals s) \<Longrightarrow> get_value s i = Some (vals s ! i)"
  by (simp add: get_value_def vals_def)

lemma set_value_ok:
  assumes "i < length (vals s)"
  shows "\<exists>s'. set_value i v s = Some s' \<and> vals s' = (vals s)[i := v] \<and> same_but_ausgabe s s'"
  using assms by (auto simp: set_value_def vals_def map_update same_but_ausgabe_def)

lemma show_value_ok:
  assumes "i < length (vals s)"
  shows "\<exists>s'. show_value B i x p s = Some s' \<and> vals s' = vals s \<and> same_but_ausgabe s s'"
proof -
  have "(map val (ausgabe s))[i := val (ausgabe s ! i)] = map val (ausgabe s)"
    using assms by (simp add: vals_def list_update_same_conv)
  then show ?thesis
    using assms by (auto simp: show_value_def vals_def map_update same_but_ausgabe_def)
qed

lemma add_value_ok:
  assumes "i < length (vals s)"
  shows "\<exists>s'. add_value B i t s = Some s' \<and> vals s' = (vals s)[i := f32_add (vals s ! i) t]
           \<and> same_but_ausgabe s s'"
proof -
  obtain s1 where s1: "set_value i (f32_add (vals s ! i) t) s = Some s1"
    "vals s1 = (vals s)[i := f32_add (vals s ! i) t]" "same_but_ausgabe s s1"
    using set_value_ok [OF assms] by blast
  from s1(2) assms have "i < length (vals s1)" by simp
  from show_value_ok [OF this, of B "f32_decode (f32_div (vals s1 ! i) (f32_of_u32 1000))" 2]
  obtain s2 where "show_value B i (f32_decode (f32_div (vals s1 ! i) (f32_of_u32 1000))) 2 s1 = Some s2"
    "vals s2 = vals s1" "same_but_ausgabe s1 s2" by blast
  with s1 assms \<open>i < length (vals s1)\<close> show ?thesis
    by (auto simp: add_value_def get_value_in dest: same_but_ausgabe_trans)
qed

lemma set_valueE:
  assumes "i < length (vals s)"
  obtains s' where "set_value i v s = Some s'" "same_but_ausgabe s s'" "vals s' = (vals s)[i := v]"
  using set_value_ok [OF assms] by blast

lemma show_valueE:
  assumes "i < length (vals s)"
  obtains s' where "show_value B i x p s = Some s'" "same_but_ausgabe s s'" "vals s' = vals s"
  using show_value_ok [OF assms] by blast

lemma add_valueE:
  assumes "i < length (vals s)"
  obtains s' where "add_value B i t s = Some s'" "same_but_ausgabe s s'"
    "vals s' = (vals s)[i := f32_add (vals s ! i) t]"
  using add_value_ok [OF assms] by blast

section \<open>The two halves\<close>

text \<open>The watt hours of an interval, as the routine computes them.\<close>

definition interval_Wh :: "'f logger \<Rightarrow> nat" where
  "interval_Wh s = unat (counter s) * 1000 div unat (impulseProKwh s)"

definition no_overflow :: "'f logger \<Rightarrow> nat \<Rightarrow> nat \<Rightarrow> bool" where
  "no_overflow s m d \<longleftrightarrow> unat (counter s) * 1000 < 2 ^ 32 \<and> unat (counter s) * 12 < 2 ^ 24
     \<and> unat (tagesCounter s ! m ! d) + interval_Wh s < 2 ^ 24"

lemma interval_word:
  assumes "unat (counter s) * 1000 < 2 ^ 32"
  shows "unat (counter s * 1000 div impulseProKwh s) = interval_Wh s"
proof -
  have "unat (counter s * 1000) = unat (counter s) * 1000"
    using assms by (simp add: unat_word_ariths)
  then show ?thesis by (simp add: interval_Wh_def unat_div)
qed

lemma tc_update:
  assumes "unat (counter s) * 1000 < 2 ^ 32" "unat old + interval_Wh s < 2 ^ 24"
  shows "u32_of_f32 (f32_add (f32_of_u32 old) (f32_of_u32 (counter s * 1000 div impulseProKwh s)))
         = Some (old + of_nat (interval_Wh s))"
proof -
  note iw = interval_word [OF assms(1)]
  have "is_nat (f32_of_u32 old) (unat old)" using assms by (intro is_nat_of_u32) simp
  moreover have "is_nat (f32_of_u32 (counter s * 1000 div impulseProKwh s)) (interval_Wh s)"
    using is_nat_of_u32 [of "counter s * 1000 div impulseProKwh s"] assms iw by simp
  ultimately have "is_nat (f32_add (f32_of_u32 old) (f32_of_u32 (counter s * 1000 div impulseProKwh s)))
      (unat old + interval_Wh s)"
    by (rule is_nat_add) (use assms in simp)
  from u32_of_is_nat [OF this] show ?thesis by simp
qed

lemma vals_length: "logger_wf s \<Longrightarrow> length (vals s) = 11"
  by (simp add: vals_def logger_wf_def logger_const_defs)

lemma meter_add_ok:
  assumes wf: "logger_wf s" and m: "m \<le> anzahlMonate" and d: "d \<le> anzahlTage"
    and nov: "no_overflow s m d"
  shows "\<exists>s'. meter_add B m d s = Some s'
     \<and> same_but_ausgabe (s\<lparr>tagesCounter := (tagesCounter s)[m := (tagesCounter s ! m)
                [d := tagesCounter s ! m ! d + of_nat (interval_Wh s)]]\<rparr>) s'
     \<and> length (vals s') = 11
     \<and> (\<forall>i \<in> {0, 1, 2, 10}. vals s' ! i = f32_add (vals s ! i) (f32_of_u32 (of_nat (interval_Wh s))))"
proof -
  let ?t = "f32_of_u32 (of_nat (interval_Wh s))" and ?old = "tagesCounter s ! m ! d"
  let ?s0 = "s\<lparr>tagesCounter := (tagesCounter s)[m := (tagesCounter s ! m)
               [d := ?old + of_nat (interval_Wh s)]]\<rparr>"
  have "of_nat (unat (counter s * 1000 div impulseProKwh s)) = (of_nat (interval_Wh s) :: u32)"
    by (rule arg_cong [OF interval_word]) (use nov in \<open>simp add: no_overflow_def\<close>)
  then have W: "counter s * 1000 div impulseProKwh s = of_nat (interval_Wh s)" by simp
  have u: "u32_of_f32 (f32_add (f32_of_u32 ?old) ?t) = Some (?old + of_nat (interval_Wh s))"
    using tc_update [of s ?old] nov unfolding W by (simp add: no_overflow_def)
  have l0: "length (vals ?s0) = 11" and v0: "vals ?s0 = vals s"
    using vals_length [OF wf] by (simp_all add: vals_def)
  obtain s1 where s1: "add_value B 0 ?t ?s0 = Some s1" "same_but_ausgabe ?s0 s1"
      "vals s1 = (vals ?s0)[0 := f32_add (vals ?s0 ! 0) ?t]"
    by (rule add_valueE [of 0 ?s0 B ?t]) (use l0 in auto)
  obtain s2 where s2: "add_value B 1 ?t s1 = Some s2" "same_but_ausgabe s1 s2"
      "vals s2 = (vals s1)[1 := f32_add (vals s1 ! 1) ?t]"
    by (rule add_valueE [of 1 s1 B ?t]) (use l0 s1 in auto)
  obtain s3 where s3: "add_value B 2 ?t s2 = Some s3" "same_but_ausgabe s2 s3"
      "vals s3 = (vals s2)[2 := f32_add (vals s2 ! 2) ?t]"
    by (rule add_valueE [of 2 s2 B ?t]) (use l0 s1 s2 in auto)
  have l3: "length (vals s3) = 11" using l0 s1 s2 s3 by simp
  let ?x = "f32_of_fp (fp_div f64_round
            (f32_decode (f32_div (vals s3 ! 2) (f32_of_u32 (generatorLeistung s3)))) (Fin 1))"
  obtain s4 where s4: "set_value 3 ?x s3 = Some s4" "same_but_ausgabe s3 s4" "vals s4 = (vals s3)[3 := ?x]"
    by (rule set_valueE [of 3 s3 ?x]) (use l3 in auto)
  obtain s5 where s5: "show_value B 3 (f32_decode ?x) 2 s4 = Some s5" "same_but_ausgabe s4 s5"
      "vals s5 = vals s4"
    by (rule show_valueE [of 3 s4 B "f32_decode ?x" 2]) (use l3 s4 in auto)
  obtain s6 where s6: "add_value B 10 ?t s5 = Some s6" "same_but_ausgabe s5 s6"
      "vals s6 = (vals s5)[10 := f32_add (vals s5 ! 10) ?t]"
    by (rule add_valueE [of 10 s5 B ?t]) (use l3 s4 s5 in auto)
  have g2: "get_value s3 2 = Some (vals s3 ! 2)" and g3: "get_value s4 3 = Some ?x"
    using l3 s4(3) by (simp_all add: get_value_in)
  have "meter_add B m d s = Some s6"
    unfolding meter_add_def Let_def W
    by (simp add: tc_get_in [OF wf m d] tc_set_in [OF wf m d] u s1(1) s2(1) s3(1) g2 s4(1) g3 s5(1) s6(1)
        del: One_nat_def)
  moreover have "same_but_ausgabe ?s0 s6"
    using s1(2) s2(2) s3(2) s4(2) s5(2) s6(2) by (blast intro: same_but_ausgabe_trans)
  moreover have "length (vals s6) = 11" using l3 s4 s5 s6 by simp
  moreover have "\<forall>i \<in> {0, 1, 2, 10}. vals s6 ! i = f32_add (vals s ! i) ?t"
    using l0 l3 v0 by (simp add: s6(3) s5(3) s4(3) s3(3) s2(3) s1(3) nth_list_update)
  ultimately show ?thesis by blast
qed

text \<open>The power of an interval: \<open>counter * 3600 / 300\<close> watt-hours per hour, exact up to 2^24.\<close>

lemma power_exact:
  assumes "unat c * 12 < 2 ^ 24"
  shows "is_nat (interval_power c) (unat c * 12)"
proof -
  have n: "unat c * 3600 < 9007199254740992" "unat c * 12 < 9007199254740992"
    "unat c * 12 < 16777216" using assms by simp_all
  have "of_nat (unat c) * 3600 = (of_nat (unat c * 3600) :: rat)"
    and "of_nat (unat c * 3600) / 300 = (of_nat (unat c * 12) :: rat)"
    by (simp_all add: field_simps)
  then have "interval_power c = f32_of_fp (Fin (of_nat (unat c * 12)))"
    unfolding interval_power_def fp_mul.simps
    by (simp only: f64_round_nat [OF n(1)] f64_round_nat [OF n(2)] fp_div.simps) simp
  then show ?thesis using is_nat_of_fp [OF n(3)] by simp
qed

lemma meter_power_ok:
  assumes l: "length (vals s) = 11" and f: "length (fuenfMinutenZaehler s) = 288"
    and hh: "hh < 24" and mm: "mm < 60" and c: "unat (counter s) * 12 < 2 ^ 24"
  shows "\<exists>s'. meter_power B hh mm s = Some s'
     \<and> same_but_ausgabe (s\<lparr>fuenfMinutenZaehler :=
          (fuenfMinutenZaehler s)[hh * 12 + mm div 5 := counter s * 12]\<rparr>) s'
     \<and> length (vals s') = 11 \<and> (\<forall>i \<in> {0, 1, 2, 3, 4, 7, 8, 9, 10}. vals s' ! i = vals s ! i)"
proof -
  let ?p = "interval_power (counter s)"
  let ?f = "(fuenfMinutenZaehler s)[hh * 12 + mm div 5 := counter s * 12]"
  have idx: "hh * 12 + mm div 5 < 288" using hh mm by simp
  have "u32_of_f32 ?p = Some (of_nat (unat (counter s) * 12))"
    by (rule u32_of_is_nat [OF power_exact [OF c]])
  then have w: "u32_of_f32 ?p = Some (counter s * 12)" by simp
  obtain s1 where s1: "set_value 6 ?p s = Some s1" "same_but_ausgabe s s1" "vals s1 = (vals s)[6 := ?p]"
    by (rule set_valueE [of 6 s ?p]) (use l in auto)
  obtain s2 where s2: "show_value B 6 (f32_decode ?p) 0 s1 = Some s2" "same_but_ausgabe s1 s2"
      "vals s2 = vals s1"
    by (rule show_valueE [of 6 s1 B "f32_decode ?p" 0]) (use l s1 in auto)
  have f2: "fuenfMinutenZaehler s2 = fuenfMinutenZaehler s"
    using same_but_ausgabe_fields [OF s1(2)] same_but_ausgabe_fields [OF s2(2)] by simp
  let ?s3 = "s2\<lparr>fuenfMinutenZaehler := ?f\<rparr>"
  have v3: "vals ?s3 = (vals s)[6 := ?p]" using s2(3) s1(3) by (simp add: vals_def)
  have sb3: "same_but_ausgabe (s\<lparr>fuenfMinutenZaehler := ?f\<rparr>) ?s3"
    using same_but_ausgabe_trans [OF s1(2) s2(2)] unfolding same_but_ausgabe_def
    by (cases s; cases s2) simp
  have g5: "get_value ?s3 5 = Some (vals s ! 5)" using v3 l by (simp add: get_value_in)
  have step: "meter_power B hh mm s
    = (if f32_less (vals s ! 5) ?p
       then Option.bind (set_value 5 ?p ?s3) (show_value B 5 (f32_decode ?p) 0) else Some ?s3)"
    unfolding meter_power_def Let_def
    using g5 by (simp add: s1(1) s2(1) w f2 f idx)
  show ?thesis
  proof (cases "f32_less (vals s ! 5) ?p")
    case False
    with step v3 sb3 l show ?thesis by auto
  next
    case True
    obtain s4 where s4: "set_value 5 ?p ?s3 = Some s4" "same_but_ausgabe ?s3 s4"
        "vals s4 = (vals ?s3)[5 := ?p]"
      by (rule set_valueE [of 5 ?s3 ?p]) (use l v3 in auto)
    obtain s5 where s5: "show_value B 5 (f32_decode ?p) 0 s4 = Some s5" "same_but_ausgabe s4 s5"
        "vals s5 = vals s4"
      by (rule show_valueE [of 5 s4 B "f32_decode ?p" 0]) (use l v3 s4 in auto)
    from sb3 s4(2) s5(2) have "same_but_ausgabe (s\<lparr>fuenfMinutenZaehler := ?f\<rparr>) s5"
      by (blast intro: same_but_ausgabe_trans)
    with step True s4 s5 v3 l show ?thesis by auto
  qed
qed

section \<open>The whole routine\<close>

text \<open>The logger after the routine has credited day \<open>(m, d)\<close> and recorded interval \<open>i\<close>.\<close>

definition credited :: "nat \<Rightarrow> nat \<Rightarrow> nat \<Rightarrow> 'f logger \<Rightarrow> 'f logger" where
  "credited m d i s = s\<lparr>
     tagesCounter := (tagesCounter s)[m := (tagesCounter s ! m)
                        [d := tagesCounter s ! m ! d + of_nat (interval_Wh s)]],
     fuenfMinutenZaehler := (fuenfMinutenZaehler s)[i := counter s * 12],
     counter := 0\<rparr>"

lemma wf_same_but_ausgabe:
  "logger_wf s \<Longrightarrow> same_but_ausgabe s s' \<Longrightarrow> length (vals s') = 11 \<Longrightarrow> logger_wf s'"
  by (auto simp: logger_wf_def logger_const_defs vals_def dest: same_but_ausgabe_fields)

lemma credited_wf: "logger_wf s \<Longrightarrow> m \<le> anzahlMonate \<Longrightarrow> logger_wf (credited m d i s)"
  by (auto simp: logger_wf_def credited_def logger_const_defs dest!: in_set_conv_nth [THEN iffD1]
      simp: nth_list_update)

lemma meter_timer_ok:
  assumes wf: "logger_wf s" and b: "1488 \<le> bufsize (ee s)" and imp: "0 < impulseProKwh s"
    and m: "m \<le> anzahlMonate" and d: "d \<le> anzahlTage" and hh: "hh < 24" and mm: "mm < 60"
    and tm: "date_month (today s) \<le> anzahlMonate" and td: "date_day (today s) \<le> anzahlTage"
    and nov: "no_overflow s m d"
  shows "\<exists>s' e f. FuenfMinutenTimer B stack hh mm m d s = Some s'
     \<and> same_but_ausgabe ((credited m d (hh * 12 + mm div 5) s)\<lparr>ee := e, flash := f\<rparr>) s'
     \<and> logger_wf s' \<and> bufsize e = bufsize (ee s)
     \<and> eeprom_get_u32 ((date_month (today s) * 31 + date_day (today s)) * 4) e
         = tagesCounter s' ! date_month (today s) ! date_day (today s)
     \<and> (\<forall>a. a + 4 \<le> bufsize e \<longrightarrow> a + 4 \<le> (date_month (today s) * 31 + date_day (today s)) * 4
              \<or> (date_month (today s) * 31 + date_day (today s)) * 4 + 4 \<le> a
           \<longrightarrow> eeprom_get_u32 a e = eeprom_get_u32 a (ee s))
     \<and> (\<forall>i \<in> {0, 1, 2, 10}. vals s' ! i = f32_add (vals s ! i) (f32_of_u32 (of_nat (interval_Wh s))))"
proof -
  let ?i = "hh * 12 + mm div 5"
  let ?t = "(tagesCounter s)[m := (tagesCounter s ! m)[d := tagesCounter s ! m ! d + of_nat (interval_Wh s)]]"
  obtain s1 where s1: "meter_add B m d s = Some s1" "same_but_ausgabe (s\<lparr>tagesCounter := ?t\<rparr>) s1"
      "length (vals s1) = 11"
      "\<forall>i \<in> {0, 1, 2, 10}. vals s1 ! i = f32_add (vals s ! i) (f32_of_u32 (of_nat (interval_Wh s)))"
    using meter_add_ok [OF wf m d nov, of B] by blast
  note f1 = same_but_ausgabe_fields [OF s1(2), simplified]
  obtain s2 where s2: "meter_power B hh mm s1 = Some s2"
      "same_but_ausgabe (s1\<lparr>fuenfMinutenZaehler := (fuenfMinutenZaehler s1)[?i := counter s1 * 12]\<rparr>) s2"
      "length (vals s2) = 11" "\<forall>i \<in> {0, 1, 2, 3, 4, 7, 8, 9, 10}. vals s2 ! i = vals s1 ! i"
    using meter_power_ok [OF s1(3) _ hh mm, of B] f1 wf nov
    by (auto simp: logger_wf_def no_overflow_def)
  let ?s3 = "s2\<lparr>counter := 0\<rparr>"
  have sb: "same_but_ausgabe (credited m d ?i s) ?s3"
    using s1(2) s2(2) f1 unfolding same_but_ausgabe_def credited_def
    by (cases s; cases s1; cases s2) simp
  have l3: "length (vals ?s3) = 11" using s2(3) by (simp add: vals_def)
  note wf3 = wf_same_but_ausgabe [OF credited_wf [OF wf m] sb l3]
  note f3 = same_but_ausgabe_fields [OF sb, unfolded credited_def, simplified]
  have b3: "1488 \<le> bufsize (ee ?s3)" and tm3: "date_month (today ?s3) \<le> anzahlMonate"
    and td3: "date_day (today ?s3) \<le> anzahlTage" using b tm td f3 by simp_all
  obtain e f where e: "putEeprom B stack (date_month (today ?s3)) (date_day (today ?s3)) ?s3
        = Some (?s3\<lparr>ee := e, flash := f\<rparr>)" "eeprom_wf e" "bufsize e = bufsize (ee ?s3)"
      "eeprom_get_u32 ((date_month (today ?s3) * 31 + date_day (today ?s3)) * 4) e
        = tagesCounter ?s3 ! date_month (today ?s3) ! date_day (today ?s3)"
      "\<forall>a. a + 4 \<le> bufsize e \<longrightarrow> a + 4 \<le> (date_month (today ?s3) * 31 + date_day (today ?s3)) * 4
          \<or> (date_month (today ?s3) * 31 + date_day (today ?s3)) * 4 + 4 \<le> a
          \<longrightarrow> eeprom_get_u32 a e = eeprom_get_u32 a (ee ?s3)"
    using putEeprom_spec [OF wf3 b3 tm3 td3, of B stack] by blast
  let ?s4 = "?s3\<lparr>ee := e, flash := f\<rparr>"
  have run: "FuenfMinutenTimer B stack hh mm m d s = Some ?s4"
    using e(1) by (simp add: FuenfMinutenTimer_def imp s1(1) s2(1))
  have sb4: "same_but_ausgabe ((credited m d ?i s)\<lparr>ee := e, flash := f\<rparr>) ?s4"
    using sb unfolding same_but_ausgabe_def by (cases s2) (simp add: credited_def)
  have v4: "vals ?s4 = vals s2" by (simp add: vals_def)
  have wf4: "logger_wf ?s4" using wf3 e(2) by (simp add: logger_wf_def)
  have tday: "today s2 = today s" "ee s2 = ee s" using f3 by simp_all
  show ?thesis
    by (intro exI [of _ ?s4] exI [of _ e] exI [of _ f] conjI run sb4 wf4)
      (use e tday s1(4) s2(4) v4 in \<open>simp_all\<close>)
qed

section \<open>Properties\<close>

text \<open>C8: the five-minute routine credits the interval: with sums below 2^24 it returns, adds the
  interval's watt hours (pulses times 1000 over the pulses per kilowatt hour) to the day's counter
  and to the day, month, year and meter yields, records the interval's power in the slot of the
  current five minutes, resets the pulse counter, and leaves the word of today in the EEPROM equal
  to today's counter, every other word as it was.\<close>

theorem FuenfMinutenTimer_credits:
  assumes "logger_wf s" and "1488 \<le> bufsize (ee s)" and "0 < impulseProKwh s"
    and "m \<le> anzahlMonate" and "d \<le> anzahlTage" and "hh < 24" and "mm < 60"
    and "date_month (today s) \<le> anzahlMonate" and "date_day (today s) \<le> anzahlTage"
    and "no_overflow s m d"
  shows "\<exists>s' e f. FuenfMinutenTimer B stack hh mm m d s = Some s'
     \<and> same_but_ausgabe ((credited m d (hh * 12 + mm div 5) s)\<lparr>ee := e, flash := f\<rparr>) s' \<and> logger_wf s'
     \<and> unat (tagesCounter s' ! m ! d) = unat (tagesCounter s ! m ! d) + interval_Wh s \<and> counter s' = 0
     \<and> eeprom_get_u32 (nat (eeAddress (date_month (today s)) (date_day (today s)))) e
         = tagesCounter s' ! date_month (today s) ! date_day (today s)
     \<and> (\<forall>a. a + 4 \<le> bufsize e
            \<and> (a + 4 \<le> nat (eeAddress (date_month (today s)) (date_day (today s)))
               \<or> nat (eeAddress (date_month (today s)) (date_day (today s))) + 4 \<le> a)
           \<longrightarrow> eeprom_get_u32 a e = eeprom_get_u32 a (ee s))
     \<and> (\<forall>i \<in> {0, 1, 2, 10}. vals s' ! i = f32_add (vals s ! i) (f32_of_u32 (of_nat (interval_Wh s))))"
proof -
  obtain s' e f where s': "FuenfMinutenTimer B stack hh mm m d s = Some s'"
      "same_but_ausgabe ((credited m d (hh * 12 + mm div 5) s)\<lparr>ee := e, flash := f\<rparr>) s'" "logger_wf s'"
      "eeprom_get_u32 ((date_month (today s) * 31 + date_day (today s)) * 4) e
         = tagesCounter s' ! date_month (today s) ! date_day (today s)"
      "\<forall>a. a + 4 \<le> bufsize e \<longrightarrow> a + 4 \<le> (date_month (today s) * 31 + date_day (today s)) * 4
              \<or> (date_month (today s) * 31 + date_day (today s)) * 4 + 4 \<le> a
           \<longrightarrow> eeprom_get_u32 a e = eeprom_get_u32 a (ee s)"
      "\<forall>i \<in> {0, 1, 2, 10}. vals s' ! i = f32_add (vals s ! i) (f32_of_u32 (of_nat (interval_Wh s)))"
    using meter_timer_ok [OF assms, of B stack] by blast
  note f = same_but_ausgabe_fields [OF s'(2), unfolded credited_def, simplified]
  have "m < length (tagesCounter s)" "d < length (tagesCounter s ! m)"
    using assms(1,4,5) by (auto simp: logger_wf_def logger_const_defs)
  then have "tagesCounter s' ! m ! d = tagesCounter s ! m ! d + of_nat (interval_Wh s)" using f by simp
  moreover have "unat (tagesCounter s ! m ! d + of_nat (interval_Wh s)) = unat (tagesCounter s ! m ! d) + interval_Wh s"
    using assms(10) by (simp add: no_overflow_def unat_word_ariths unat_of_nat)
  moreover have "counter s' = 0" using f by simp
  ultimately show ?thesis
    using s' unfolding eeAddress_nat nat_int
    by (intro exI [of _ s'] exI [of _ e] exI [of _ f]) auto
qed

lemma FuenfMinutenTimer_credits_witness:
  "\<exists>s'. FuenfMinutenTimer demo_board 0 12 35 6 14 demo_logger = Some s' \<and> counter s' = 0
     \<and> unat (tagesCounter s' ! 6 ! 14) = 10"
proof -
  have "interval_Wh demo_logger = 10" by (simp add: interval_Wh_def demo_logger_def)
  moreover from this have "no_overflow demo_logger 6 14" by (simp add: no_overflow_def demo_logger_def)
  ultimately show ?thesis
    using FuenfMinutenTimer_credits [OF demo_logger_wf, of 6 14 12 35 demo_board 0]
    by (auto simp: demo_logger_def logger_const_defs)
qed

end
