(* ===== verification/Logger_Device.thy ===== *)
theory Logger_Device
  imports Logger_Calendar Logger_Meter
begin

text \<open>
  The running sketch: the logger's globals of \<open>src/esplog.ino\<close>, the system clock and the rest of
  the device in one record, with the routines of \<open>src/functions.ino\<close> that read the clock, switch
  the LED or write a file. The world \<open>'w\<close> is what lies outside the repository: the millisecond
  counter, the flash file system, the radio and the supply voltage. A file is written by one call
  with its path, its mode and the text printed to it; printing to a file that failed to open does
  nothing, which is the parameter's affair. \<open>None\<close> is an access outside an array or a loop that
  does not end.
\<close>

section \<open>State\<close>

record ('f, 'w) sketch =
  lg :: "'f logger"
  clk :: "'w clock"
  world :: 'w
  waitTime :: u32
  previousMillis :: u32
  tickDetected :: bool
  led_builtin :: bool
  led_pin1 :: bool

record ('f, 'w) device =
  board :: "'f board"
  timelib_of :: timelib
  millis :: "'w \<Rightarrow> u32 \<times> 'w"
  file_write :: "string \<Rightarrow> string \<Rightarrow> string \<Rightarrow> 'w \<Rightarrow> 'w"
  getVcc :: "'w \<Rightarrow> nat"
  RSSI :: "'w \<Rightarrow> int"
  localIP :: "'w \<Rightarrow> string"
  stack_word :: "'w \<Rightarrow> u32"

definition on_lg :: "('f logger \<Rightarrow> 'f logger option) \<Rightarrow> ('f, 'w) sketch \<Rightarrow> ('f, 'w) sketch option" where
  "on_lg f s = map_option (\<lambda>l. s\<lparr>lg := l\<rparr>) (f (lg s))"

definition on_world :: "('w \<Rightarrow> 'w) \<Rightarrow> ('f, 'w) sketch \<Rightarrow> ('f, 'w) sketch" where
  "on_world f s = s\<lparr>world := f (world s)\<rparr>"

definition read_millis :: "('f, 'w) device \<Rightarrow> ('f, 'w) sketch \<Rightarrow> u32 \<times> ('f, 'w) sketch" where
  "read_millis D s = (case millis D (world s) of (m, w) \<Rightarrow> (m, s\<lparr>world := w\<rparr>))"

text \<open>A call of the Time library that reads the clock, and one that only looks at its cache.\<close>

definition ask_clock ::
    "('w clock \<Rightarrow> 'w \<Rightarrow> ('a \<times> 'w clock \<times> 'w) option) \<Rightarrow> ('f, 'w) sketch \<Rightarrow> ('a \<times> ('f, 'w) sketch) option" where
  "ask_clock f s = (case f (clk s) (world s) of
     None \<Rightarrow> None | Some (x, c, w) \<Rightarrow> Some (x, s\<lparr>clk := c, world := w\<rparr>))"

definition ask_cache ::
    "(u32 \<Rightarrow> 'w clock \<Rightarrow> ('a \<times> 'w clock) option) \<Rightarrow> u32 \<Rightarrow> ('f, 'w) sketch \<Rightarrow> ('a \<times> ('f, 'w) sketch) option" where
  "ask_cache f t s = (case f t (clk s) of None \<Rightarrow> None | Some (x, c) \<Rightarrow> Some (x, s\<lparr>clk := c\<rparr>))"

section \<open>Interrupt and LED\<close>

definition interruptRoutineFalling :: "('f, 'w) sketch \<Rightarrow> ('f, 'w) sketch" where
  "interruptRoutineFalling s = s\<lparr>tickDetected := True, lg := (lg s)\<lparr>counter := counter (lg s) + 1\<rparr>\<rparr>"

definition flashLed :: "('f, 'w) device \<Rightarrow> bool \<Rightarrow> ('f, 'w) sketch \<Rightarrow> ('f, 'w) sketch" where
  "flashLed D onoff s =
     (case read_millis D s of (m, s') \<Rightarrow>
        if onoff then s'\<lparr>led_pin1 := True, previousMillis := m\<rparr>
        else if m - previousMillis s' \<ge> 30 then s'\<lparr>led_pin1 := False\<rparr>
        else s')"

section \<open>Files\<close>

definition EOL :: string where "EOL = [CHR 0x0D, CHR 0x0A]"

definition write2logfile :: "('f, 'w) device \<Rightarrow> string \<Rightarrow> ('f, 'w) sketch \<Rightarrow> ('f, 'w) sketch option" where
  "write2logfile D logtext s = do {
     (d, s) \<leftarrow> ask_cache (printDate (timelib_of D)) (unixtime (lg s)) s;
     (h, s) \<leftarrow> ask_cache printTime (unixtime (lg s)) s;
     Some (on_world (file_write D ''/log.txt'' ''a+'' (d @ '' '' @ h @ '' '' @ logtext @ EOL)) s) }"

text \<open>One line of the backup: the month, then its 31 words, separated by commas. An \<open>EEPROM.get\<close>
  outside the buffer leaves the variable as it was, for the first word a stack word.\<close>

fun backup_days :: "nat \<Rightarrow> nat list \<Rightarrow> u32 \<Rightarrow> eeprom \<Rightarrow> (string \<times> u32) option" where
  "backup_days j [] tmp e = Some ([], tmp)"
| "backup_days j (i # is) tmp e = do {
     bs \<leftarrow> eeprom_get (eeAddress j i) (le32 tmp) e;
     let tmp = of_le32 bs;
     (text, tmp') \<leftarrow> backup_days j is tmp e;
     Some (decimal (unat tmp) @ (if i < anzahlTage then '','' else '''') @ text, tmp') }"

fun backup_months :: "nat list \<Rightarrow> u32 \<Rightarrow> eeprom \<Rightarrow> string option" where
  "backup_months [] tmp e = Some []"
| "backup_months (j # js) tmp e = do {
     (line, tmp) \<leftarrow> backup_days j [0..<anzahlTage + 1] tmp e;
     text \<leftarrow> backup_months js tmp e;
     Some (decimal (j + 1) @ '','' @ line @ EOL @ text) }"

definition backup2file :: "('f, 'w) device \<Rightarrow> ('f, 'w) sketch \<Rightarrow> ('f, 'w) sketch option" where
  "backup2file D s = do {
     text \<leftarrow> backup_months [0..<anzahlMonate + 1] (stack_word D (world s)) (ee (lg s));
     Some (on_world (file_write D ''/backup.csv'' ''w+'' text) s) }"

text \<open>\<open>bytes / 1024.0\<close> is a \<open>double\<close>; \<open>String(double)\<close> prints two digits after the point. There is no
  return for a gigabyte and more: the result is undefined, \<open>None\<close>.\<close>

definition formatBytes :: "('f, 'w) device \<Rightarrow> nat \<Rightarrow> string option" where
  "formatBytes D bytes =
     (let kb = fp_div f64_round (Fin (of_nat bytes)) (Fin 1024) in
      if bytes < 1024 then Some (decimal bytes @ '' Byte'')
      else if bytes < 1024 * 1024 then Some (dtostrf (board D) kb 4 2 @ '' KB'')
      else if bytes < 1024 * 1024 * 1024 then
        Some (dtostrf (board D) (fp_div f64_round kb (Fin 1024)) 4 2 @ '' MB'')
      else None)"

definition fhemIp :: "'f logger \<Rightarrow> string option" where
  "fhemIp l = do {
     a \<leftarrow> arr_get (fhemHost l) 0; b \<leftarrow> arr_get (fhemHost l) 1;
     c \<leftarrow> arr_get (fhemHost l) 2; d \<leftarrow> arr_get (fhemHost l) 3;
     Some (decimal (unat a) @ ''.'' @ decimal (unat b) @ ''.'' @ decimal (unat c) @ ''.'' @ decimal (unat d)) }"

section \<open>A quiet pass\<close>

text \<open>Within a pass of the loop the counter of milliseconds may move, but no whole second passes and
  no synchronisation is due: the worlds the pass goes through lie in a set \<open>W\<close>. Then every
  reading of the clock is the same time, and only the element cache changes.\<close>

definition quiet :: "('f, 'w) device \<Rightarrow> 'w set \<Rightarrow> ('f, 'w) sketch \<Rightarrow> bool" where
  "quiet D W s \<longleftrightarrow> world s \<in> W
     \<and> (\<forall>w \<in> W. snd (millis D w) \<in> W \<and> fst (millis D w) - prevMillis (clk s) < 1000)
     \<and> sysTime (clk s) < nextSyncTime (clk s) \<and> cache_ok (clk s)"

definition calm :: "('f, 'w) device \<Rightarrow> 'w set \<Rightarrow> ('f, 'w) sketch \<Rightarrow> ('f, 'w) sketch \<Rightarrow> bool" where
  "calm D W s s' \<longleftrightarrow> quiet D W s' \<and> s' = s\<lparr>clk := clk s', world := world s'\<rparr>
     \<and> sysTime (clk s') = sysTime (clk s)"

lemma calm_quiet: "calm D W s s' \<Longrightarrow> quiet D W s'" by (simp add: calm_def)

lemma calm_fields:
  assumes "calm D W s s'"
  shows "lg s' = lg s" "waitTime s' = waitTime s" "previousMillis s' = previousMillis s"
    "tickDetected s' = tickDetected s" "led_builtin s' = led_builtin s" "led_pin1 s' = led_pin1 s"
    "sysTime (clk s') = sysTime (clk s)"
proof -
  have "s' = s\<lparr>clk := clk s', world := world s'\<rparr>" "sysTime (clk s') = sysTime (clk s)"
    using assms by (simp_all add: calm_def)
  then show "lg s' = lg s" "waitTime s' = waitTime s" "previousMillis s' = previousMillis s"
    "tickDetected s' = tickDetected s" "led_builtin s' = led_builtin s" "led_pin1 s' = led_pin1 s"
    "sysTime (clk s') = sysTime (clk s)"
    by (cases s; cases s'; simp)+
qed

lemma calm_trans: "calm D W s t \<Longrightarrow> calm D W t u \<Longrightarrow> calm D W s u"
  unfolding calm_def by (cases s; cases t; cases u) simp

lemma tm_field_keeps: "tm_field f t c = Some (x, c') \<Longrightarrow> c' = c\<lparr>tm := tm c', cacheTime := cacheTime c'\<rparr>"
  by (auto simp: tm_field_def refreshCache_def split: if_splits option.splits)

lemma cache_calm:
  assumes "quiet D W s" and "breakTime t = Some e"
  obtains s' where "ask_cache (tm_field g) t s = Some (g e, s')" "calm D W s s'"
proof -
  obtain c' where c': "tm_field g t (clk s) = Some (g e, c')" "cache_ok c'"
    using tm_field_ok [of "clk s" g t] assms by (auto simp: quiet_def)
  define s' where "s' = s\<lparr>clk := c'\<rparr>"
  note k = tm_field_keeps [OF c'(1)]
  have f: "prevMillis c' = prevMillis (clk s)" "sysTime c' = sysTime (clk s)" "nextSyncTime c' = nextSyncTime (clk s)"
    by (subst k, simp)+
  have "calm D W s s'" using assms(1) c'(2) f by (simp add: s'_def calm_def quiet_def)
  moreover have "ask_cache (tm_field g) t s = Some (g e, s')" using c'(1) by (simp add: ask_cache_def s'_def)
  ultimately show ?thesis using that by blast
qed

lemma now_quiet:
  assumes "quiet D W s"
  shows "now (millis D) (clk s) (world s) = Some (sysTime (clk s), clk s, snd (millis D (world s)))"
proof -
  have "\<not> 1000 \<le> fst (millis D (world s)) - prevMillis (clk s)"
    using assms by (auto simp: quiet_def not_le)
  then have "catch_up (millis D) (clk s) (world s) = Some (clk s, snd (millis D (world s)))"
    by (subst catch_up.simps) (simp add: case_prod_beta Let_def)
  moreover have "\<not> nextSyncTime (clk s) \<le> sysTime (clk s)" using assms by (simp add: quiet_def not_le)
  ultimately show ?thesis by (simp add: now_def sync_def)
qed

lemma now_calm:
  assumes "quiet D W s"
  obtains s' where "ask_clock (now (millis D)) s = Some (sysTime (clk s), s')" "calm D W s s'"
proof -
  have "calm D W s (s\<lparr>world := snd (millis D (world s))\<rparr>)"
    using assms by (simp add: calm_def quiet_def)
  then show ?thesis using now_quiet [OF assms] by (intro that [of "s\<lparr>world := snd (millis D (world s))\<rparr>"])
    (simp_all add: ask_clock_def)
qed

lemma field_calm:
  assumes "quiet D W s" and "breakTime (sysTime (clk s)) = Some e"
  obtains s' where "ask_clock (of_now (millis D) (tm_field g)) s = Some (g e, s')" "calm D W s s'"
proof -
  obtain s1 where s1: "ask_clock (now (millis D)) s = Some (sysTime (clk s), s1)" "calm D W s s1"
    by (rule now_calm [OF assms(1)])
  obtain s2 where s2: "ask_cache (tm_field g) (sysTime (clk s)) s1 = Some (g e, s2)" "calm D W s1 s2"
    by (rule cache_calm [OF calm_quiet [OF s1(2)] assms(2)])
  have "ask_clock (of_now (millis D) (tm_field g)) s = Some (g e, s2)"
    using s1(1) s2(1) by (auto simp: ask_clock_def of_now_def ask_cache_def split: option.splits prod.splits)
  then show ?thesis using calm_trans [OF s1(2) s2(2)] that by blast
qed

lemmas field_ops = hour_now_def minute_now_def second_now_def day_now_def month_now_def year_now_def
  hour_def minute_def second_def day_def month_def year_def

text \<open>The readings of elements return, whatever the cache holds.\<close>

lemma tm_field_returns: "\<exists>x c'. tm_field f t c = Some (x, c')"
  using breakTime_spec [of t] by (auto simp: tm_field_def refreshCache_def)

lemma printDate_returns: "\<exists>x c'. printDate T t c = Some (x, c')"
proof -
  obtain x1 c1 where 1: "day t c = Some (x1, c1)" unfolding day_def using tm_field_returns [of Day] by blast
  obtain x2 c2 where 2: "month t c1 = Some (x2, c2)" unfolding month_def using tm_field_returns [of Month] by blast
  obtain x3 c3 where 3: "year T t c2 = Some (x3, c3)" unfolding year_def using tm_field_returns [of "\<lambda>e. tmYearToCalendar T (Year e)"] by blast
  show ?thesis by (simp add: printDate_def 1 2 3)
qed

lemma printTime_returns: "\<exists>x c'. printTime t c = Some (x, c')"
proof -
  obtain x1 c1 where 1: "hour t c = Some (x1, c1)" unfolding hour_def using tm_field_returns [of Hour] by blast
  obtain x2 c2 where 2: "minute t c1 = Some (x2, c2)" unfolding minute_def using tm_field_returns [of Minute] by blast
  obtain x3 c3 where 3: "second t c2 = Some (x3, c3)" unfolding second_def using tm_field_returns [of Second] by blast
  show ?thesis by (simp add: printTime_def 1 2 3)
qed

lemma write2logfile_returns:
  obtains c t where "write2logfile D x s
     = Some (s\<lparr>clk := c, world := file_write D ''/log.txt'' ''a+'' t (world s)\<rparr>)"
proof -
  obtain d c1 where 1: "printDate (timelib_of D) (unixtime (lg s)) (clk s) = Some (d, c1)"
    using printDate_returns by blast
  obtain h c2 where 2: "printTime (unixtime (lg s)) c1 = Some (h, c2)" using printTime_returns by blast
  from 1 2 show ?thesis by (intro that) (simp add: write2logfile_def ask_cache_def on_world_def)
qed

text \<open>A reading of elements changes the element cache alone.\<close>

definition recached :: "'w clock \<Rightarrow> 'w clock \<Rightarrow> bool" where
  "recached c c' \<longleftrightarrow> cache_ok c' \<and> c' = c\<lparr>tm := tm c', cacheTime := cacheTime c'\<rparr>"

lemma recached_trans: "recached c d \<Longrightarrow> recached d e \<Longrightarrow> recached c e"
  unfolding recached_def by (cases c; cases d; cases e) simp

lemma tm_field_recached:
  assumes "cache_ok c"
  obtains x c' where "tm_field f t c = Some (x, c')" "recached c c'"
proof -
  obtain c' e where "tm_field f t c = Some (f e, c')" "cache_ok c'" using tm_field_ok [OF assms] by blast
  with tm_field_keeps [OF this(1)] that show ?thesis by (simp add: recached_def)
qed

lemma recached_ok: "recached c c' \<Longrightarrow> cache_ok c'" by (simp add: recached_def)

lemma printDate_recached:
  assumes "cache_ok c"
  obtains x c' where "printDate T t c = Some (x, c')" "recached c c'"
proof -
  obtain d c1 where 1: "day t c = Some (d, c1)" "recached c c1"
    unfolding day_def by (rule tm_field_recached [OF assms])
  obtain m c2 where 2: "month t c1 = Some (m, c2)" "recached c1 c2"
    unfolding month_def by (rule tm_field_recached [OF recached_ok [OF 1(2)]])
  obtain y c3 where 3: "year T t c2 = Some (y, c3)" "recached c2 c3"
    unfolding year_def by (rule tm_field_recached [OF recached_ok [OF 2(2)]])
  from 1 2 3 show ?thesis by (intro that [OF _ recached_trans [OF recached_trans [OF 1(2) 2(2)] 3(2)]]) (simp add: printDate_def)
qed

lemma printTime_recached:
  assumes "cache_ok c"
  obtains x c' where "printTime t c = Some (x, c')" "recached c c'"
proof -
  obtain d c1 where 1: "hour t c = Some (d, c1)" "recached c c1"
    unfolding hour_def by (rule tm_field_recached [OF assms])
  obtain m c2 where 2: "minute t c1 = Some (m, c2)" "recached c1 c2"
    unfolding minute_def by (rule tm_field_recached [OF recached_ok [OF 1(2)]])
  obtain y c3 where 3: "second t c2 = Some (y, c3)" "recached c2 c3"
    unfolding second_def by (rule tm_field_recached [OF recached_ok [OF 2(2)]])
  from 1 2 3 show ?thesis by (intro that [OF _ recached_trans [OF recached_trans [OF 1(2) 2(2)] 3(2)]]) (simp add: printTime_def)
qed

lemma recached_calm:
  assumes "quiet D W s" and "recached (clk s) c" and "w \<in> W"
  shows "calm D W s (s\<lparr>clk := c, world := w\<rparr>)"
proof -
  have "prevMillis c = prevMillis (clk s)" "sysTime c = sysTime (clk s)" "nextSyncTime c = nextSyncTime (clk s)"
    using assms(2) unfolding recached_def by (cases "clk s"; cases c; simp)+
  with assms show ?thesis by (simp add: calm_def quiet_def recached_def)
qed

lemma log_calm:
  assumes "quiet D W s" and "\<forall>u \<in> W. \<forall>x. file_write D ''/log.txt'' ''a+'' x u \<in> W"
  obtains s' where "write2logfile D x s = Some s'" "calm D W s s'"
proof -
  have c: "cache_ok (clk s)" and w: "world s \<in> W" using assms(1) by (simp_all add: quiet_def)
  obtain d c1 where 1: "printDate (timelib_of D) (unixtime (lg s)) (clk s) = Some (d, c1)" "recached (clk s) c1"
    by (rule printDate_recached [OF c])
  obtain h c2 where 2: "printTime (unixtime (lg s)) c1 = Some (h, c2)" "recached c1 c2"
    by (rule printTime_recached [OF recached_ok [OF 1(2)]])
  let ?s = "s\<lparr>clk := c2, world := file_write D ''/log.txt'' ''a+'' (d @ '' '' @ h @ '' '' @ x @ EOL) (world s)\<rparr>"
  have "write2logfile D x s = Some ?s"
    using 1(1) 2(1) by (simp add: write2logfile_def ask_cache_def on_world_def)
  moreover have "calm D W s ?s"
    by (rule recached_calm [OF assms(1) recached_trans [OF 1(2) 2(2)]]) (use assms(2) w in blast)
  ultimately show ?thesis by (rule that)
qed

end
