(* ===== verification/Logger_Fhem.thy ===== *)
theory Logger_Fhem
  imports Logger_Device
begin

text \<open>
  Reporting to the FHEM home automation server (\<open>src/sendfhem.ino\<close>): the JSON record of one output
  value, the HTTP request that posts it, and the wait for the answer. The routine sees its
  connection through the operations of a TCP client, which act on the world; both of its loops
  follow the connection and may run for as long as the server sends. Neither routine has a return
  statement on its main path; no caller looks at the result.
\<close>

section \<open>Connection\<close>

record 'w tcp_class =
  tcp_connect :: "u8 list \<Rightarrow> u32 \<Rightarrow> 'w \<Rightarrow> bool \<times> 'w"
  tcp_print :: "string \<Rightarrow> 'w \<Rightarrow> 'w"
  tcp_available :: "'w \<Rightarrow> nat \<times> 'w"
  tcp_readStringUntil :: "char \<Rightarrow> 'w \<Rightarrow> string \<times> 'w"
  tcp_flush :: "'w \<Rightarrow> 'w"
  tcp_stop :: "'w \<Rightarrow> 'w"

text \<open>\<open>while (!client.available() && millis() < timer) yield();\<close>\<close>

partial_function (option) fhem_wait :: "('w \<Rightarrow> u32 \<times> 'w) \<Rightarrow> 'w tcp_class \<Rightarrow> u32 \<Rightarrow> 'w \<Rightarrow> 'w option" where
  "fhem_wait ms C timer w =
     (case tcp_available C w of (n, w) \<Rightarrow>
        if n \<noteq> 0 then Some w
        else case ms w of (m, w) \<Rightarrow> if m < timer then fhem_wait ms C timer w else Some w)"

text \<open>The lines of the answer; the flag tells whether one of them was a success.\<close>

partial_function (option) fhem_answer :: "'w tcp_class \<Rightarrow> bool \<Rightarrow> 'w \<Rightarrow> (bool \<times> 'w) option" where
  "fhem_answer C success w =
     (case tcp_available C w of (n, w) \<Rightarrow>
        if n = 0 then Some (success, w)
        else case tcp_readStringUntil C (CHR 0x0A) w of (line, w) \<Rightarrow>
          fhem_answer C (if substring 0 15 line = ''HTTP/1.1 200 OK'' then True else success) w)"

definition fhem_head :: "string \<Rightarrow> nat \<Rightarrow> string \<Rightarrow> string" where
  "fhem_head url len ip =
     ''POST '' @ url @ '' HTTP/1.1'' @ EOL @ ''Content-Length: '' @ decimal len @ EOL
     @ ''Host: '' @ ip @ EOL @ ''Connection: close'' @ EOL @ EOL"

definition FHEMHTTPsend ::
    "('f, 'w) device \<Rightarrow> 'w tcp_class \<Rightarrow> string \<Rightarrow> string \<Rightarrow> ('f, 'w) sketch \<Rightarrow> ('f, 'w) sketch option" where
  "FHEMHTTPsend D C url buffer s =
     (case tcp_connect C (fhemHost (lg s)) (fhemPort (lg s)) (world s) of
        (False, w) \<Rightarrow> Some (s\<lparr>world := w\<rparr>)
      | (True, w) \<Rightarrow> do {
          ip \<leftarrow> fhemIp (lg s);
          let w = tcp_print C (fhem_head url (length buffer) ip @ buffer) w;
          let (m, w) = millis D w;
          w \<leftarrow> fhem_wait (millis D) C (m + 200) w;
          (_, w) \<leftarrow> fhem_answer C False w;
          Some (s\<lparr>world := tcp_stop C (tcp_flush C w)\<rparr>) })"

section \<open>The records\<close>

definition query_names :: "string list" where
  "query_names = [''Tagesertrag'', ''Jahresertrag'', ''Spezifisch'', ''Einspeiseleistung'', ''Zaehlerstand'',
     ''Maximal'', ''Voltage'', ''RSSI'', ''Uptime'']"

definition quoted :: "string \<Rightarrow> string" where "quoted x = CHR 0x22 # x @ [CHR 0x22]"

definition sensor_head :: "string \<Rightarrow> string" where
  "sensor_head ip =
     ''{'' @ quoted ''module'' @ '':'' @ quoted ''ESPEasy'' @ '','' @ quoted ''version'' @ '':'' @ quoted ''1.02'' @ '',''
     @ quoted ''data'' @ '':'' @ ''{'' @ quoted ''ESP'' @ '':{'' @ quoted ''name'' @ '':'' @ quoted ''EasyLog'' @ '',''
     @ quoted ''unit'' @ '':0,'' @ quoted ''version'' @ '':9,'' @ quoted ''build'' @ '':147,'' @ quoted ''sleep''
     @ '':0,'' @ quoted ''ip'' @ '':'' @ quoted ip @ ''},'' @ quoted ''SENSOR'' @ '':{''"

definition sensor_record :: "string \<Rightarrow> valueStore \<Rightarrow> string" where
  "sensor_record ip a =
     sensor_head ip @ quoted ''0'' @ '':'' @ ''{'' @ quoted ''deviceName'' @ '':'' @ quoted []
     @ '','' @ quoted ''valueName'' @ '':'' @ quoted (realName a) @ '','' @ quoted ''type'' @ '':6,''
     @ quoted ''value'' @ '':'' @ quoted (printValue a) @ ''}'' @ ''}}}''"

fun send_each :: "(string \<Rightarrow> ('f, 'w) sketch \<Rightarrow> ('f, 'w) sketch option) \<Rightarrow> string list
    \<Rightarrow> ('f, 'w) sketch \<Rightarrow> ('f, 'w) sketch option" where
  "send_each f [] s = Some s"
| "send_each f (x # xs) s = Option.bind (f x s) (send_each f xs)"

text \<open>The values whose name is queried, in the order of the array; \<open>strncmp\<close> compares the whole
  names, which are shorter than its 20 characters.\<close>

definition CreateSensorString ::
    "('f, 'w) device \<Rightarrow> 'w tcp_class \<Rightarrow> ('f, 'w) sketch \<Rightarrow> ('f, 'w) sketch option" where
  "CreateSensorString D C s =
     send_each (FHEMHTTPsend D C ''/ESPEasy'')
       [sensor_record (localIP D (world s)) a.
          a \<leftarrow> take lenStore (ausgabe (lg s)), q \<leftarrow> query_names, take 20 (realName a) = take 20 q] s"

text \<open>Reporting changes the world only.\<close>

definition only_world :: "('f, 'w) sketch \<Rightarrow> ('f, 'w) sketch \<Rightarrow> bool" where
  "only_world s s' \<longleftrightarrow> s' = s\<lparr>world := world s'\<rparr>"

lemma only_world_refl [simp]: "only_world s s" by (simp add: only_world_def)

lemma only_world_trans: "only_world s t \<Longrightarrow> only_world t u \<Longrightarrow> only_world s u"
  unfolding only_world_def by (cases s; cases t; cases u) simp

lemma FHEMHTTPsend_world: "FHEMHTTPsend D C url b s = Some s' \<Longrightarrow> only_world s s'"
  by (auto simp: FHEMHTTPsend_def only_world_def split: prod.splits bool.splits bind_splits)

lemma send_each_world:
  "(\<And>x s s'. f x s = Some s' \<Longrightarrow> only_world s s') \<Longrightarrow> send_each f xs s = Some s' \<Longrightarrow> only_world s s'"
proof (induction xs arbitrary: s)
  case (Cons a xs)
  from Cons.prems(2) obtain t where "f a s = Some t" "send_each f xs t = Some s'" by (auto split: bind_splits)
  with Cons.prems(1) Cons.IH show ?case by (meson only_world_trans)
qed simp

lemma CreateSensorString_world: "CreateSensorString D C s = Some s' \<Longrightarrow> only_world s s'"
  unfolding CreateSensorString_def by (rule send_each_world) (rule FHEMHTTPsend_world)

text \<open>It returns when the waits end: the counter of milliseconds goes on, the answer is finite.\<close>

definition server_answers :: "('f, 'w) device \<Rightarrow> 'w tcp_class \<Rightarrow> bool" where
  "server_answers D C \<longleftrightarrow> (\<forall>w t. fhem_wait (millis D) C t w \<noteq> None) \<and> (\<forall>w b. fhem_answer C b w \<noteq> None)"

lemma FHEMHTTPsend_returns:
  assumes "server_answers D C" and "length (fhemHost (lg s)) = 4"
  shows "\<exists>w. FHEMHTTPsend D C url b s = Some (s\<lparr>world := w\<rparr>)"
proof (cases "tcp_connect C (fhemHost (lg s)) (fhemPort (lg s)) (world s)")
  case (Pair r w)
  show ?thesis
  proof (cases r)
    case True
    obtain ip where ip: "fhemIp (lg s) = Some ip" using assms(2) by (simp add: fhemIp_def)
    obtain m w1 where w1: "millis D (tcp_print C (fhem_head url (length b) ip @ b) w) = (m, w1)" by fastforce
    obtain w2 where w2: "fhem_wait (millis D) C (m + 200) w1 = Some w2"
      using assms(1) unfolding server_answers_def by blast
    obtain r' w3 where w3: "fhem_answer C False w2 = Some (r', w3)"
      using assms(1) unfolding server_answers_def by (metis option.exhaust surj_pair)
    show ?thesis
      by (intro exI [of _ "tcp_stop C (tcp_flush C w3)"]) (simp add: FHEMHTTPsend_def Pair True ip w1 w2 w3)
  qed (use Pair in \<open>auto simp: FHEMHTTPsend_def\<close>)
qed

lemma send_each_returns:
  assumes "\<And>x w. \<exists>w'. f x (s\<lparr>world := w\<rparr>) = Some (s\<lparr>world := w'\<rparr>)"
  shows "\<exists>w'. send_each f xs (s\<lparr>world := w\<rparr>) = Some (s\<lparr>world := w'\<rparr>)"
proof (induction xs arbitrary: w)
  case (Cons x xs)
  obtain w1 where "f x (s\<lparr>world := w\<rparr>) = Some (s\<lparr>world := w1\<rparr>)" using assms by blast
  with Cons.IH [of w1] show ?case by simp
qed auto

lemma CreateSensorString_returns:
  assumes "server_answers D C" and "length (fhemHost (lg s)) = 4"
  shows "\<exists>w. CreateSensorString D C s = Some (s\<lparr>world := w\<rparr>)"
proof -
  have "\<exists>w'. FHEMHTTPsend D C ''/ESPEasy'' x (s\<lparr>world := w\<rparr>) = Some (s\<lparr>world := w'\<rparr>)" for x w
    using FHEMHTTPsend_returns [OF assms(1), of "s\<lparr>world := w\<rparr>"] assms(2) by simp
  from send_each_returns [where f = "FHEMHTTPsend D C ''/ESPEasy''", OF this, of _ "world s"]
  show ?thesis unfolding CreateSensorString_def by simp
qed

end
