(* ===== verification/Logger_Loop.thy ===== *)
theory Logger_Loop
  imports Logger_Fhem
begin

text \<open>
  The main loop of the sketch (\<open>src/loop.ino\<close>): the actions of every second, of every minute and of
  every fifth minute, and what the change of the day, the month and the year does. The web server's
  turn at the end of \<open>loop\<close> is \<open>handleClient\<close>, added in \<open>Logger_Web\<close>. The properties
  follow one pass of the loop at a given local time: the interval before is credited to today, or at
  midnight to the day noted at 23:55, and in January every midnight deletes the stored year.
\<close>

section \<open>Operations\<close>

text \<open>The date of a local time: month and day count from 0, each held in a byte.\<close>

definition byte_pred :: "nat \<Rightarrow> nat" where "byte_pred n = (n + 255) mod 256"

definition date_of :: "('f, 'w) device \<Rightarrow> u32 \<Rightarrow> ('f, 'w) sketch \<Rightarrow> (Date \<times> ('f, 'w) sketch) option" where
  "date_of D t s = do {
     (y, s) \<leftarrow> ask_cache (year (timelib_of D)) t s;
     (m, s) \<leftarrow> ask_cache month t s;
     (d, s) \<leftarrow> ask_cache day t s;
     Some (\<lparr>date_day = byte_pred d, date_month = byte_pred m, date_year = int y\<rparr>, s) }"

text \<open>The local time: \<open>summertime_EU(year(), month(), day(), hour(), 1)\<close> selects the offset.\<close>

definition local_time :: "('f, 'w) device \<Rightarrow> ('f, 'w) sketch \<Rightarrow> ('f, 'w) sketch option" where
  "local_time D s = do {
     (y, s) \<leftarrow> ask_clock (year_now (millis D) (timelib_of D)) s;
     (m, s) \<leftarrow> ask_clock (month_now (millis D)) s;
     (d, s) \<leftarrow> ask_clock (day_now (millis D)) s;
     (h, s) \<leftarrow> ask_clock (hour_now (millis D)) s;
     let summer = summertime_EU (int y) m d h 1;
     (t, s) \<leftarrow> ask_clock (now (millis D)) s;
     Some (s\<lparr>lg := (lg s)\<lparr>sommerzeit := summer, unixtime := (if summer then t + 3600 else t)\<rparr>\<rparr>) }"

text \<open>\<open>FuenfMinutenTimer\<close> reads the clock for the slot of the interval: \<open>hour()\<close> and \<open>minute()\<close>.\<close>

definition timer :: "('f, 'w) device \<Rightarrow> nat \<Rightarrow> nat \<Rightarrow> ('f, 'w) sketch \<Rightarrow> ('f, 'w) sketch option" where
  "timer D m d s = do {
     (hh, s) \<leftarrow> ask_clock (hour_now (millis D)) s;
     (mm, s) \<leftarrow> ask_clock (minute_now (millis D)) s;
     on_lg (FuenfMinutenTimer (board D) (stack_word D (world s)) hh mm m d) s }"

fun clear_days :: "nat \<Rightarrow> nat list \<Rightarrow> 'f logger \<Rightarrow> 'f logger option" where
  "clear_days m [] l = Some l"
| "clear_days m (i # is) l = Option.bind (tc_set l m i 0) (clear_days m is)"

text \<open>The counters of the new day and, on the first of a month, of the new month.\<close>

definition new_counters :: "'f logger \<Rightarrow> 'f logger option" where
  "new_counters l = do {
     l \<leftarrow> set_value 0 0 (l\<lparr>fuenfMinutenZaehler := map (\<lambda>_. 0) (fuenfMinutenZaehler l)\<rparr>);
     l \<leftarrow> set_value 5 0 l;
     if date_day (today l) = 0 then do {
       l \<leftarrow> clear_days (date_month (today l)) [0..<anzahlTage + 1] l;
       set_value 1 0 l }
     else Some l }"

definition new_day :: "('f, 'w) device \<Rightarrow> 'w tcp_class \<Rightarrow> ('f, 'w) sketch \<Rightarrow> ('f, 'w) sketch option" where
  "new_day D C s = do {
     let y = yesterday (lg s);
     s \<leftarrow> timer D (date_month y) (date_day y) s;
     s \<leftarrow> on_lg (putEeprom (board D) (stack_word D (world s)) (date_month y) (date_day y)) s;
     s \<leftarrow> CreateSensorString D C s;
     s \<leftarrow> on_lg new_counters s;
     if date_month (today (lg s)) = 0 then do {
       s \<leftarrow> backup2file D s;
       s \<leftarrow> on_lg (deleteEEPROM (board D)) s;
       on_lg (set_value 2 0) s }
     else Some s }"

definition same_day :: "('f, 'w) device \<Rightarrow> 'w tcp_class \<Rightarrow> u32 \<Rightarrow> ('f, 'w) sketch \<Rightarrow> ('f, 'w) sketch option" where
  "same_day D C t s = do {
     let d = today (lg s);
     s \<leftarrow> timer D (date_month d) (date_day d) s;
     s \<leftarrow> CreateSensorString D C s;
     (h, s) \<leftarrow> ask_cache hour t s;
     late \<leftarrow> (if h = 23 then ask_cache minute t s else Some (0, s));
     let (m, s) = late;
     Some (if h = 23 \<and> m = 55 then s\<lparr>lg := (lg s)\<lparr>yesterday := today (lg s)\<rparr>\<rparr> else s) }"

text \<open>\<open>ESP.getVcc()/1000.0\<close> and the signal strength, shown in values 7 and 8.\<close>

definition show_radio :: "('f, 'w) device \<Rightarrow> ('f, 'w) sketch \<Rightarrow> ('f, 'w) sketch option" where
  "show_radio D s = do {
     s \<leftarrow> on_lg (show_value (board D) 7
            (fp_div f64_round (Fin (of_nat (getVcc D (world s)))) (Fin 1000)) 2) s;
     on_lg (show_value (board D) 8 (Fin (of_int (RSSI D (world s)))) 0) s }"

definition every_five_minutes ::
    "('f, 'w) device \<Rightarrow> 'w tcp_class \<Rightarrow> ('f, 'w) sketch \<Rightarrow> ('f, 'w) sketch option" where
  "every_five_minutes D C s = do {
     let t = unixtime (lg s);
     (d, s) \<leftarrow> date_of D t s;
     s \<leftarrow> Some (s\<lparr>lg := (lg s)\<lparr>today := d\<rparr>\<rparr>);
     (h, s) \<leftarrow> ask_cache hour t s;
     early \<leftarrow> (if h = 0 then ask_cache minute t s else Some (1, s));
     let (m, s) = early;
     s \<leftarrow> (if h = 0 \<and> m = 0 then new_day D C s else same_day D C t s);
     show_radio D s }"

definition every_minute :: "('f, 'w) device \<Rightarrow> 'w tcp_class \<Rightarrow> ('f, 'w) sketch \<Rightarrow> ('f, 'w) sketch option" where
  "every_minute D C s = do {
     up \<leftarrow> get_value (lg s) 9;
     s \<leftarrow> on_lg (set_value 9 (f32_add up (f32_of_u32 1))) s;
     up \<leftarrow> get_value (lg s) 9;
     s \<leftarrow> on_lg (show_value (board D) 9 (f32_decode up) 0) s;
     s \<leftarrow> local_time D s;
     (m, s) \<leftarrow> ask_clock (minute_now (millis D)) s;
     if m mod 5 = 0 then every_five_minutes D C s else Some s }"

text \<open>\<open>loop\<close> up to the call of \<open>server.handleClient\<close>.\<close>

definition loop_sketch :: "('f, 'w) device \<Rightarrow> 'w tcp_class \<Rightarrow> ('f, 'w) sketch \<Rightarrow> ('f, 'w) sketch option" where
  "loop_sketch D C s = do {
     let s = flashLed D False s;
     let (m, s) = read_millis D s;
     s \<leftarrow> (if m - waitTime s > 1000 then do {
              let (m, s) = read_millis D s;
              let s = s\<lparr>waitTime := m, led_builtin := \<not> led_builtin s\<rparr>;
              (sec, s) \<leftarrow> ask_clock (second_now (millis D)) s;
              if sec = 0 then every_minute D C s else Some s }
           else Some s);
     Some (if tickDetected s then (flashLed D True s)\<lparr>tickDetected := False\<rparr> else s) }"

section \<open>The time of a pass\<close>

lemma quiet_update [simp]:
  "quiet D W (s\<lparr>lg := l\<rparr>) = quiet D W s" "quiet D W (s\<lparr>waitTime := n\<rparr>) = quiet D W s"
  "quiet D W (s\<lparr>led_builtin := b\<rparr>) = quiet D W s" "quiet D W (s\<lparr>led_pin1 := b\<rparr>) = quiet D W s"
  "quiet D W (s\<lparr>previousMillis := n\<rparr>) = quiet D W s"
  by (simp_all add: quiet_def)

definition summer_of :: "('f, 'w) device \<Rightarrow> tmElements \<Rightarrow> bool" where
  "summer_of D e = summertime_EU (int (tmYearToCalendar (timelib_of D) (Year e))) (Month e) (Day e) (Hour e) 1"

definition local_of :: "('f, 'w) device \<Rightarrow> u32 \<Rightarrow> tmElements \<Rightarrow> u32" where
  "local_of D n e = (if summer_of D e then n + 3600 else n)"

definition date_in :: "('f, 'w) device \<Rightarrow> tmElements \<Rightarrow> Date" where
  "date_in D e = \<lparr>date_day = Day e - 1, date_month = Month e - 1,
     date_year = int (tmYearToCalendar (timelib_of D) (Year e))\<rparr>"

lemma date_in_bounds:
  assumes "valid_tm e"
  shows "date_month (date_in D e) \<le> anzahlMonate" "date_day (date_in D e) \<le> anzahlTage"
proof -
  have "Month e - 1 < 12" using assms by (auto simp: valid_tm_def)
  then have "monthLength (Year e) (Month e - 1) \<le> 31" using monthLength_bounds by blast
  then show "date_month (date_in D e) \<le> anzahlMonate" "date_day (date_in D e) \<le> anzahlTage"
    using assms by (auto simp: date_in_def valid_tm_def logger_const_defs)
qed

lemma byte_pred_pos: "1 \<le> n \<Longrightarrow> n \<le> 256 \<Longrightarrow> byte_pred n = n - 1"
proof -
  assume "1 \<le> n" "n \<le> 256"
  then have "n + 255 = (n - 1) + 256" "n - 1 < 256" by simp_all
  then show ?thesis unfolding byte_pred_def by (metis mod_add_self2 mod_less)
qed

lemma date_calm:
  assumes "quiet D W s" and "breakTime t = Some e"
  obtains s' where "date_of D t s = Some (date_in D e, s')" "calm D W s s'"
proof -
  obtain s1 where s1: "ask_cache (year (timelib_of D)) t s = Some (tmYearToCalendar (timelib_of D) (Year e), s1)"
      "calm D W s s1"
    unfolding field_ops by (rule cache_calm [OF assms])
  obtain s2 where s2: "ask_cache month t s1 = Some (Month e, s2)" "calm D W s1 s2"
    unfolding field_ops by (rule cache_calm [OF calm_quiet [OF s1(2)] assms(2)])
  obtain s3 where s3: "ask_cache day t s2 = Some (Day e, s3)" "calm D W s2 s3"
    unfolding field_ops by (rule cache_calm [OF calm_quiet [OF s2(2)] assms(2)])
  note v = breakTime_fields(1) [OF assms(2)]
  have "1 \<le> Month e" "Month e \<le> 256" "1 \<le> Day e" "Day e \<le> 256"
    using v date_in_bounds [OF v, of D] by (auto simp: valid_tm_def date_in_def logger_const_defs)
  then have "byte_pred (Month e) = Month e - 1" "byte_pred (Day e) = Day e - 1"
    by (simp_all only: byte_pred_pos)
  then have "date_of D t s = Some (date_in D e, s3)"
    by (simp add: date_of_def s1(1) s2(1) s3(1) date_in_def)
  then show ?thesis using that calm_trans [OF calm_trans [OF s1(2) s2(2)] s3(2)] by blast
qed

lemma local_time_calm:
  assumes "quiet D W s" and e: "breakTime (sysTime (clk s)) = Some e"
  obtains s' where "local_time D s
      = Some (s'\<lparr>lg := (lg s)\<lparr>sommerzeit := summer_of D e, unixtime := local_of D (sysTime (clk s)) e\<rparr>\<rparr>)"
    "calm D W s s'"
proof -
  obtain s1 where s1: "ask_clock (year_now (millis D) (timelib_of D)) s
        = Some (tmYearToCalendar (timelib_of D) (Year e), s1)" "calm D W s s1"
    unfolding field_ops by (rule field_calm [OF assms])
  note q1 = calm_quiet [OF s1(2)] and e1 = e [folded calm_fields(7) [OF s1(2)]]
  obtain s2 where s2: "ask_clock (month_now (millis D)) s1 = Some (Month e, s2)" "calm D W s1 s2"
    unfolding field_ops by (rule field_calm [OF q1 e1])
  note q2 = calm_quiet [OF s2(2)] and e2 = e1 [folded calm_fields(7) [OF s2(2)]]
  obtain s3 where s3: "ask_clock (day_now (millis D)) s2 = Some (Day e, s3)" "calm D W s2 s3"
    unfolding field_ops by (rule field_calm [OF q2 e2])
  note q3 = calm_quiet [OF s3(2)] and e3 = e2 [folded calm_fields(7) [OF s3(2)]]
  obtain s4 where s4: "ask_clock (hour_now (millis D)) s3 = Some (Hour e, s4)" "calm D W s3 s4"
    unfolding field_ops by (rule field_calm [OF q3 e3])
  obtain s5 where s5: "ask_clock (now (millis D)) s4 = Some (sysTime (clk s4), s5)" "calm D W s4 s5"
    by (rule now_calm [OF calm_quiet [OF s4(2)]])
  have c: "calm D W s s5" using s1(2) s2(2) s3(2) s4(2) s5(2) by (blast intro: calm_trans)
  have "sysTime (clk s4) = sysTime (clk s)" "lg s5 = lg s"
    using calm_fields(7) [OF s5(2)] calm_fields(7) [OF c] calm_fields(1) [OF c] by simp_all
  then have "local_time D s
      = Some (s5\<lparr>lg := (lg s)\<lparr>sommerzeit := summer_of D e, unixtime := local_of D (sysTime (clk s)) e\<rparr>\<rparr>)"
    by (simp add: local_time_def s1(1) s2(1) s3(1) s4(1) s5(1) summer_of_def local_of_def)
  then show ?thesis using that c by blast
qed

section \<open>The parts of a pass\<close>

lemma every_minute_calm:
  assumes "quiet D W s" and e: "breakTime (sysTime (clk s)) = Some e" and five: "Minute e mod 5 = 0"
    and l: "length (vals (lg s)) = 11"
  obtains s' where "every_minute D C s = every_five_minutes D C s'" "quiet D W s'"
    "sysTime (clk s') = sysTime (clk s)" "length (vals (lg s')) = 11"
    "same_but_ausgabe ((lg s)\<lparr>sommerzeit := summer_of D e, unixtime := local_of D (sysTime (clk s)) e\<rparr>) (lg s')"
proof -
  have i: "9 < length (vals (lg s))" using l by simp
  let ?v = "f32_add (vals (lg s) ! 9) (f32_of_u32 1)"
  obtain l1 where l1: "set_value 9 ?v (lg s) = Some l1" "same_but_ausgabe (lg s) l1" "vals l1 = (vals (lg s))[9 := ?v]"
    by (rule set_valueE [OF i])
  have i1: "9 < length (vals l1)" using l1(3) i by simp
  obtain l2 where l2: "show_value (board D) 9 (f32_decode (vals l1 ! 9)) 0 l1 = Some l2" "same_but_ausgabe l1 l2"
      "vals l2 = vals l1"
    by (rule show_valueE [OF i1])
  let ?s2 = "s\<lparr>lg := l2\<rparr>"
  have q2: "quiet D W ?s2" using assms(1) by simp
  obtain s3 where s3: "local_time D ?s2 = Some (s3\<lparr>lg := (lg ?s2)\<lparr>sommerzeit := summer_of D e,
        unixtime := local_of D (sysTime (clk ?s2)) e\<rparr>\<rparr>)" "calm D W ?s2 s3"
    by (rule local_time_calm [OF q2]) (use e in simp_all)
  let ?s3 = "s3\<lparr>lg := l2\<lparr>sommerzeit := summer_of D e, unixtime := local_of D (sysTime (clk s)) e\<rparr>\<rparr>"
  have q3: "quiet D W ?s3" and e3: "breakTime (sysTime (clk ?s3)) = Some e"
    using calm_quiet [OF s3(2)] calm_fields(7) [OF s3(2)] e by simp_all
  obtain s4 where s4: "ask_clock (minute_now (millis D)) ?s3 = Some (Minute e, s4)" "calm D W ?s3 s4"
    unfolding field_ops by (rule field_calm [OF q3 e3])
  have "every_minute D C s = every_five_minutes D C s4"
    using five l1(1) l2(1) s3(1) s4(1) i i1 by (simp add: every_minute_def get_value_in on_lg_def)
  moreover have "same_but_ausgabe ((lg s)\<lparr>sommerzeit := summer_of D e, unixtime := local_of D (sysTime (clk s)) e\<rparr>)
      (lg s4)"
    using l1(2) l2(2) calm_fields(1) [OF s4(2)] unfolding same_but_ausgabe_def
    by (cases "lg s"; cases l1; cases l2) simp
  moreover have "length (vals (lg s4)) = 11"
    using l l1(3) l2(3) calm_fields(1) [OF s4(2)] by (simp add: vals_def)
  ultimately show ?thesis
    using that calm_quiet [OF s4(2)] calm_fields(7) [OF s4(2)] calm_fields(7) [OF s3(2)] by simp
qed

text \<open>The date is set before the branch for midnight.\<close>

lemma five_minutes_calm:
  assumes "quiet D W s" and el: "breakTime (unixtime (lg s)) = Some el"
  obtains s' where "every_five_minutes D C s
      = Option.bind (if Hour el = 0 \<and> Minute el = 0 then new_day D C s' else same_day D C (unixtime (lg s)) s')
          (show_radio D)"
    "quiet D W s'" "sysTime (clk s') = sysTime (clk s)" "lg s' = (lg s)\<lparr>today := date_in D el\<rparr>"
proof -
  let ?t = "unixtime (lg s)"
  obtain s1 where s1: "date_of D ?t s = Some (date_in D el, s1)" "calm D W s s1"
    by (rule date_calm [OF assms])
  let ?s1 = "s1\<lparr>lg := (lg s)\<lparr>today := date_in D el\<rparr>\<rparr>"
  have q1: "quiet D W ?s1" using calm_quiet [OF s1(2)] by simp
  obtain s2 where s2: "ask_cache hour ?t ?s1 = Some (Hour el, s2)" "calm D W ?s1 s2"
    unfolding field_ops by (rule cache_calm [OF q1 el])
  obtain s3 where s3: "(if Hour el = 0 then ask_cache minute ?t s2 else Some (1, s2))
        = Some (if Hour el = 0 then Minute el else 1, s3)" "calm D W s2 s3"
  proof (cases "Hour el = 0")
    case True
    obtain s3 where "ask_cache minute ?t s2 = Some (Minute el, s3)" "calm D W s2 s3"
      unfolding field_ops by (rule cache_calm [OF calm_quiet [OF s2(2)] el])
    with True that show ?thesis by simp
  next
    case False
    have "calm D W s2 s2" using calm_quiet [OF s2(2)] by (simp add: calm_def)
    with False that show ?thesis by simp
  qed
  have c: "calm D W ?s1 s3" by (rule calm_trans [OF s2(2) s3(2)])
  have "every_five_minutes D C s
      = Option.bind (if Hour el = 0 \<and> Minute el = 0 then new_day D C s3 else same_day D C ?t s3) (show_radio D)"
    using s1(1) s2(1) s3(1) calm_fields(1) [OF s1(2)] by (auto simp: every_five_minutes_def Let_def)
  moreover have "sysTime (clk s3) = sysTime (clk s)"
    using calm_fields(7) [OF c] calm_fields(7) [OF s1(2)] by simp
  ultimately show ?thesis using that calm_quiet [OF c] calm_fields(1) [OF c] by simp
qed

lemma timer_quiet:
  assumes "quiet D W s" and e: "breakTime (sysTime (clk s)) = Some e"
    and wf: "logger_wf (lg s)" and b: "1488 \<le> bufsize (ee (lg s))" and imp: "0 < impulseProKwh (lg s)"
    and m: "m \<le> anzahlMonate" and d: "d \<le> anzahlTage"
    and tm: "date_month (today (lg s)) \<le> anzahlMonate" and td: "date_day (today (lg s)) \<le> anzahlTage"
    and nov: "no_overflow (lg s) m d"
  obtains s1 l e' f where "timer D m d s = Some (s1\<lparr>lg := l\<rparr>)" "calm D W s s1" "logger_wf l"
    "same_but_ausgabe ((credited m d (Hour e * 12 + Minute e div 5) (lg s))\<lparr>ee := e', flash := f\<rparr>) l"
    "bufsize e' = bufsize (ee (lg s))"
    "eeprom_get_u32 ((date_month (today (lg s)) * 31 + date_day (today (lg s))) * 4) e'
       = tagesCounter l ! date_month (today (lg s)) ! date_day (today (lg s))"
proof -
  have v: "Hour e < 24" "Minute e < 60" using breakTime_fields(1) [OF e] by (simp_all add: valid_tm_def)
  obtain s1 where s1: "ask_clock (hour_now (millis D)) s = Some (Hour e, s1)" "calm D W s s1"
    unfolding field_ops by (rule field_calm [OF assms(1) e])
  note e1 = e [folded calm_fields(7) [OF s1(2)]]
  obtain s2 where s2: "ask_clock (minute_now (millis D)) s1 = Some (Minute e, s2)" "calm D W s1 s2"
    unfolding field_ops by (rule field_calm [OF calm_quiet [OF s1(2)] e1])
  have c: "calm D W s s2" by (rule calm_trans [OF s1(2) s2(2)])
  obtain l e' f where l: "FuenfMinutenTimer (board D) (stack_word D (world s2)) (Hour e) (Minute e) m d (lg s) = Some l"
      "same_but_ausgabe ((credited m d (Hour e * 12 + Minute e div 5) (lg s))\<lparr>ee := e', flash := f\<rparr>) l"
      "logger_wf l" "bufsize e' = bufsize (ee (lg s))"
      "eeprom_get_u32 ((date_month (today (lg s)) * 31 + date_day (today (lg s))) * 4) e'
         = tagesCounter l ! date_month (today (lg s)) ! date_day (today (lg s))"
    using meter_timer_ok [OF wf b imp m d v tm td nov, of "board D" "stack_word D (world s2)"] by blast
  have "timer D m d s = Some (s2\<lparr>lg := l\<rparr>)"
    using s1(1) s2(1) l(1) calm_fields(1) [OF c] by (simp add: timer_def on_lg_def)
  then show ?thesis using that c l(2-5) by blast
qed

lemma show_radio_ok:
  assumes "length (vals (lg s)) = 11"
  obtains l where "show_radio D s = Some (s\<lparr>lg := l\<rparr>)" "same_but_ausgabe (lg s) l" "vals l = vals (lg s)"
proof -
  let ?x = "fp_div f64_round (Fin (of_nat (getVcc D (world s)))) (Fin 1000)"
  have i: "7 < length (vals (lg s))" using assms by simp
  obtain l1 where l1: "show_value (board D) 7 ?x 2 (lg s) = Some l1" "same_but_ausgabe (lg s) l1" "vals l1 = vals (lg s)"
    by (rule show_valueE [OF i])
  have i1: "8 < length (vals l1)" using assms l1(3) by simp
  obtain l2 where l2: "show_value (board D) 8 (Fin (of_int (RSSI D (world s)))) 0 l1 = Some l2"
      "same_but_ausgabe l1 l2" "vals l2 = vals l1"
    by (rule show_valueE [OF i1])
  have "show_radio D s = Some (s\<lparr>lg := l2\<rparr>)" using l1(1) l2(1) by (simp add: show_radio_def on_lg_def)
  then show ?thesis using that l1 l2 same_but_ausgabe_trans by metis
qed

text \<open>The second of a pass, and its end.\<close>

definition loop_end :: "('f, 'w) device \<Rightarrow> ('f, 'w) sketch \<Rightarrow> ('f, 'w) sketch" where
  "loop_end D s = (if tickDetected s then (flashLed D True s)\<lparr>tickDetected := False\<rparr> else s)"

lemma flashLed_lg: "lg (flashLed D b s) = lg s" "clk (flashLed D b s) = clk s" "waitTime (flashLed D b s) = waitTime s"
  by (auto simp: flashLed_def read_millis_def split: prod.splits)

lemma loop_end_lg: "lg (loop_end D s) = lg s" by (simp add: loop_end_def flashLed_lg)

lemma flashLed_quiet: "quiet D W s \<Longrightarrow> quiet D W (flashLed D b s)"
  by (auto simp: quiet_def flashLed_def read_millis_def split: prod.splits)

lemma read_millis_quiet:
  assumes "quiet D W s"
  obtains m w where "read_millis D s = (m, s\<lparr>world := w\<rparr>)" "quiet D W (s\<lparr>world := w\<rparr>)"
    "m = fst (millis D (world s))"
proof -
  obtain m w where m: "millis D (world s) = (m, w)" by fastforce
  then have "w \<in> W" using assms unfolding quiet_def by (metis snd_conv)
  with assms have "quiet D W (s\<lparr>world := w\<rparr>)" by (simp add: quiet_def)
  with m show ?thesis by (intro that [of m w]) (simp_all add: read_millis_def)
qed

lemma loop_calm:
  assumes q: "quiet D W s" and e: "breakTime (sysTime (clk s)) = Some e" and z: "Second e = 0"
    and due: "\<forall>w \<in> W. 1000 < fst (millis D w) - waitTime s"
  obtains s' where "loop_sketch D C s = map_option (loop_end D) (every_minute D C s')" "quiet D W s'"
    "lg s' = lg s" "sysTime (clk s') = sysTime (clk s)"
proof -
  let ?s1 = "flashLed D False s"
  obtain m w where m: "read_millis D ?s1 = (m, ?s1\<lparr>world := w\<rparr>)" "quiet D W (?s1\<lparr>world := w\<rparr>)"
      "m = fst (millis D (world ?s1))"
    by (rule read_millis_quiet [OF flashLed_quiet [OF q]])
  have "world ?s1 \<in> W" using flashLed_quiet [OF q] by (simp add: quiet_def)
  then have d: "1000 < m - waitTime (?s1\<lparr>world := w\<rparr>)" using due m(3) by (simp add: flashLed_lg)
  obtain m' w' where m': "read_millis D (?s1\<lparr>world := w\<rparr>) = (m', ?s1\<lparr>world := w'\<rparr>)" "quiet D W (?s1\<lparr>world := w'\<rparr>)"
    by (rule read_millis_quiet [OF m(2)]) simp
  let ?s2 = "(?s1\<lparr>world := w'\<rparr>)\<lparr>waitTime := m', led_builtin := \<not> led_builtin (?s1\<lparr>world := w'\<rparr>)\<rparr>"
  have q2: "quiet D W ?s2" and e2: "breakTime (sysTime (clk ?s2)) = Some e"
    using m'(2) e by (simp_all add: flashLed_lg)
  obtain s3 where s3: "ask_clock (second_now (millis D)) ?s2 = Some (Second e, s3)" "calm D W ?s2 s3"
    unfolding field_ops by (rule field_calm [OF q2 e2])
  have "loop_sketch D C s = Option.bind (every_minute D C s3) (\<lambda>s. Some (loop_end D s))"
    using m(1) d m'(1) s3(1) z by (simp add: loop_sketch_def loop_end_def)
  then have "loop_sketch D C s = map_option (loop_end D) (every_minute D C s3)"
    by (cases "every_minute D C s3") simp_all
  then show ?thesis
    using that calm_quiet [OF s3(2)] calm_fields(1,7) [OF s3(2)] by (simp add: flashLed_lg)
qed

lemma cache_any:
  assumes "cache_ok (clk s)" and "breakTime t = Some e"
  obtains c where "ask_cache (tm_field g) t s = Some (g e, s\<lparr>clk := c\<rparr>)" "cache_ok c"
proof -
  obtain c where "tm_field g t (clk s) = Some (g e, c)" "cache_ok c"
    using tm_field_ok [OF assms(1), of g t] assms(2) by auto
  then show ?thesis using that by (simp add: ask_cache_def)
qed

lemma wf_fields: "logger_wf l \<Longrightarrow> length (fhemHost l) = 4" "logger_wf l \<Longrightarrow> length (vals l) = 11"
  by (simp_all add: logger_wf_def vals_def logger_const_defs)

lemma same_day_ok:
  assumes q: "quiet D W s" and e: "breakTime (sysTime (clk s)) = Some e" and el: "breakTime t = Some el"
    and wf: "logger_wf (lg s)" and b: "1488 \<le> bufsize (ee (lg s))" and imp: "0 < impulseProKwh (lg s)"
    and td: "today (lg s) = date_in D el" and nov: "no_overflow (lg s) (Month el - 1) (Day el - 1)"
    and fhem: "server_answers D C"
  obtains s' l e' f where "same_day D C t s = Some s'"
    "lg s' = (if Hour el = 23 \<and> Minute el = 55 then l\<lparr>yesterday := date_in D el\<rparr> else l)"
    "same_but_ausgabe ((credited (Month el - 1) (Day el - 1) (Hour e * 12 + Minute e div 5) (lg s))
        \<lparr>ee := e', flash := f\<rparr>) l" "logger_wf l"
    "eeprom_get_u32 (((Month el - 1) * 31 + (Day el - 1)) * 4) e' = tagesCounter l ! (Month el - 1) ! (Day el - 1)"
proof -
  have d: "date_month (today (lg s)) = Month el - 1" "date_day (today (lg s)) = Day el - 1"
    using td by (simp_all add: date_in_def)
  have dm: "date_month (today (lg s)) \<le> anzahlMonate" and dd: "date_day (today (lg s)) \<le> anzahlTage"
    using date_in_bounds [OF breakTime_fields(1) [OF el], of D] td by simp_all
  obtain s1 l e' f where l: "timer D (Month el - 1) (Day el - 1) s = Some (s1\<lparr>lg := l\<rparr>)" "calm D W s s1" "logger_wf l"
      "same_but_ausgabe ((credited (Month el - 1) (Day el - 1) (Hour e * 12 + Minute e div 5) (lg s))
        \<lparr>ee := e', flash := f\<rparr>) l"
      "eeprom_get_u32 (((Month el - 1) * 31 + (Day el - 1)) * 4) e' = tagesCounter l ! (Month el - 1) ! (Day el - 1)"
    using timer_quiet [OF q e wf b imp dm dd dm dd nov [folded d]] unfolding d by metis
  obtain w where w: "CreateSensorString D C (s1\<lparr>lg := l\<rparr>) = Some ((s1\<lparr>lg := l\<rparr>)\<lparr>world := w\<rparr>)"
    using CreateSensorString_returns [OF fhem, of "s1\<lparr>lg := l\<rparr>"] wf_fields(1) [OF l(3)] by auto
  let ?s2 = "(s1\<lparr>lg := l\<rparr>)\<lparr>world := w\<rparr>"
  have ck: "cache_ok (clk ?s2)" using calm_quiet [OF l(2)] by (simp add: quiet_def)
  obtain c where c: "ask_cache hour t ?s2 = Some (Hour el, ?s2\<lparr>clk := c\<rparr>)" "cache_ok c"
    unfolding field_ops by (rule cache_any [OF ck el])
  obtain c' where c': "(if Hour el = 23 then ask_cache minute t (?s2\<lparr>clk := c\<rparr>) else Some (0, ?s2\<lparr>clk := c\<rparr>))
      = Some (if Hour el = 23 then Minute el else 0, ?s2\<lparr>clk := c'\<rparr>)"
  proof (cases "Hour el = 23")
    case True
    obtain c' where "ask_cache minute t (?s2\<lparr>clk := c\<rparr>) = Some (Minute el, (?s2\<lparr>clk := c\<rparr>)\<lparr>clk := c'\<rparr>)"
      unfolding field_ops by (rule cache_any [of "?s2\<lparr>clk := c\<rparr>" t el]) (use c(2) el in simp_all)
    with True that show ?thesis by simp
  qed (use that in simp)
  have "today l = date_in D el" using same_but_ausgabe_fields [OF l(4)] td by (simp add: credited_def)
  then show ?thesis
    using that [OF _ _ l(4,3,5), of "if Hour el = 23 \<and> Minute el = 55 then (?s2\<lparr>clk := c'\<rparr>)\<lparr>lg := l\<lparr>yesterday := date_in D el\<rparr>\<rparr>
        else ?s2\<lparr>clk := c'\<rparr>"]
      l(1) w c(1) c' d by (simp add: same_day_def Let_def)
qed

section \<open>Properties\<close>

definition five_minute_pass :: "('f, 'w) device \<Rightarrow> 'w set \<Rightarrow> ('f, 'w) sketch \<Rightarrow> tmElements \<Rightarrow> tmElements \<Rightarrow> bool" where
  "five_minute_pass D W s e el \<longleftrightarrow> quiet D W s \<and> (\<forall>w \<in> W. 1000 < fst (millis D w) - waitTime s)
     \<and> breakTime (sysTime (clk s)) = Some e \<and> Second e = 0 \<and> Minute e mod 5 = 0
     \<and> breakTime (local_of D (sysTime (clk s)) e) = Some el"

lemma same_but_ausgabe_time:
  "same_but_ausgabe l l' \<Longrightarrow> unixtime l' = unixtime l \<and> sommerzeit l' = sommerzeit l"
  unfolding same_but_ausgabe_def by (cases l; cases l') simp

text \<open>A pass in which a fifth minute begins is one of the two branches.\<close>

lemma pass_calm:
  assumes "five_minute_pass D W s e el" and l: "logger_wf (lg s)"
  obtains s' where "loop_sketch D C s = map_option (loop_end D) (Option.bind
        (if Hour el = 0 \<and> Minute el = 0 then new_day D C s'
         else same_day D C (local_of D (sysTime (clk s)) e) s') (show_radio D))"
    "quiet D W s'" "breakTime (sysTime (clk s')) = Some e" "length (vals (lg s')) = 11"
    "same_but_ausgabe ((lg s)\<lparr>sommerzeit := summer_of D e, unixtime := local_of D (sysTime (clk s)) e,
        today := date_in D el\<rparr>) (lg s')" "logger_wf (lg s')"
proof -
  let ?t = "local_of D (sysTime (clk s)) e"
  have q: "quiet D W s" and due: "\<forall>w \<in> W. 1000 < fst (millis D w) - waitTime s"
    and e: "breakTime (sysTime (clk s)) = Some e" "Second e = 0" "Minute e mod 5 = 0"
    and el: "breakTime ?t = Some el"
    using assms(1) by (simp_all add: five_minute_pass_def)
  obtain s1 where s1: "loop_sketch D C s = map_option (loop_end D) (every_minute D C s1)" "quiet D W s1"
      "lg s1 = lg s" "sysTime (clk s1) = sysTime (clk s)"
    by (rule loop_calm [OF q e(1,2) due])
  have e1: "breakTime (sysTime (clk s1)) = Some e" and v1: "length (vals (lg s1)) = 11"
    using e(1) s1(3,4) wf_fields(2) [OF l] by simp_all
  obtain s2 where s2: "every_minute D C s1 = every_five_minutes D C s2" "quiet D W s2"
      "sysTime (clk s2) = sysTime (clk s1)" "length (vals (lg s2)) = 11"
      "same_but_ausgabe ((lg s1)\<lparr>sommerzeit := summer_of D e, unixtime := local_of D (sysTime (clk s1)) e\<rparr>) (lg s2)"
    by (rule every_minute_calm [OF s1(2) e1 e(3) v1])
  have u: "unixtime (lg s2) = ?t"
    using same_but_ausgabe_time [OF s2(5)] s1(4) by simp
  have el2: "breakTime (unixtime (lg s2)) = Some el" using el u by simp
  obtain s3 where s3: "every_five_minutes D C s2 = Option.bind
        (if Hour el = 0 \<and> Minute el = 0 then new_day D C s3 else same_day D C (unixtime (lg s2)) s3) (show_radio D)"
      "quiet D W s3" "sysTime (clk s3) = sysTime (clk s2)" "lg s3 = (lg s2)\<lparr>today := date_in D el\<rparr>"
    by (rule five_minutes_calm [OF s2(2) el2])
  have r: "same_but_ausgabe ((lg s)\<lparr>sommerzeit := summer_of D e, unixtime := ?t, today := date_in D el\<rparr>) (lg s3)"
    using s2(5) s3(4) s1(3,4) unfolding same_but_ausgabe_def by (cases "lg s"; cases "lg s2") simp
  have v3: "length (vals (lg s3)) = 11" using s2(4) s3(4) by (simp add: vals_def)
  have "logger_wf ((lg s)\<lparr>sommerzeit := summer_of D e, unixtime := ?t, today := date_in D el\<rparr>)"
    using l by (simp add: logger_wf_def)
  from wf_same_but_ausgabe [OF this r v3] have "logger_wf (lg s3)" .
  then show ?thesis
    using that [OF _ s3(2) _ v3 r] s1(1) s2(1) s3(1,3) e1 s2(3) u by simp
qed


text \<open>A device for the witnesses: its server has one line to send at every other question.\<close>

definition demo_device :: "(nat \<Rightarrow> u8, bool) device" where
  "demo_device = \<lparr>board = demo_board, timelib_of = timelib_doc, millis = (\<lambda>w. (5000, w)),
     file_write = (\<lambda>p m x w. w), getVcc = (\<lambda>w. 3000), RSSI = (\<lambda>w. -60), localIP = (\<lambda>w. ''10.0.0.7''),
     stack_word = (\<lambda>w. 0)\<rparr>"

definition demo_client :: "bool tcp_class" where
  "demo_client = \<lparr>tcp_connect = (\<lambda>h p w. (True, w)), tcp_print = (\<lambda>x w. w),
     tcp_available = (\<lambda>w. (if w then 1 else 0, True)), tcp_readStringUntil = (\<lambda>c w. ([], False)),
     tcp_flush = (\<lambda>w. w), tcp_stop = (\<lambda>w. w)\<rparr>"

definition demo_sketch :: "u32 \<Rightarrow> (nat \<Rightarrow> u8, bool) sketch" where
  "demo_sketch n = \<lparr>lg = demo_logger,
     clk = clock_init\<lparr>sysTime := n, prevMillis := 4500, nextSyncTime := n + 100,
       tm := \<lparr>Second = 0, Minute = 0, Hour = 0, Wday = 5, Day = 1, Month = 1, Year = 0\<rparr>\<rparr>,
     world = True, waitTime = 0, previousMillis = 0, tickDetected = True, led_builtin = True, led_pin1 = False\<rparr>"

lemma demo_server_answers: "server_answers demo_device demo_client"
proof -
  have a: "fhem_answer demo_client b w \<noteq> None" for b w
    by (cases w) (auto simp: demo_client_def fhem_answer.simps [of _ b True] fhem_answer.simps [of _ b False]
        fhem_answer.simps [of _ True False])
  have "fhem_wait (millis demo_device) demo_client t w \<noteq> None" for t w
    by (cases w) (auto simp: demo_client_def demo_device_def fhem_wait.simps [of _ _ _ True] fhem_wait.simps [of _ _ _ False])
  with a show ?thesis by (simp add: server_answers_def)
qed

lemmas breakTime_eval = breakTime_def Let_def year_loop.simps month_loop.simps to_u32_def to_u8_def sub32_def
  yearDays_def LEAP_YEAR_def monthLength_def monthDays_def

lemma demo_quiet: "n < n + 100 \<Longrightarrow> quiet demo_device UNIV (demo_sketch n)"
  by (simp add: quiet_def demo_device_def demo_sketch_def clock_init_def cache_ok_def breakTime_eval)


end
