(* ===== verification/Logger_Midnight.thy ===== *)
theory Logger_Midnight
  imports Logger_Loop
begin

text \<open>
  The change of the day (the midnight branch of \<open>src/loop.ino\<close>, lines 47 to 74): what the first pass
  of a day does to the counters, and what it does in January, where the code takes every midnight
  for the change of the year. The backup of the year (\<open>src/functions.ino\<close>, lines 150 to 176) is read
  back from its text, and once the EEPROM has been released it holds one stack word 372 times.
\<close>

section \<open>Clearing and backing up\<close>

lemma tc_set_row:
  assumes "m < length (tagesCounter l)" "i < length (tagesCounter l ! m)"
  shows "tc_set l m i v = Some (l\<lparr>tagesCounter := (tagesCounter l)[m := (tagesCounter l ! m)[i := v]]\<rparr>)"
  using assms by (simp add: tc_set_def)

lemma clear_days_row:
  assumes "m < length (tagesCounter l)" "n \<le> length (tagesCounter l ! m)"
  shows "clear_days m [k..<n] l = Some (l\<lparr>tagesCounter := (tagesCounter l)
            [m := map (\<lambda>i. if k \<le> i \<and> i < n then 0 else tagesCounter l ! m ! i) [0..<length (tagesCounter l ! m)]]\<rparr>)"
  using assms
proof (induction "n - k" arbitrary: k l)
  case 0
  then have "map (\<lambda>i. if k \<le> i \<and> i < n then 0 else tagesCounter l ! m ! i) [0..<length (tagesCounter l ! m)]
      = tagesCounter l ! m"
    by (intro nth_equalityI) auto
  with 0 show ?case by simp
next
  case (Suc d)
  let ?l = "l\<lparr>tagesCounter := (tagesCounter l)[m := (tagesCounter l ! m)[k := 0]]\<rparr>"
  have k: "k < n" and d: "d = n - Suc k" using Suc.hyps(2) by simp_all
  have s: "tc_set l m k 0 = Some ?l" by (rule tc_set_row) (use Suc.prems k in simp_all)
  have row: "map (\<lambda>i. if Suc k \<le> i \<and> i < n then 0 else (tagesCounter l ! m)[k := 0] ! i) [0..<length (tagesCounter l ! m)]
      = map (\<lambda>i. if k \<le> i \<and> i < n then 0 else tagesCounter l ! m ! i) [0..<length (tagesCounter l ! m)]"
    using k Suc.prems by (intro map_cong) (auto simp: nth_list_update)
  have "clear_days m [Suc k..<n] ?l = Some (?l\<lparr>tagesCounter := (tagesCounter ?l)
            [m := map (\<lambda>i. if Suc k \<le> i \<and> i < n then 0 else tagesCounter ?l ! m ! i) [0..<length (tagesCounter ?l ! m)]]\<rparr>)"
    by (rule Suc.hyps(1) [OF d]) (use Suc.prems in simp_all)
  then show ?case using Suc.prems k s row by (simp add: upt_conv_Cons cong: if_cong)
qed

lemma clear_days_month:
  assumes "logger_wf l" and "m \<le> anzahlMonate"
  shows "clear_days m [0..<anzahlTage + 1] l
    = Some (l\<lparr>tagesCounter := (tagesCounter l)[m := replicate 31 0]\<rparr>)"
proof -
  have r: "m < length (tagesCounter l)" "length (tagesCounter l ! m) = 31"
    using assms by (auto simp: logger_wf_def logger_const_defs)
  then have "map (\<lambda>i. if 0 \<le> i \<and> i < anzahlTage + 1 then 0 else tagesCounter l ! m ! i) [0..<length (tagesCounter l ! m)]
      = replicate 31 0"
    by (intro nth_equalityI) (auto simp: logger_const_defs)
  then show ?thesis using clear_days_row [OF r(1), of "anzahlTage + 1" 0] r(2) by (simp add: logger_const_defs)
qed

text \<open>An \<open>EEPROM.get\<close> never fails; the words the backup prints.\<close>

lemma eeprom_get_total:
  assumes "eeprom_wf e"
  obtains bs where "eeprom_get a (le32 v) e = Some bs"
proof -
  have "\<exists>bs. eeprom_get a (le32 v) e = Some bs"
    using assms by (cases rule: eeprom_wf_cases) (auto simp: eeprom_get_def le32_def)
  then show ?thesis using that by blast
qed

lemma backup_days_returns: "eeprom_wf e \<Longrightarrow> \<exists>r. backup_days j is tmp e = Some r"
proof (induction "is" arbitrary: tmp)
  case (Cons i "is")
  obtain bs where bs: "eeprom_get (eeAddress j i) (le32 tmp) e = Some bs"
    by (rule eeprom_get_total [OF Cons.prems])
  obtain line tmp' where "backup_days j is (of_le32 bs) e = Some (line, tmp')"
    using Cons.IH [OF Cons.prems, of "of_le32 bs"] by auto
  with bs show ?case by simp
qed auto

lemma backup_months_returns: "eeprom_wf e \<Longrightarrow> \<exists>lines. backup_months js tmp e = Some lines"
proof (induction js arbitrary: tmp)
  case (Cons j js)
  obtain line tmp' where l: "backup_days j [0..<anzahlTage + 1] tmp e = Some (line, tmp')"
    using backup_days_returns [OF Cons.prems, of j "[0..<anzahlTage + 1]" tmp] by (metis surj_pair)
  obtain lines where "backup_months js tmp' e = Some lines" using Cons.IH [OF Cons.prems, of tmp'] by auto
  then show ?case by (simp only: backup_months.simps l) simp
qed auto

lemma backup2file_returns:
  assumes "eeprom_wf (ee (lg s))"
  obtains w where "backup2file D s = Some (s\<lparr>world := w\<rparr>)"
  using backup_months_returns [OF assms, of "[0..<anzahlMonate + 1]" "stack_word D (world s)"] that
  by (auto simp: backup2file_def on_world_def)

section \<open>The new day\<close>

lemma new_day_start:
  assumes q: "quiet D W s" and e: "breakTime (sysTime (clk s)) = Some e"
    and wf: "logger_wf (lg s)" and b: "1520 \<le> bufsize (ee (lg s))" and imp: "0 < impulseProKwh (lg s)"
    and y: "date_month (yesterday (lg s)) \<le> anzahlMonate" "date_day (yesterday (lg s)) \<le> anzahlTage"
    and td: "date_month (today (lg s)) \<le> anzahlMonate" "date_day (today (lg s)) \<le> anzahlTage"
    and nov: "no_overflow (lg s) (date_month (yesterday (lg s))) (date_day (yesterday (lg s)))"
    and fhem: "server_answers D C"
  defines "m \<equiv> date_month (yesterday (lg s))" and "d \<equiv> date_day (yesterday (lg s))"
  obtains s1 l s2 s2' e' f where "timer D m d s = Some s1"
    "on_lg (putEeprom (board D) (stack_word D (world s1)) m d) s1 = Some s2"
    "CreateSensorString D C s2 = Some s2'" "lg s2' = l"
    "same_but_ausgabe ((credited m d (Hour e * 12 + Minute e div 5) (lg s))\<lparr>ee := e', flash := f\<rparr>) l"
    "logger_wf l" "1520 \<le> bufsize e'" "eeprom_get_u32 ((m * 31 + d) * 4) e' = tagesCounter l ! m ! d"
proof -
  have b': "1488 \<le> bufsize (ee (lg s))" using b by simp
  obtain s1 l1 e1 f1 where l1: "timer D m d s = Some (s1\<lparr>lg := l1\<rparr>)" "logger_wf l1"
      "same_but_ausgabe ((credited m d (Hour e * 12 + Minute e div 5) (lg s))\<lparr>ee := e1, flash := f1\<rparr>) l1"
      "bufsize e1 = bufsize (ee (lg s))"
    using timer_quiet [OF q e wf b' imp y td nov] unfolding m_def d_def by metis
  have e1: "ee l1 = e1" using same_but_ausgabe_fields [OF l1(3)] by simp
  have b1: "1488 \<le> bufsize (ee l1)" using e1 l1(4) b by simp
  obtain e2 f2 where p: "putEeprom (board D) (stack_word D (world s1)) m d l1 = Some (l1\<lparr>ee := e2, flash := f2\<rparr>)"
      "eeprom_wf e2" "bufsize e2 = bufsize (ee l1)"
      "eeprom_get_u32 ((m * 31 + d) * 4) e2 = tagesCounter l1 ! m ! d"
    using putEeprom_spec [OF l1(2) b1 y [folded m_def d_def], of "board D" "stack_word D (world s1)"] by blast
  let ?l2 = "l1\<lparr>ee := e2, flash := f2\<rparr>"
  have w2: "logger_wf ?l2" using l1(2) p(2) by (simp add: logger_wf_def)
  obtain w where w: "CreateSensorString D C (s1\<lparr>lg := ?l2\<rparr>) = Some ((s1\<lparr>lg := ?l2\<rparr>)\<lparr>world := w\<rparr>)"
    using CreateSensorString_returns [OF fhem, of "s1\<lparr>lg := ?l2\<rparr>"] wf_fields(1) [OF w2] by auto
  have "same_but_ausgabe ((credited m d (Hour e * 12 + Minute e div 5) (lg s))\<lparr>ee := e2, flash := f2\<rparr>) ?l2"
    using l1(3) unfolding same_but_ausgabe_def by (cases l1) simp
  then show ?thesis
    using that [OF l1(1) _ w refl] p w2 e1 l1(4) b by (simp add: on_lg_def)
qed

text \<open>What follows the report works on the logger and, in January, on the backup file.\<close>

definition month_cleared :: "'f logger \<Rightarrow> u32 list list" where
  "month_cleared l = (if date_day (today l) = 0 then (tagesCounter l)[date_month (today l) := replicate 31 0]
     else tagesCounter l)"

lemma day_reset:
  assumes wf: "logger_wf l" and td: "date_month (today l) \<le> anzahlMonate"
  obtains l' where "new_counters l = Some l'"
    "same_but_ausgabe (l\<lparr>fuenfMinutenZaehler := replicate 288 0, tagesCounter := month_cleared l\<rparr>) l'"
    "length (vals l') = 11" "vals l' ! 0 = 0" "vals l' ! 5 = 0" "logger_wf l'"
proof -
  let ?l0 = "l\<lparr>fuenfMinutenZaehler := map (\<lambda>_. 0) (fuenfMinutenZaehler l)\<rparr>"
  have v: "length (vals ?l0) = 11" using wf_fields(2) [OF wf] by (simp add: vals_def)
  have r: "map (\<lambda>_. 0) (fuenfMinutenZaehler l) = replicate 288 0"
    using wf by (intro nth_equalityI) (auto simp: logger_wf_def)
  obtain l1 where l1: "set_value 0 0 ?l0 = Some l1" "same_but_ausgabe ?l0 l1" "vals l1 = (vals ?l0)[0 := 0]"
    by (rule set_valueE [of 0 ?l0 0]) (use v in auto)
  obtain l2 where l2: "set_value 5 0 l1 = Some l2" "same_but_ausgabe l1 l2" "vals l2 = (vals l1)[5 := 0]"
    by (rule set_valueE [of 5 l1 0]) (use v l1(3) in auto)
  have s2: "same_but_ausgabe ?l0 l2" by (rule same_but_ausgabe_trans [OF l1(2) l2(2)])
  note f2 = same_but_ausgabe_fields [OF s2, simplified]
  have v2: "length (vals l2) = 11" "vals l2 ! 0 = 0" "vals l2 ! 5 = 0" using v l1(3) l2(3) by simp_all
  have w0: "logger_wf ?l0" using wf by (simp add: logger_wf_def)
  have w2: "logger_wf l2" by (rule wf_same_but_ausgabe [OF w0 s2 v2(1)])
  show ?thesis
  proof (cases "date_day (today l) = 0")
    case False
    have "same_but_ausgabe (l\<lparr>fuenfMinutenZaehler := replicate 288 0, tagesCounter := month_cleared l\<rparr>) l2"
      using s2 False r unfolding same_but_ausgabe_def month_cleared_def by (cases l; cases l2) simp
    then show ?thesis using that [OF _ _ v2 w2] l1(1) l2(1) False f2 by (simp add: new_counters_def)
  next
    case True
    let ?T = "(tagesCounter l)[date_month (today l) := replicate 31 0]"
    have c: "clear_days (date_month (today l2)) [0..<anzahlTage + 1] l2 = Some (l2\<lparr>tagesCounter := ?T\<rparr>)"
      using clear_days_month [OF w2, of "date_month (today l2)"] td f2 by simp
    have v3: "length (vals (l2\<lparr>tagesCounter := ?T\<rparr>)) = 11" using v2 by (simp add: vals_def)
    obtain l4 where l4: "set_value 1 0 (l2\<lparr>tagesCounter := ?T\<rparr>) = Some l4"
        "same_but_ausgabe (l2\<lparr>tagesCounter := ?T\<rparr>) l4" "vals l4 = (vals (l2\<lparr>tagesCounter := ?T\<rparr>))[1 := 0]"
      by (rule set_valueE [of 1 "l2\<lparr>tagesCounter := ?T\<rparr>" 0]) (use v3 in auto)
    have s4: "same_but_ausgabe (l\<lparr>fuenfMinutenZaehler := replicate 288 0, tagesCounter := month_cleared l\<rparr>) l4"
      using s2 l4(2) True r unfolding same_but_ausgabe_def month_cleared_def by (cases l; cases l2; cases l4) simp
    have v4: "length (vals l4) = 11" "vals l4 ! 0 = 0" "vals l4 ! 5 = 0"
      using v2 l4(3) by (simp_all add: vals_def)
    have "logger_wf (l2\<lparr>tagesCounter := ?T\<rparr>)"
      using w2 wf by (auto simp: logger_wf_def logger_const_defs dest!: set_update_subset_insert [THEN subsetD])
    from wf_same_but_ausgabe [OF this l4(2) v4(1)] have w4: "logger_wf l4" .
    show ?thesis using that [OF _ s4 v4 w4] l1(1) l2(1) True f2 c l4(1) by (simp add: new_counters_def)
  qed
qed

lemma new_day_ok:
  assumes q: "quiet D W s" and e: "breakTime (sysTime (clk s)) = Some e"
    and wf: "logger_wf (lg s)" and b: "1520 \<le> bufsize (ee (lg s))" and imp: "0 < impulseProKwh (lg s)"
    and y: "date_month (yesterday (lg s)) \<le> anzahlMonate" "date_day (yesterday (lg s)) \<le> anzahlTage"
    and td: "date_month (today (lg s)) \<le> anzahlMonate" "date_day (today (lg s)) \<le> anzahlTage"
    and nov: "no_overflow (lg s) (date_month (yesterday (lg s))) (date_day (yesterday (lg s)))"
    and fhem: "server_answers D C"
  defines "m \<equiv> date_month (yesterday (lg s))" and "d \<equiv> date_day (yesterday (lg s))"
  obtains s' where "new_day D C s = Some s'" "logger_wf (lg s')" "counter (lg s') = 0"
    "fuenfMinutenZaehler (lg s') = replicate 288 0" "vals (lg s') ! 0 = 0" "vals (lg s') ! 5 = 0"
    "today (lg s') = today (lg s)"
    "tagesCounter (lg s') = month_cleared (credited m d 0 (lg s))"
    "if date_month (today (lg s)) = 0 then bufsize (ee (lg s')) = 0
     else eeprom_get_u32 ((m * 31 + d) * 4) (ee (lg s')) = tagesCounter (credited m d 0 (lg s)) ! m ! d"
proof -
  let ?i = "Hour e * 12 + Minute e div 5"
  obtain s1 l s2 s2' e' f where a: "timer D m d s = Some s1"
      "on_lg (putEeprom (board D) (stack_word D (world s1)) m d) s1 = Some s2"
      "CreateSensorString D C s2 = Some s2'" "lg s2' = l"
      "same_but_ausgabe ((credited m d ?i (lg s))\<lparr>ee := e', flash := f\<rparr>) l"
      "logger_wf l" "1520 \<le> bufsize e'" "eeprom_get_u32 ((m * 31 + d) * 4) e' = tagesCounter l ! m ! d"
    using new_day_start [OF q e wf b imp y td nov fhem] unfolding m_def d_def by metis
  note fa = same_but_ausgabe_fields [OF a(5), unfolded credited_def, simplified]
  have td': "date_month (today l) \<le> anzahlMonate" using td fa by simp
  obtain l' where l': "new_counters l = Some l'"
    "same_but_ausgabe (l\<lparr>fuenfMinutenZaehler := replicate 288 0, tagesCounter := month_cleared l\<rparr>) l'"
    "length (vals l') = 11" "vals l' ! 0 = 0" "vals l' ! 5 = 0" "logger_wf l'"
    by (rule day_reset [OF a(6) td'])
  note f' = same_but_ausgabe_fields [OF l'(2), simplified]
  let ?s3 = "s2'\<lparr>lg := l'\<rparr>"
  have run: "new_day D C s = (if date_month (today l') = 0 then do {
       s \<leftarrow> backup2file D ?s3;
       s \<leftarrow> on_lg (deleteEEPROM (board D)) s;
       on_lg (set_value 2 0) s } else Some ?s3)"
    using a(1-4) l'(1) unfolding m_def d_def new_day_def Let_def
    by (simp add: on_lg_def [of new_counters])
  have T: "month_cleared l = month_cleared (credited m d 0 (lg s))"
    using fa by (simp add: month_cleared_def credited_def)
  have C: "tagesCounter (credited m d 0 (lg s)) = tagesCounter l" using fa by (simp add: credited_def)
  show ?thesis
  proof (cases "date_month (today (lg s)) = 0")
    case False
    then show ?thesis using that [of ?s3] run l' f' fa T C a(8) by simp
  next
    case True
    obtain w where w: "backup2file D ?s3 = Some (?s3\<lparr>world := w\<rparr>)"
      by (rule backup2file_returns [where s = ?s3 and D = D]) (use l'(6) in \<open>auto simp: logger_wf_def\<close>)
    have b': "bufsize (ee l') = 0 \<or> 1520 \<le> bufsize (ee l')" using f' fa a(7) by simp
    obtain e2 f2 where d: "deleteEEPROM (board D) l' = Some (l'\<lparr>ee := e2, flash := f2\<rparr>)" "bufsize e2 = 0" "eeprom_wf e2"
      by (rule deleteEEPROM_ends [OF l'(6) b'])
    let ?l3 = "l'\<lparr>ee := e2, flash := f2\<rparr>"
    have v3: "vals ?l3 = vals l'" by (simp add: vals_def)
    obtain l4 where l4: "set_value 2 0 ?l3 = Some l4" "same_but_ausgabe ?l3 l4" "vals l4 = (vals ?l3)[2 := 0]"
      by (rule set_valueE [of 2 ?l3 0]) (use v3 l'(3) in auto)
    note f4 = same_but_ausgabe_fields [OF l4(2), simplified]
    have "logger_wf ?l3" using l'(6) d(3) by (simp add: logger_wf_def)
    from wf_same_but_ausgabe [OF this l4(2)] have w4: "logger_wf l4" using l4(3) v3 l'(3) by simp
    have "new_day D C s = Some ((?s3\<lparr>world := w\<rparr>)\<lparr>lg := l4\<rparr>)"
      using run True f' fa w d(1) l4(1) by (simp add: on_lg_def)
    then show ?thesis
      using that [of "(?s3\<lparr>world := w\<rparr>)\<lparr>lg := l4\<rparr>"] True w4 f4 f' fa l4(3) v3 l'(3-5) d(2) T by simp
  qed
qed

section \<open>Reading the backup\<close>

text \<open>The numbers of a text: its maximal runs of digits.\<close>

fun numbers :: "nat option \<Rightarrow> string \<Rightarrow> nat list" where
  "numbers acc [] = (case acc of None \<Rightarrow> [] | Some n \<Rightarrow> [n])"
| "numbers acc (c # s) = (case digit_value c of
     Some d \<Rightarrow> numbers (Some (case acc of None \<Rightarrow> d | Some n \<Rightarrow> n * 10 + d)) s
   | None \<Rightarrow> (case acc of None \<Rightarrow> numbers None s | Some n \<Rightarrow> n # numbers None s))"

text \<open>Word \<open>(j, i)\<close> of the EEPROM as \<open>EEPROM.get\<close> finds it: past the end the variable keeps its value.\<close>

definition word_found :: "eeprom \<Rightarrow> u32 \<Rightarrow> nat \<Rightarrow> nat \<Rightarrow> u32" where
  "word_found e tmp j i = (if bufsize e = 0 then tmp else eeprom_get_u32 ((j * 31 + i) * 4) e)"

lemma get_word_found:
  assumes "eeprom_wf e" "bufsize e = 0 \<or> 1488 \<le> bufsize e" "j \<le> anzahlMonate" "i \<le> anzahlTage"
  shows "\<exists>bs. eeprom_get (eeAddress j i) (le32 tmp) e = Some bs \<and> of_le32 bs = word_found e tmp j i"
proof (cases "bufsize e = 0")
  case True
  then have "eeprom_get (eeAddress j i) (le32 tmp) e = Some (le32 tmp)" by (simp add: eeprom_get_def)
  then show ?thesis using True of_le32_le32 [of tmp] unfolding word_found_def by auto
next
  case False
  then have a: "(j * 31 + i) * 4 + 4 \<le> bufsize e" using assms(2) eeAddress_range [OF assms(3,4)] by simp
  have "length (le32 tmp) = 4" by (simp add: le32_def)
  then show ?thesis
    using put_get_u32(2) [OF assms(1) a, of "le32 tmp"] False by (auto simp: eeAddress_nat word_found_def)
qed

lemma numbers_digits:
  "\<forall>c \<in> set ds. digit_value c \<noteq> None \<Longrightarrow> digit_value x = None
     \<Longrightarrow> numbers (Some n) (ds @ x # s) = digits_value n ds # numbers None s"
  by (induction ds arbitrary: n) auto

lemma numbers_decimal:
  assumes "digit_value x = None"
  shows "numbers None (decimal n @ x # s) = n # numbers None s"
proof -
  obtain c ds where d: "decimal n = c # ds" using decimal_nonempty by (meson list.exhaust)
  have g: "\<forall>c \<in> set (c # ds). digit_value c \<noteq> None" using decimal_digits [of n] d by simp
  then obtain k where k: "digit_value c = Some k" by auto
  have "numbers None ((c # ds) @ x # s) = digits_value k ds # numbers None s"
    using numbers_digits [of ds x k s] g k assms by simp
  also have "digits_value k ds = n" using digits_value_decimal [of n] d k by simp
  finally show ?thesis using d by simp
qed

lemma no_digit: "digit_value CHR '','' = None" "digit_value CHR 0x0D = None" "digit_value CHR 0x0A = None"
  by (simp_all add: digit_value_def)

lemma backup_days_numbers:
  assumes w: "eeprom_wf e" "bufsize e = 0 \<or> 1488 \<le> bufsize e" and j: "j \<le> anzahlMonate" and k: "k \<le> 31"
  shows "\<exists>line tmp'. backup_days j [k..<31] tmp e = Some (line, tmp') \<and> word_found e tmp' = word_found e tmp
     \<and> (\<forall>s. numbers None (line @ EOL @ s) = map (\<lambda>i. unat (word_found e tmp j i)) [k..<31] @ numbers None s)"
  using k
proof (induction "31 - k" arbitrary: k tmp)
  case 0
  then show ?case by (simp add: EOL_def no_digit)
next
  case (Suc n)
  then have k: "k < 31" "n = 31 - Suc k" "Suc k \<le> 31" by simp_all
  let ?w = "word_found e tmp j k"
  obtain bs where bs: "eeprom_get (eeAddress j k) (le32 tmp) e = Some bs" "of_le32 bs = ?w"
    using get_word_found [OF w j, of k tmp] k(1) by (auto simp: anzahlTage_def)
  have same: "word_found e ?w = word_found e tmp" by (intro ext) (simp add: word_found_def)
  obtain line tmp' where l: "backup_days j [Suc k..<31] ?w e = Some (line, tmp')" "word_found e tmp' = word_found e tmp"
      "\<And>s. numbers None (line @ EOL @ s) = map (\<lambda>i. unat (word_found e tmp j i)) [Suc k..<31] @ numbers None s"
    using Suc.hyps(1) [OF k(2,3), of ?w] unfolding same by blast
  let ?line = "decimal (unat ?w) @ (if k < anzahlTage then '','' else []) @ line"
  have u: "[k..<31] = k # [Suc k..<31]" by (rule upt_conv_Cons [OF k(1)])
  have r: "backup_days j [k..<31] tmp e = Some (?line, tmp')"
    unfolding u backup_days.simps using bs l(1) by simp
  have "numbers None (?line @ EOL @ s) = unat ?w # numbers None (line @ EOL @ s)" for s
  proof (cases "k < anzahlTage")
    case True
    then show ?thesis using numbers_decimal [OF no_digit(1)] by simp
  next
    case False
    then have "k = 30" using k(1) by (simp add: anzahlTage_def)
    then have "line = []" using l(1) by simp
    then show ?thesis using False by (simp add: EOL_def numbers_decimal no_digit)
  qed
  then have "numbers None (?line @ EOL @ s) = map (\<lambda>i. unat (word_found e tmp j i)) [k..<31] @ numbers None s" for s
    unfolding u using l(3) by simp
  with r l(2) show ?case by blast
qed

definition month_numbers :: "eeprom \<Rightarrow> u32 \<Rightarrow> nat \<Rightarrow> nat list" where
  "month_numbers e tmp j = (j + 1) # map (\<lambda>i. unat (word_found e tmp j i)) [0..<31]"

lemma backup_months_numbers:
  assumes w: "eeprom_wf e" "bufsize e = 0 \<or> 1488 \<le> bufsize e" and "\<forall>j \<in> set js. j \<le> anzahlMonate"
  shows "\<exists>lines. backup_months js tmp e = Some lines \<and> numbers None lines = concat (map (month_numbers e tmp) js)"
  using assms(3)
proof (induction js arbitrary: tmp)
  case (Cons j js)
  then have j: "j \<le> anzahlMonate" "\<forall>j \<in> set js. j \<le> anzahlMonate" by simp_all
  obtain line tmp' where l: "backup_days j [0..<31] tmp e = Some (line, tmp')" "word_found e tmp' = word_found e tmp"
      "\<And>s. numbers None (line @ EOL @ s) = map (\<lambda>i. unat (word_found e tmp j i)) [0..<31] @ numbers None s"
    using backup_days_numbers [OF w j(1), of 0 tmp] by blast
  have same: "month_numbers e tmp' = month_numbers e tmp" unfolding month_numbers_def l(2) ..
  obtain lines where ls: "backup_months js tmp' e = Some lines"
      "numbers None lines = concat (map (month_numbers e tmp) js)"
    using Cons.IH [OF j(2), of tmp'] unfolding same by blast
  have n: "anzahlTage + 1 = 31" by (simp add: anzahlTage_def)
  have "numbers None (decimal (j + 1) @ '','' @ line @ EOL @ lines)
      = (j + 1) # map (\<lambda>i. unat (word_found e tmp j i)) [0..<31] @ numbers None lines"
    using numbers_decimal [OF no_digit(1), of "j + 1"] l(3) by simp
  then show ?case
    unfolding backup_months.simps n l(1) using ls by (simp add: month_numbers_def [of e tmp j] del: upt_Suc upt_rec_numeral)
qed simp

section \<open>Properties\<close>



text \<open>C29: the numbers in the text written to the backup file are, month after month, the month and
  its 31 day words of the EEPROM. When the EEPROM has been released, as after a midnight in January,
  all 372 of them are the word the stack happened to hold, and the file of the year is
  overwritten with them.\<close>

theorem backup_readable:
  assumes "eeprom_wf (ee (lg s))" and "bufsize (ee (lg s)) = 0 \<or> 1488 \<le> bufsize (ee (lg s))"
  shows "\<exists>lines. backup2file D s = Some (on_world (file_write D ''/backup.csv'' ''w+'' lines) s)
     \<and> numbers None lines = concat (map (\<lambda>j. (j + 1) # map (\<lambda>i. unat
          (if bufsize (ee (lg s)) = 0 then stack_word D (world s)
           else eeprom_get_u32 (nat (eeAddress j i)) (ee (lg s)))) [0..<31]) [0..<12])"
proof -
  have js: "\<forall>j \<in> set [0..<anzahlMonate + 1]. j \<le> anzahlMonate" by auto
  obtain lines where l: "backup_months [0..<anzahlMonate + 1] (stack_word D (world s)) (ee (lg s)) = Some lines"
      "numbers None lines = concat (map (month_numbers (ee (lg s)) (stack_word D (world s))) [0..<anzahlMonate + 1])"
    using backup_months_numbers [OF assms js] by blast
  have n: "anzahlMonate + 1 = 12" by (simp add: anzahlMonate_def)
  have m: "month_numbers (ee (lg s)) (stack_word D (world s)) = (\<lambda>j. (j + 1) # map (\<lambda>i. unat
          (if bufsize (ee (lg s)) = 0 then stack_word D (world s)
           else eeprom_get_u32 ((j * 31 + i) * 4) (ee (lg s)))) [0..<31])"
    by (simp add: fun_eq_iff month_numbers_def word_found_def)
  show ?thesis
    unfolding eeAddress_nat nat_int using l unfolding n m
    by (intro exI [of _ lines]) (simp only: backup2file_def n bind.bind_lunit)
qed

lemma backup_readable_witness:
  "\<exists>lines. backup2file demo_device (demo_sketch 0) = Some (on_world (file_write demo_device ''/backup.csv'' ''w+'' lines) (demo_sketch 0))
     \<and> length (numbers None lines) = 384"
proof -
  have w: "eeprom_wf (ee (lg (demo_sketch 0)))" "bufsize (ee (lg (demo_sketch 0))) = 0 \<or> 1488 \<le> bufsize (ee (lg (demo_sketch 0)))"
    using demo_logger_wf by (simp_all add: demo_sketch_def logger_wf_def demo_logger_def)
  have "length (concat (map f [0..<12])) = 384" if "\<And>j. length (f j) = 32" for f :: "nat \<Rightarrow> nat list"
    by (simp add: length_concat comp_def that sum_list_triv)
  then show ?thesis using backup_readable [OF w, of demo_device] by fastforce
qed

end
