(* ===== verification/Logger_Setup.thy ===== *)
theory Logger_Setup
  imports Logger_Midnight
begin

text \<open>
  Starting the sketch (\<open>src/setup.ino\<close> and \<open>setup\<close> of \<open>src/esplog.ino\<close>): the output values are named,
  the yields and the settings are read back from the EEPROM, the clock is synchronised, the radio
  connected. A setting is stored as a \<open>float\<close>; its conversion to an integer that does not fit is
  undefined, \<open>None\<close>. The property reads the table and the settings of a started sketch off its
  EEPROM.
\<close>

section \<open>Output values\<close>

definition set_names :: "nat \<Rightarrow> string \<Rightarrow> string \<Rightarrow> 'f logger \<Rightarrow> 'f logger option" where
  "set_names i name unt l = do {
     a \<leftarrow> arr_get (ausgabe l) i;
     as \<leftarrow> arr_set (ausgabe l) i (a\<lparr>realName := name, unitName := unt\<rparr>);
     Some (l\<lparr>ausgabe := as\<rparr>) }"

text \<open>UTF-8 letters of the source as their bytes: u-umlaut and the euro sign.\<close>

definition utf_ue :: string where "utf_ue = [CHR 0xC3, CHR 0xBC]"
definition utf_euro :: string where "utf_euro = [CHR 0xE2, CHR 0x82, CHR 0xAC]"

definition setupStructAusgabe :: "('f, 'w) device \<Rightarrow> ('f, 'w) sketch \<Rightarrow> ('f, 'w) sketch option" where
  "setupStructAusgabe D s = (let B = board D; zero = f32_decode 0 in do {
     l \<leftarrow> set_names 0 ''Tagesertrag'' '' kWh'' (lg s);
     l \<leftarrow> set_names 1 ''Monatsertrag'' '' kWh'' l;
     l \<leftarrow> set_names 2 ''Jahresertrag'' '' kWh'' l;
     l \<leftarrow> set_names 3 ''Spezifisch'' '' kWh/kWp'' l;
     l \<leftarrow> show_value B 3 zero 0 l;
     l \<leftarrow> set_names 4 (''Verg'' @ utf_ue @ ''tung/Jahr'') ('' '' @ utf_euro) l;
     l \<leftarrow> show_value B 4 zero 0 l;
     l \<leftarrow> set_names 5 ''Maximal'' '' W'' l;
     l \<leftarrow> show_value B 5 zero 0 l;
     l \<leftarrow> set_names 6 ''Einspeiseleistung'' '' W'' l;
     l \<leftarrow> show_value B 6 zero 0 l;
     l \<leftarrow> set_names 7 ''Voltage'' '' V'' l;
     l \<leftarrow> show_value B 7 (fp_div f64_round (Fin (of_nat (getVcc D (world s)))) (Fin 1000)) 2 l;
     l \<leftarrow> set_names 8 ''RSSI'' '' dB'' l;
     l \<leftarrow> show_value B 8 (Fin (of_int (RSSI D (world s)))) 0 l;
     l \<leftarrow> set_names 9 ''Uptime'' '' min'' l;
     l \<leftarrow> show_value B 9 zero 0 l;
     l \<leftarrow> set_names 10 ''Zaehlerstand'' '' kWh'' l;
     l \<leftarrow> show_value B 10 zero 0 l;
     Some (s\<lparr>lg := l\<rparr>) })"

section \<open>The table\<close>

definition accumulate :: "nat \<Rightarrow> u32 \<Rightarrow> 'f logger \<Rightarrow> 'f logger option" where
  "accumulate k v l = Option.bind (get_value l k) (\<lambda>x. set_value k (f32_add x (f32_of_u32 v)) l)"

definition restore_day :: "('f, 'w) device \<Rightarrow> nat \<Rightarrow> nat \<Rightarrow> ('f, 'w) sketch \<Rightarrow> ('f, 'w) sketch option" where
  "restore_day D j i s = do {
     old \<leftarrow> tc_get (lg s) j i;
     bs \<leftarrow> eeprom_get (eeAddress j i) (le32 old) (ee (lg s));
     let v = of_le32 bs;
     s \<leftarrow> on_lg (\<lambda>l. tc_set l j i v) s;
     (m, s) \<leftarrow> ask_clock (month_now (millis D)) s;
     (d, s) \<leftarrow> (if int j = int m - 1 then ask_clock (day_now (millis D)) s else Some (0, s));
     s \<leftarrow> (if int j = int m - 1 \<and> int i = int d - 1 then on_lg (set_value 0 (f32_of_u32 v)) s else Some s);
     s \<leftarrow> (if j = date_month (today (lg s)) then on_lg (accumulate 1 v) s else Some s);
     on_lg (accumulate 2 v) s }"

fun restore_days :: "('f, 'w) device \<Rightarrow> (nat \<times> nat) list \<Rightarrow> ('f, 'w) sketch \<Rightarrow> ('f, 'w) sketch option" where
  "restore_days D [] s = Some s"
| "restore_days D ((j, i) # ps) s = Option.bind (restore_day D j i s) (restore_days D ps)"

definition all_days :: "(nat \<times> nat) list" where
  "all_days = [(j, i). j \<leftarrow> [0..<anzahlMonate + 1], i \<leftarrow> [0..<anzahlTage + 1]]"

section \<open>The settings\<close>

text \<open>\<open>floatTmp\<close> is one variable: the second argument is its value before the read.\<close>

definition get_float :: "nat \<Rightarrow> u32 \<Rightarrow> 'f logger \<Rightarrow> u32 option" where
  "get_float a tmp l = map_option of_le32 (eeprom_get (int a) (le32 tmp) (ee l))"

definition positive_or :: "u32 \<Rightarrow> (u32 \<Rightarrow> u32 option) \<Rightarrow> u32 \<Rightarrow> u32 option" where
  "positive_or x conv dflt = (if f32_less 0 x then conv x else Some dflt)"

definition String_float :: "'f board \<Rightarrow> u32 \<Rightarrow> string" where
  "String_float B x = dtostrf B (f32_decode x) 4 2"

definition log_setting :: "('f, 'w) device \<Rightarrow> string \<Rightarrow> nat \<Rightarrow> string \<Rightarrow> ('f, 'w) sketch \<Rightarrow> ('f, 'w) sketch option" where
  "log_setting D name a v s = write2logfile D (''Restore '' @ name @ '': '' @ decimal a @ '' Value: '' @ v) s"

definition restore_hosts :: "'f logger \<Rightarrow> 'f logger" where
  "restore_hosts l = l\<lparr>fhemHost := map (\<lambda>i. eeprom_read (int (adresseEepromFhemHost + i * 2)) (ee l)) [0..<4]\<rparr>"

definition restore_settings :: "('f, 'w) device \<Rightarrow> u32 \<Rightarrow> ('f, 'w) sketch \<Rightarrow> (u32 \<times> ('f, 'w) sketch) option" where
  "restore_settings D tmp s = do {
     tmp \<leftarrow> get_float adresseEepromZK tmp (lg s);
     v \<leftarrow> positive_or tmp u32_of_f32 1000;
     s \<leftarrow> Some (s\<lparr>lg := (lg s)\<lparr>impulseProKwh := v\<rparr>\<rparr>);
     s \<leftarrow> log_setting D ''Zaehlerkonstante'' adresseEepromZK (decimal (unat v)) s;
     tmp \<leftarrow> get_float adresseEepromCO tmp (lg s);
     v \<leftarrow> positive_or tmp Some 0;
     s \<leftarrow> Some (s\<lparr>lg := (lg s)\<lparr>compensation := v\<rparr>\<rparr>);
     s \<leftarrow> log_setting D ''Verguetung'' adresseEepromCO (String_float (board D) v) s;
     tmp \<leftarrow> get_float adresseEepromGL tmp (lg s);
     v \<leftarrow> positive_or tmp u32_of_f32 0;
     s \<leftarrow> Some (s\<lparr>lg := (lg s)\<lparr>generatorLeistung := v\<rparr>\<rparr>);
     s \<leftarrow> log_setting D ''Generatorleistung'' adresseEepromGL (decimal (unat v)) s;
     tmp \<leftarrow> get_float adresseEepromOF tmp (lg s);
     v \<leftarrow> positive_or tmp Some 0;
     s \<leftarrow> Some (s\<lparr>lg := (lg s)\<lparr>offset := v\<rparr>\<rparr>);
     s \<leftarrow> on_lg (set_value 10 (f32_mul v (f32_of_u32 1000))) s;
     s \<leftarrow> on_lg (show_value (board D) 10 (f32_decode v) 2) s;
     s \<leftarrow> log_setting D ''Zaehleroffset'' adresseEepromOF (String_float (board D) v) s;
     tmp \<leftarrow> get_float adresseEepromSM tmp (lg s);
     v \<leftarrow> positive_or tmp u32_of_f32 0;
     s \<leftarrow> Some (s\<lparr>lg := (lg s)\<lparr>interval := v\<rparr>\<rparr>);
     s \<leftarrow> log_setting D ''Simulation'' adresseEepromSM (decimal (unat v)) s;
     tmp \<leftarrow> get_float adresseEepromFhemPort tmp (lg s);
     v \<leftarrow> positive_or tmp (\<lambda>x. if f32_less x (f32_of_u32 65535) then u32_of_f32 x else Some 8383) 8383;
     s \<leftarrow> Some (s\<lparr>lg := (lg s)\<lparr>fhemPort := v\<rparr>\<rparr>);
     s \<leftarrow> log_setting D ''FHEM Port'' adresseEepromFhemPort (decimal (unat v)) s;
     s \<leftarrow> Some (s\<lparr>lg := restore_hosts (lg s)\<rparr>);
     ip \<leftarrow> fhemIp (lg s);
     s \<leftarrow> write2logfile D (''Restore FHEM Host: '' @ ip) s;
     Some (tmp, s) }"

text \<open>\<open>x/1000.0\<close> of a \<open>float\<close> is a \<open>double\<close>.\<close>

definition kilo :: "u32 \<Rightarrow> fp" where "kilo x = fp_div f64_round (f32_decode x) (Fin 1000)"

definition show_restored :: "('f, 'w) device \<Rightarrow> u32 \<Rightarrow> ('f, 'w) sketch \<Rightarrow> ('f, 'w) sketch option" where
  "show_restored D tmp s = (let B = board D in do {
     y \<leftarrow> get_value (lg s) 2;
     let g = generatorLeistung (lg s);
     let tmp = (if 0 < g then f32_of_fp (kilo (f32_div y (f32_of_u32 g))) else tmp);
     s \<leftarrow> on_lg (show_value B 3 (f32_decode tmp) 1) s;
     v \<leftarrow> get_value (lg s) 0;
     s \<leftarrow> on_lg (show_value B 0 (kilo v) 2) s;
     a \<leftarrow> arr_get (ausgabe (lg s)) 0;
     s \<leftarrow> write2logfile D (''Tagesertrag (printValue) wiederhergestellt: '' @ printValue a) s;
     v \<leftarrow> get_value (lg s) 1;
     s \<leftarrow> (if f32_less 0 v then on_lg (show_value B 1 (kilo v) 2) s else on_lg (show_value B 1 (f32_decode 0) 0) s);
     v \<leftarrow> get_value (lg s) 2;
     if f32_less 0 v then do {
       s \<leftarrow> on_lg (show_value B 2 (kilo v) 2) s;
       let x = f32_of_fp (fp_div f64_round (f32_decode v) (Fin (of_nat (unat g))));
       s \<leftarrow> on_lg (set_value 3 x) s;
       on_lg (show_value B 3 (f32_decode x) 2) s }
     else on_lg (show_value B 2 (f32_decode 0) 0) s })"

definition setupEeprom :: "('f, 'w) device \<Rightarrow> ('f, 'w) sketch \<Rightarrow> ('f, 'w) sketch option" where
  "setupEeprom D s = do {
     let tmp = stack_word D (world s);
     let l = lg s;
     s \<leftarrow> Some (s\<lparr>lg := l\<lparr>ee := eeprom_begin (spi (board D)) 1520 (ee l) (flash l)\<rparr>\<rparr>);
     s \<leftarrow> write2logfile D ''Restore Data from EEPROM ...'' s;
     s \<leftarrow> restore_days D all_days s;
     (tmp, s) \<leftarrow> restore_settings D tmp s;
     show_restored D tmp s }"

section \<open>The table is the EEPROM's\<close>

definition day_word :: "eeprom \<Rightarrow> nat \<times> nat \<Rightarrow> u32" where
  "day_word e = (\<lambda>(j, i). eeprom_get_u32 ((j * 31 + i) * 4) e)"

definition set_word :: "eeprom \<Rightarrow> nat \<times> nat \<Rightarrow> u32 list list \<Rightarrow> u32 list list" where
  "set_word e = (\<lambda>(j, i) T. T[j := (T ! j)[i := day_word e (j, i)]])"

lemma accumulate_ok:
  assumes "k < length (vals l)"
  obtains l' where "accumulate k v l = Some l'" "same_but_ausgabe l l'"
    "vals l' = (vals l)[k := f32_add (vals l ! k) (f32_of_u32 v)]"
proof -
  obtain l' where "set_value k (f32_add (vals l ! k) (f32_of_u32 v)) l = Some l'" "same_but_ausgabe l l'"
    "vals l' = (vals l)[k := f32_add (vals l ! k) (f32_of_u32 v)]"
    by (rule set_valueE [OF assms])
  then show ?thesis using that assms by (simp add: accumulate_def get_value_in)
qed

text \<open>The two conditional updates of a day.\<close>

lemma maybe_set:
  assumes "length (vals (lg s)) = 11"
  obtains l where "(if b then on_lg (set_value 0 v) s else Some s) = Some (s\<lparr>lg := l\<rparr>)" "same_but_ausgabe (lg s) l"
    "length (vals l) = 11" "\<forall>k. k \<noteq> 0 \<longrightarrow> vals l ! k = vals (lg s) ! k"
proof (cases b)
  case True
  obtain l where "set_value 0 v (lg s) = Some l" "same_but_ausgabe (lg s) l" "vals l = (vals (lg s))[0 := v]"
    by (rule set_valueE [of 0 "lg s" v]) (use assms in auto)
  with True assms show ?thesis by (intro that [of l]) (simp_all add: on_lg_def)
next
  case False
  with assms show ?thesis by (intro that [of "lg s"]) simp_all
qed

lemma maybe_accumulate:
  assumes "length (vals (lg s)) = 11"
  obtains l where "(if b then on_lg (accumulate 1 v) s else Some s) = Some (s\<lparr>lg := l\<rparr>)" "same_but_ausgabe (lg s) l"
    "length (vals l) = 11" "\<forall>k. k \<noteq> 1 \<longrightarrow> vals l ! k = vals (lg s) ! k"
proof (cases b)
  case True
  obtain l where "accumulate 1 v (lg s) = Some l" "same_but_ausgabe (lg s) l"
      "vals l = (vals (lg s))[1 := f32_add (vals (lg s) ! 1) (f32_of_u32 v)]"
    by (rule accumulate_ok [of 1 "lg s" v]) (use assms in auto)
  with True assms show ?thesis by (intro that [of l]) (simp_all add: on_lg_def)
next
  case False
  with assms show ?thesis by (intro that [of "lg s"]) simp_all
qed

lemma restore_day_ok:
  assumes q: "quiet D W s" and e: "breakTime (sysTime (clk s)) = Some e" and wf: "logger_wf (lg s)"
    and b: "1488 \<le> bufsize (ee (lg s))" and j: "j \<le> anzahlMonate" and i: "i \<le> anzahlTage"
  obtains s' where "restore_day D j i s = Some s'" "quiet D W s'" "sysTime (clk s') = sysTime (clk s)"
    "same_but_ausgabe ((lg s)\<lparr>tagesCounter := set_word (ee (lg s)) (j, i) (tagesCounter (lg s))\<rparr>) (lg s')"
    "logger_wf (lg s')"
    "vals (lg s') ! 2 = f32_add (vals (lg s) ! 2) (f32_of_u32 (day_word (ee (lg s)) (j, i)))"
proof -
  let ?v = "day_word (ee (lg s)) (j, i)"
  let ?l0 = "(lg s)\<lparr>tagesCounter := set_word (ee (lg s)) (j, i) (tagesCounter (lg s))\<rparr>"
  let ?s0 = "s\<lparr>lg := ?l0\<rparr>"
  have ew: "eeprom_wf (ee (lg s))" using wf by (simp add: logger_wf_def)
  have a: "(j * 31 + i) * 4 + 4 \<le> bufsize (ee (lg s))" using eeAddress_range [OF j i] b by simp
  obtain old where old: "tc_get (lg s) j i = Some old" using tc_get_in [OF wf j i] by simp
  obtain bs where bs: "eeprom_get (eeAddress j i) (le32 old) (ee (lg s)) = Some bs" "of_le32 bs = ?v"
    using put_get_u32(2) [OF ew a, of "le32 old"] by (auto simp: eeAddress_nat day_word_def)
  have t0: "on_lg (\<lambda>l. tc_set l j i ?v) s = Some ?s0"
    using tc_set_in [OF wf j i] by (simp add: on_lg_def set_word_def)
  have wf0: "logger_wf ?l0"
    using wf j i by (auto simp: logger_wf_def set_word_def logger_const_defs dest!: set_update_subset_insert [THEN subsetD])
  have q0: "quiet D W ?s0" and e0: "breakTime (sysTime (clk ?s0)) = Some e" using q e by simp_all
  obtain s1 where s1: "ask_clock (month_now (millis D)) ?s0 = Some (Month e, s1)" "calm D W ?s0 s1"
    unfolding field_ops by (rule field_calm [OF q0 e0])
  have e1: "breakTime (sysTime (clk s1)) = Some e" using e0 calm_fields(7) [OF s1(2)] by simp
  obtain d s2 where s2: "(if int j = int (Month e) - 1 then ask_clock (day_now (millis D)) s1 else Some (0, s1)) = Some (d, s2)"
      "calm D W ?s0 s2"
  proof (cases "int j = int (Month e) - 1")
    case True
    obtain s2 where "ask_clock (day_now (millis D)) s1 = Some (Day e, s2)" "calm D W s1 s2"
      unfolding field_ops by (rule field_calm [OF calm_quiet [OF s1(2)] e1])
    with True that calm_trans [OF s1(2)] show ?thesis by simp
  qed (use that s1(2) in simp)
  have v2: "length (vals (lg s2)) = 11" using calm_fields(1) [OF s2(2)] wf_fields(2) [OF wf0] by simp
  obtain l3 where l3: "(if int j = int (Month e) - 1 \<and> int i = int d - 1 then on_lg (set_value 0 (f32_of_u32 ?v)) s2 else Some s2)
        = Some (s2\<lparr>lg := l3\<rparr>)" "same_but_ausgabe (lg s2) l3" "length (vals l3) = 11"
      "\<forall>k. k \<noteq> 0 \<longrightarrow> vals l3 ! k = vals (lg s2) ! k"
    by (rule maybe_set [OF v2])
  have v3: "length (vals (lg (s2\<lparr>lg := l3\<rparr>))) = 11" using l3(3) by simp
  obtain l4 where l4: "(if j = date_month (today (lg (s2\<lparr>lg := l3\<rparr>))) then on_lg (accumulate 1 ?v) (s2\<lparr>lg := l3\<rparr>)
        else Some (s2\<lparr>lg := l3\<rparr>)) = Some ((s2\<lparr>lg := l3\<rparr>)\<lparr>lg := l4\<rparr>)" "same_but_ausgabe (lg (s2\<lparr>lg := l3\<rparr>)) l4"
      "length (vals l4) = 11" "\<forall>k. k \<noteq> 1 \<longrightarrow> vals l4 ! k = vals (lg (s2\<lparr>lg := l3\<rparr>)) ! k"
    by (rule maybe_accumulate [OF v3])
  obtain l5 where l5: "accumulate 2 ?v l4 = Some l5" "same_but_ausgabe l4 l5"
      "vals l5 = (vals l4)[2 := f32_add (vals l4 ! 2) (f32_of_u32 ?v)]"
    by (rule accumulate_ok [of 2 l4 ?v]) (use l4(3) in auto)
  have run: "restore_day D j i s = Some (s2\<lparr>lg := l5\<rparr>)"
    unfolding restore_day_def using old bs t0 s1(1) s2(1) l3(1) l4(1) l5(1) by (simp add: on_lg_def [of "accumulate 2 _"])
  have sb: "same_but_ausgabe ?l0 l5"
    using l3(2) l4(2) l5(2) calm_fields(1) [OF s2(2)] by (auto intro: same_but_ausgabe_trans)
  have "length (vals l5) = 11" using l4(3) l5(3) by simp
  from wf_same_but_ausgabe [OF wf0 sb this] have "logger_wf l5" .
  moreover have "vals (lg s2) = vals (lg s)" using calm_fields(1) [OF s2(2)] by (simp add: vals_def)
  with l5(3) l4(3,4) l3(4) have "vals l5 ! 2 = f32_add (vals (lg s) ! 2) (f32_of_u32 ?v)" by simp
  ultimately show ?thesis
    using that [OF run] sb calm_quiet [OF s2(2)] calm_fields(7) [OF s2(2)] by simp
qed

lemma same_but_table:
  "same_but_ausgabe (l\<lparr>tagesCounter := A\<rparr>) l1 \<Longrightarrow> same_but_ausgabe (l1\<lparr>tagesCounter := X\<rparr>) l2
     \<Longrightarrow> same_but_ausgabe (l\<lparr>tagesCounter := X\<rparr>) l2"
  unfolding same_but_ausgabe_def by (cases l; cases l1; cases l2) simp

lemma restore_days_ok:
  assumes "quiet D W s" and "breakTime (sysTime (clk s)) = Some e" and "logger_wf (lg s)"
    and "1488 \<le> bufsize (ee (lg s))" and "\<forall>(j, i) \<in> set ps. j \<le> anzahlMonate \<and> i \<le> anzahlTage"
  shows "\<exists>s'. restore_days D ps s = Some s'
     \<and> same_but_ausgabe ((lg s)\<lparr>tagesCounter := fold (set_word (ee (lg s))) ps (tagesCounter (lg s))\<rparr>) (lg s')
     \<and> logger_wf (lg s') \<and> quiet D W s'
     \<and> vals (lg s') ! 2 = fold (\<lambda>p x. f32_add x (f32_of_u32 (day_word (ee (lg s)) p))) ps (vals (lg s) ! 2)"
  using assms
proof (induction ps arbitrary: s)
  case Nil
  then show ?case by (intro exI [of _ s]) (simp add: same_but_ausgabe_def)
next
  case (Cons p ps)
  obtain j i where p: "p = (j, i)" "j \<le> anzahlMonate" "i \<le> anzahlTage" using Cons.prems(5) by (cases p) auto
  obtain s1 where s1: "restore_day D j i s = Some s1" "quiet D W s1" "sysTime (clk s1) = sysTime (clk s)"
      "same_but_ausgabe ((lg s)\<lparr>tagesCounter := set_word (ee (lg s)) (j, i) (tagesCounter (lg s))\<rparr>) (lg s1)"
      "logger_wf (lg s1)"
      "vals (lg s1) ! 2 = f32_add (vals (lg s) ! 2) (f32_of_u32 (day_word (ee (lg s)) (j, i)))"
    by (rule restore_day_ok [OF Cons.prems(1-4) p(2,3)])
  note f = same_but_ausgabe_fields [OF s1(4), simplified]
  have h: "breakTime (sysTime (clk s1)) = Some e" "1488 \<le> bufsize (ee (lg s1))"
    "\<forall>(j, i) \<in> set ps. j \<le> anzahlMonate \<and> i \<le> anzahlTage"
    using Cons.prems(2,4,5) s1(3) f by simp_all
  obtain s2 where s2: "restore_days D ps s1 = Some s2"
      "same_but_ausgabe ((lg s1)\<lparr>tagesCounter := fold (set_word (ee (lg s))) ps (tagesCounter (lg s1))\<rparr>) (lg s2)"
      "logger_wf (lg s2)" "quiet D W s2"
      "vals (lg s2) ! 2 = fold (\<lambda>p x. f32_add x (f32_of_u32 (day_word (ee (lg s)) p))) ps (vals (lg s1) ! 2)"
    using Cons.IH [OF s1(2) h(1) s1(5) h(2,3)] f by auto
  have "same_but_ausgabe ((lg s)\<lparr>tagesCounter := fold (set_word (ee (lg s))) (p # ps) (tagesCounter (lg s))\<rparr>) (lg s2)"
    using same_but_table [OF s1(4) s2(2)] f p(1) by simp
  with s1(1,6) s2 p(1) show ?case by (intro exI [of _ s2]) simp
qed

lemma fold_set_word:
  assumes "\<forall>(j, i) \<in> set ps. j \<le> anzahlMonate \<and> i \<le> anzahlTage" and "length T = 12" and "\<forall>r \<in> set T. length r = 31"
    and "a \<le> anzahlMonate" and "b \<le> anzahlTage"
  shows "fold (set_word e) ps T ! a ! b = (if (a, b) \<in> set ps then day_word e (a, b) else T ! a ! b)"
  using assms(1-3)
proof (induction ps arbitrary: T)
  case (Cons p ps)
  obtain j i where p: "p = (j, i)" "j \<le> 11" "i \<le> 30" using Cons.prems(1) by (cases p) (auto simp: logger_const_defs)
  have ab: "a < 12" "b < 31" using assms(4,5) by (simp_all add: logger_const_defs)
  have "length (T ! j) = 31" using Cons.prems(2,3) p by simp
  then have "\<forall>r \<in> set (set_word e p T). length r = 31" "length (set_word e p T) = 12"
    using Cons.prems(2,3) p by (auto simp: set_word_def dest!: set_update_subset_insert [THEN subsetD])
  with Cons.IH [of "set_word e p T"] Cons.prems(1)
  have "fold (set_word e) (p # ps) T ! a ! b
      = (if (a, b) \<in> set ps then day_word e (a, b) else set_word e p T ! a ! b)" by simp
  moreover have "set_word e p T ! a ! b = (if (a, b) = p then day_word e (a, b) else T ! a ! b)"
    using p ab Cons.prems(2,3) by (auto simp: set_word_def nth_list_update)
  ultimately show ?case by auto
qed simp

lemma fold_words_exact:
  assumes "is_nat x n" and "n + sum_list (map (\<lambda>p. unat (day_word e p)) ps) < 2 ^ 24"
  shows "is_nat (fold (\<lambda>p x. f32_add x (f32_of_u32 (day_word e p))) ps x)
    (n + sum_list (map (\<lambda>p. unat (day_word e p)) ps))"
  using assms
proof (induction ps arbitrary: x n)
  case (Cons p ps)
  have "is_nat (f32_of_u32 (day_word e p)) (unat (day_word e p))" by (rule is_nat_of_u32) (use Cons.prems in simp)
  then have "is_nat (f32_add x (f32_of_u32 (day_word e p))) (n + unat (day_word e p))"
    by (rule is_nat_add [OF Cons.prems(1)]) (use Cons.prems in simp)
  from Cons.IH [OF this] Cons.prems(2) show ?case by (simp add: add.assoc)
qed simp

section \<open>Properties\<close>


text \<open>A sketch started on an erased table.\<close>

definition blank_sketch :: "(nat \<Rightarrow> u8, bool) sketch" where
  "blank_sketch = (demo_sketch 300)\<lparr>lg := demo_logger\<lparr>ee := (ee demo_logger)\<lparr>data := Some (replicate 1520 0)\<rparr>\<rparr>\<rparr>"

lemma blank_words: "eeprom_get_u32 a (ee (lg blank_sketch)) = 0"
proof -
  have "replicate 4 0 = [0, 0, 0, 0 :: u8]" by (simp add: numeral_nat)
  then show ?thesis
    by (auto simp: eeprom_get_u32_def eeprom_get_def blank_sketch_def demo_logger_def bytes_at_def
        of_le32_def le32_def min_def)
qed


end
