(* ===== verification/Logger_Html.thy ===== *)
theory Logger_Html
  imports Logger_Device
begin

text \<open>
  The pages of the sketch as text (\<open>src/websites.ino\<close>, and \<open>graph\<close> of \<open>src/functions.ino\<close>): each
  definition is a page, or a part of one, over the values printed in it. The literals are written
  with a back quote for the apostrophe and a bar for the line feed, neither of which occurs in
  them. What is inserted is not escaped.
\<close>

definition html :: "string \<Rightarrow> string" where
  "html s = map (\<lambda>c. if c = CHR 0x60 then CHR 0x27 else if c = CHR ''|'' then CHR 0x0A else c) s"

definition hostname :: string where "hostname = ''ESPLog''"

definition w3c :: string where "w3c = html ''<div class=`w3-container`>''"
definition divlP :: string where "divlP = html ''<div class=`lP`>''"

definition contentOutputHeader :: "string" where
  "contentOutputHeader = html ''<!DOCTYPE HTML><html>'' @ concat [
     html ''<head>|'',
     html ''<meta http-equiv=`content-type` content=`text/html; charset=utf-8`/>|'',
     html ''<link rel=`stylesheet` href=`https://www.w3schools.com/w3css/4/w3.css`/>|'',
     html ''<link rel=`stylesheet` type=`text/css` media=`screen` href=`screen.css`/>|'',
     html ''<link rel=`stylesheet` type=`text/css` media=`only screen and (max-device-width: 480px)` href=`mobile.css` />|'',
     html ''<title>'' @ hostname @ html ''</title>|'',
     html ''</head>|'']"

definition navigation :: "string" where
  "navigation = concat [
     html ''<div><a href=`/` class=`w3-button w3-orange`>Home</a></div>|'',
     html ''<div><a href=`/ertrag.html` class=`w3-button w3-orange`>Ertrag</a></div>|'',
     html ''<div><a href=`/setup.html` class=`w3-button w3-orange`>Setup</a></div>|'',
     html ''<div><a href=`/spiffs.html` class=`w3-button w3-orange`>SPIFFS</a></div>|'',
     html ''<div><a href=`/update` class=`w3-button w3-orange`>Update</a></div>|'']"

record root_values =
  dateShown :: string
  timeShown :: string
  summerShown :: string
  valueRows :: string
  meterShown :: string
  runtimeShown :: string
  heapShown :: string

definition root_page :: "root_values \<Rightarrow> string" where
  "root_page v = contentOutputHeader @ concat [
     html ''<body>'',
     html ''<div class=`w3-container`>'',
     html ''<h1>ESPLog S0 Datenlogger</h1>'',
     html ''</div>'',
     html ''<div class=`navi`>'',
     navigation,
     html ''</div>'',
     html ''<div class=`w3-container`>'',
     html ''<div class=`rahmen`>'',
     html ''<div class=`borderNamePos`><span class=`borderName`>Aktuell</span></div>|'',
     html ''<div class=`row`><div class=`lP`>Datum:</div><div class=`value`>'' @ dateShown v @ html ''</div><div class=`unit`>&nbsp;</div></div>|'',
     html ''<div class=`row`><div class=`lP`>Uhrzeit:</div><div class=`value`>'' @ timeShown v @ html ''</div><div class=`unit`>&nbsp;</div></div>|'',
     html ''<div class=`row`><div class=`lP`>Sommerzeit:</div><div class=`value`>'' @ summerShown v @ html ''</div><div class=`unit`>&nbsp;</div></div>|'']
   @ valueRows v @ concat [
     html ''<div class=`row`><div class=`lP`>Z&auml;hlerstand:</div><div class=`value`>'' @ meterShown v @ html ''</div><div class=`unit`> kWh</div></div>|'',
     html ''<div class=`row`><div class=`lP`>Laufzeit:</div><div class=`value`>'' @ runtimeShown v @ html ''</div><div class=`unit`> min</div></div>|'',
     html ''<div class=`row`><div class=`lP`>Free RAM:</div><div class=`value`>'' @ heapShown v @ html ''</div><div class=`unit`> Byte</div></div>|'',
     html ''</div>'',
     html ''</div>'',
     html ''</body></html>'']"

definition root_row :: "valueStore \<Rightarrow> string" where
  "root_row a = html ''<div class=`row`><div class=`lP`>'' @ realName a @ html '':</div><div class=`value`>'' @ printValue a @ html ''</div><div class=`unit`>'' @ unitName a @ html ''</div></div>''"

record setup_values =
  generatorShown :: string
  counterShown :: string
  compensationShown :: string
  offsetShown :: string
  fhemIpShown :: string
  fhemPortShown :: string
  localShown :: string
  subnetShown :: string
  gatewayShown :: string

definition setup_page :: "setup_values \<Rightarrow> string" where
  "setup_page v = concat [
     contentOutputHeader,
     html ''<body>'',
     w3c,
     html ''<h1>Setup</h1>'',
     html ''</div>'',
     html ''<div class=`navi`>'',
     navigation,
     html ''</div>'',
     w3c,
     html ''</div>'',
     html ''<form action=`/setup.html` name=`vorgaben` method=`POST`>'',
     w3c,
     html ''<div class=`rahmen`>'',
     html ''<div class=`borderNamePos`><span class=`borderName`>Allgemein</span></div>'',
     html ''<div class=`box`>'',
     html ''<div class=`lP`><label for=`generator`>Generatorleistung</label></div>'',
     html ''<input id=`generator` name=`generator` type=`text` value=`'' @ generatorShown v @ html ''`> Wp'',
     html ''</div>'',
     html ''<div class=`box`>'',
     html ''<div class=`lP`><label for=`couterconst`>Z&auml;hlerkonstante</label></div>'',
     html ''<input id=`couterconst` name=`couterconst` type=`text` value=`'' @ counterShown v @ html ''`> Imp/KWh'',
     html ''</div>'',
     html ''<div class=`box`>'',
     html ''<div class=`lP`><label for=`compensation`>Verg&uuml;tung</label></div>'',
     html ''<input id=`compensation` name=`compensation` type=`text` value=`'' @ compensationShown v @ html ''`> cent/kWh'',
     html ''</div>'',
     html ''<div class=`box`>'',
     html ''<div class=`lP`><label for=`offset`>Z&auml;hleroffset</label></div>'',
     html ''<input id=`offset` name=`offset` type=`text` value=`'' @ offsetShown v @ html ''`> kWh'',
     html ''</div>'',
     html ''<div class=`box`>'',
     html ''<div class=`lP`><label for=`save`>Speichern</label></div>'',
     html ''<input class=`w3-button w3-orange` name=`save` type=`submit` value=`OK`>'',
     html ''</div>'',
     html ''</div>'',
     html ''</form>'',
     html ''<div class=`rahmen`>'',
     html ''<div class=`borderNamePos`>'',
     html ''<span class=`borderName`>Ert&auml;ge</span>'',
     html ''</div>'',
     html ''<div class=`box`>'',
     html ''<div class=`lP` style=`margin-top: 8px;`><label for=`backup`>Ertragsdaten</label></div>'',
     html ''<input class=`w3-button w3-orange btbackup` name=`backup` type=`submit` value=`sichern`>'',
     html ''<input class=`w3-button w3-orange btdelete` name=`clrrom` type=`submit` value=`l&ouml;schen`>|'',
     html ''</div>'',
     html ''</div>'',
     html ''<form action=`/setup.html` name=`controller` method=`POST`>'',
     html ''<div class=`rahmen`>'',
     html ''<div class=`borderNamePos`><span class=`borderName`>Controller</span></div>'',
     html ''<div class=`box`>'',
     divlP @ html ''<label for=`ip`>IP Adresse</label></div>'',
     html ''<input id=`fhemHost` name=`ip` type=`text` value=`'' @ fhemIpShown v @ html ''`>'',
     html ''</div>'',
     html ''<div class=`box`>'',
     divlP @ html ''<label for=`port`>Port</label></div>'',
     html ''<input id=`fhemPort` name=`port` type=`text` value=`'' @ fhemPortShown v @ html ''`>'',
     html ''</div>'',
     html ''<div class=`box`>'',
     divlP @ html ''<label for=`save`>Speichern</label></div>'',
     html ''<input class=`w3-button w3-orange` name=`save` type=`submit` value=`OK`>'',
     html ''</div>'',
     html ''</div>'',
     html ''</form>'',
     html ''<div class=`rahmen`>'',
     html ''<div class=`borderNamePos`><span class=`borderName`>Netzwerk</span></div>'',
     html ''<div class=`row`>'' @ divlP @ html ''IP-Adresse:</div>'' @ localShown v @ html ''</div>'',
     html ''<div class=`row`>'' @ divlP @ html ''Subnet:</div>'' @ subnetShown v @ html ''</div>'',
     html ''<div class=`row`>'' @ divlP @ html ''Gateway:</div>'' @ gatewayShown v @ html ''</div>'',
     html ''</div>'',
     html ''<div class=`rahmen`>'',
     html ''<div class=`borderNamePos`>'',
     html ''<span class=`borderName`>System</span>'',
     html ''</div>'',
     html ''<div class=`box`>'',
     html ''<div class=`lP` style=`margin-top: 8px;`><label for=`backup`>Neustart</label></div>'',
     html ''<input class=`w3-button w3-orange btrestart` name=`restart` type=`submit` value=`Restart`>'',
     html ''</div>'',
     html ''</div>'',
     html ''<div>'']"

definition file_row :: "string \<Rightarrow> string \<Rightarrow> string" where
  "file_row name sz = concat [
     html ''<div class=`filelist`><div class=`filename`>'',
     html ''<a href =`'',
     name,
     html ''?download=` target=`blanc`>'',
     name,
     html ''</a></div> '',
     html ''<div class=`filesize`>'',
     sz,
     html ''</div>'',
     html ''<form action=`/spiffs.html` method=`POST`>'',
     html ''<div class=`trash`>'',
     html ''<input type=`submit` name=`Delete` value=`X` class=`btdelete` title=`Datei '' @ name @ html '' l&ouml;schen!`>'',
     html ''<input type=`hidden` name=`file` value=`'' @ name @ html ''`>'',
     html ''</div>'',
     html ''</form>'',
     html ''</div>|'']"

definition spiffs_page :: "string \<Rightarrow> string \<Rightarrow> string \<Rightarrow> string" where
  "spiffs_page rows totalBytes usedBytes = contentOutputHeader @ concat [
     html ''<body>'',
     html ''<div class=`w3-container`>'',
     html ''<h1>SPIFFS</h1>'',
     html ''</div>'',
     html ''<div class=`navi`>'',
     navigation,
     html ''</div>'',
     html ''<div class=`w3-container`>'',
     html ''</div>'',
     html ''<div class=`w3-container`>'',
     html ''<div class=`rahmen`>'',
     html ''<div class=`borderNamePos`>'',
     html ''<span class=`borderName`>Inhalt Dateisystem</span>'',
     html ''<p>'']
   @ rows @ concat [
     html ''</p>'',
     html ''<div class=`filelist`>'',
     html ''<div class=`filename`><label for=`fs_size`>Gr&ouml;&szlig;e Dateisystem</label></div>'',
     totalBytes,
     html ''</div>'',
     html ''<div class=`filelist`>'',
     html ''<div class=`filename`><label for=`free_size`>Davon Verwendet</label></div>'',
     usedBytes,
     html ''</div>'',
     html ''</div>'',
     html ''<div>&nbsp;</div>'',
     html ''<div  class=`box`>'',
     html ''<form method=`POST` action=`/upload` enctype=`multipart/form-data` style=`height:35px;`>'',
     html ''<div class=`filelist`>'',
     html ''<div class=`lP`><input type=`file` name=`upload` class=`upload` required></div>'',
     html ''<input type=`submit` value=`Speichern` class=`button`>'',
     html ''</div>'',
     html ''</form>'',
     html ''</div>'',
     html ''</div>'',
     html ''</div></div>'']"

definition ertrag_head :: "string \<Rightarrow> nat \<Rightarrow> string" where
  "ertrag_head name j = concat [
     contentOutputHeader,
     html ''<body>'',
     html ''<div class=`w3-container`>'',
     html ''<h1>Ertrag</h1>'',
     html ''</div>'',
     html ''<div class=`navi`>'',
     navigation,
     html ''</div>'',
     html ''<div class=`w3-container`>'',
     html ''<div class=`rahmen`>'',
     html ''<div class=`borderNamePos`><span class=`borderName`>Tagesdaten in kWh</span></div>'',
     html ''<div class=`row` style=`line-height: 2.5;`><div class=`back`><a href=`/ertrag.html?monat='' @ decimal j @ html ''`>zur&uuml;ck</a></div><div class=`monat`>'' @ name @ html ''</div><div class=`next`><div class=`next`><a href=`/ertrag.html?monat='' @ decimal (j + 2) @ html ''`>vor</a></div></div>'',
     html ''<div>'',
     html ''<div id=`wk`>|'']"

definition ertrag_day :: "bool \<Rightarrow> string \<Rightarrow> nat \<Rightarrow> string" where
  "ertrag_day blink value i = (if blink then html ''<div id=`tb` class=`tabBlink`>'' @ value @ html ''</div>''
     else html ''<div id=`tb`>'' @ value @ html ''</div>'')
   @ (if (i + 1) mod 7 = 0 then html ''</div>|<div id=`wk`>'' else [])"

definition ertrag_tail :: "string \<Rightarrow> string" where
  "ertrag_tail chart = concat [
     html ''</div>'',
     html ''</div></div>'',
     chart,
     html ''</div>'']"

definition graph_head :: "string" where
  "graph_head = concat [
     html ''|<script type=`text/javascript` src=`https://www.gstatic.com/charts/loader.js`></script>|'',
     html ''<script type=`text/javascript`>|'',
     html ''google.charts.load(`current`, {`packages`:[`corechart`]});|'',
     html ''google.charts.setOnLoadCallback(drawChart);|'',
     html ''function drawChart() {|'',
     html ''var data = google.visualization.arrayToDataTable([|'',
     html ''[`Index`, `W` ],'']"

definition graph_tail :: "string" where
  "graph_tail = concat [
     html '']);|'',
     html ''var options = { chartArea: { left: 10, right: 10 }, vAxis: { minValue:0, viewWindow: { min: 0 } }, backgroundColor: `#f9f9f9`, title: `Tagesertrag`, curveType: `function`,legend: { position: `bottom` } };|'',
     html ''var chart = new google.visualization.AreaChart(document.getElementById(`curve_chart`));| '',
     html ''chart.draw(data, options);|'',
     html ''}|'',
     html ''</script>|'',
     html ''<div id=`curve_chart` class=`curve_chart`></div>'']"

end
