(* ===== verification/Http_Args.thy ===== *)
theory Http_Args
  imports Arduino_String
begin

text \<open>
  Request arguments of the web server (\<open>src/ESP8266WebServer/src/Parsing.cpp\<close>, lines 241 to 323 and
  553 to 582; \<open>ESP8266WebServer.cpp\<close>, lines 374 to 448): \<open>urlDecode\<close>, \<open>_parseArguments\<close> and the
  accessors. The argument array with its count is a list of key and value. The abstract
  specification is \<open>args_of\<close>: the parts between ampersands that hold an equals sign, each split
  there; \<open>parse_is_args_of\<close> shows the index loops compute it.
\<close>

section \<open>urlDecode\<close>

definition hexval :: "char \<Rightarrow> nat option" where
  "hexval c = (let n = of_char c in
     if 48 \<le> n \<and> n \<le> 57 then Some (n - 48)
     else if 65 \<le> n \<and> n \<le> 70 then Some (n - 55)
     else if 97 \<le> n \<and> n \<le> 102 then Some (n - 87) else None)"

text \<open>\<open>strtol(temp, NULL, 16)\<close> on \<open>"0xab"\<close>: the longest prefix of hexadecimal digits.\<close>

definition strtol16 :: "char \<Rightarrow> char \<Rightarrow> nat" where
  "strtol16 a b = (case hexval a of None \<Rightarrow> 0
     | Some x \<Rightarrow> (case hexval b of None \<Rightarrow> x | Some y \<Rightarrow> x * 16 + y))"

function urlDecode :: "string \<Rightarrow> string" where
  "urlDecode [] = []"
| "urlDecode (c # r) =
     (if c = CHR ''%'' \<and> 2 \<le> length r
      then char_of (strtol16 (r ! 0) (r ! 1)) # urlDecode (drop 2 r)
      else (if c = CHR ''+'' then CHR '' '' else c) # urlDecode r)"
  by pat_completeness auto
termination by (relation "measure length") auto

section \<open>_parseArguments\<close>

type_synonym args = "(string \<times> string) list"

text \<open>The first loop counts one argument more than there are ampersands.\<close>

function count_args :: "string \<Rightarrow> nat \<Rightarrow> nat \<Rightarrow> nat" where
  "count_args data i n =
     (if i < length data then
        (let j = indexOf (CHR ''&'') i data in
         if j = - 1 then n else count_args data (nat j + 1) (n + 1))
      else n)"
  by pat_completeness auto
termination
  by (relation "measure (\<lambda>(data, i, n). length data - i)")
    (use indexOf_progress in auto)

declare count_args.simps [simp del]

text \<open>The second loop; \<open>acc\<close> is the filled part of the array, its length the loop's \<open>iarg\<close>.\<close>

function arg_loop :: "string \<Rightarrow> nat \<Rightarrow> nat \<Rightarrow> args \<Rightarrow> args" where
  "arg_loop data count pos acc =
     (if length acc < count then
        (let equal_sign_index = indexOf (CHR ''='') pos data;
             next_arg_index = indexOf (CHR ''&'') pos data
         in if equal_sign_index = - 1 \<or> (equal_sign_index > next_arg_index \<and> next_arg_index \<noteq> - 1)
            then if next_arg_index = - 1 then acc
                 else arg_loop data count (nat next_arg_index + 1) acc
            else let acc = acc @ [(substring (int pos) equal_sign_index data,
                                   urlDecode (substring (equal_sign_index + 1) next_arg_index data))]
                 in if next_arg_index = - 1 then acc
                    else arg_loop data count (nat next_arg_index + 1) acc)
      else acc)"
  by pat_completeness auto
termination
  by (relation "measure (\<lambda>(data, count, pos, acc). length data - pos)")
    (use indexOf_progress in auto)

declare arg_loop.simps [simp del]

definition parseArguments :: "string \<Rightarrow> args" where
  "parseArguments data =
     (if length data = 0 then [] else arg_loop data (count_args data 0 1) 0 [])"

section \<open>Accessors\<close>

text \<open>\<open>None\<close> is a read at a negative index.\<close>

definition arg :: "string \<Rightarrow> args \<Rightarrow> string" where
  "arg name as = (case find (\<lambda>(k, v). k = name) as of None \<Rightarrow> [] | Some (k, v) \<Rightarrow> v)"

definition arg_at :: "int \<Rightarrow> args \<Rightarrow> string option" where
  "arg_at i as = (if i < int (length as) then (if i < 0 then None else Some (snd (as ! nat i))) else Some [])"

definition argName :: "int \<Rightarrow> args \<Rightarrow> string option" where
  "argName i as = (if i < int (length as) then (if i < 0 then None else Some (fst (as ! nat i))) else Some [])"

definition args_count :: "args \<Rightarrow> nat" where
  "args_count as = length as"

definition hasArg :: "string \<Rightarrow> args \<Rightarrow> bool" where
  "hasArg name as = (find (\<lambda>(k, v). k = name) as \<noteq> None)"

definition hasHeader :: "string \<Rightarrow> args \<Rightarrow> bool" where
  "hasHeader name hs = (find (\<lambda>(k, v). k = name \<and> 0 < length v) hs \<noteq> None)"

definition header_value :: "string \<Rightarrow> args \<Rightarrow> string" where
  "header_value name hs = (case find (\<lambda>(k, v). k = name) hs of None \<Rightarrow> [] | Some (k, v) \<Rightarrow> v)"

definition header_at :: "int \<Rightarrow> args \<Rightarrow> string option" where
  "header_at i hs = (if i < int (length hs) then (if i < 0 then None else Some (snd (hs ! nat i))) else Some [])"

definition header_name_at :: "int \<Rightarrow> args \<Rightarrow> string option" where
  "header_name_at i hs = (if i < int (length hs) then (if i < 0 then None else Some (fst (hs ! nat i))) else Some [])"

definition headers_count :: "args \<Rightarrow> nat" where
  "headers_count hs = length hs"

definition AUTHORIZATION_HEADER :: string where
  "AUTHORIZATION_HEADER = ''Authorization''"

definition collectHeaders :: "string list \<Rightarrow> args" where
  "collectHeaders headerKeys = (AUTHORIZATION_HEADER, []) # map (\<lambda>k. (k, [])) headerKeys"

text \<open>\<open>_collectHeader\<close>: the value of the first collected header with that name.\<close>

fun collectHeader :: "string \<Rightarrow> string \<Rightarrow> args \<Rightarrow> bool \<times> args" where
  "collectHeader headerName headerValue [] = (False, [])"
| "collectHeader headerName headerValue ((k, v) # hs) =
     (if k = headerName then (True, (k, headerValue) # hs)
      else (case collectHeader headerName headerValue hs of (b, hs) \<Rightarrow> (b, (k, v) # hs)))"

text \<open>What is collected is what is read, and no other header changes.\<close>

lemma collected_value:
  "header_value n (snd (collectHeader m v hs))
     = (if n = m \<and> fst (collectHeader m v hs) then v else header_value n hs)"
  by (induction m v hs rule: collectHeader.induct) (auto simp: header_value_def split_beta)

lemma collected_keys: "map fst (snd (collectHeader m v hs)) = map fst hs"
  by (induction m v hs rule: collectHeader.induct) (auto simp: split_beta)

section \<open>The specification\<close>

fun split_on :: "char \<Rightarrow> string \<Rightarrow> string list" where
  "split_on c [] = [[]]"
| "split_on c (x # xs) = (if x = c then [] # split_on c xs
                          else (case split_on c xs of [] \<Rightarrow> [[x]] | u # us \<Rightarrow> (x # u) # us))"

definition arg_of :: "string \<Rightarrow> string \<times> string" where
  "arg_of u = (takeWhile (\<lambda>c. c \<noteq> CHR ''='') u, urlDecode (tl (dropWhile (\<lambda>c. c \<noteq> CHR ''='') u)))"

definition args_of :: "string \<Rightarrow> args" where
  "args_of data = map arg_of (filter (\<lambda>u. CHR ''='' \<in> set u) (split_on (CHR ''&'') data))"

lemma split_on_nonempty [simp]: "split_on c s \<noteq> []"
  by (induction s) (auto split: list.splits)

lemma split_on_none: "c \<notin> set s \<Longrightarrow> split_on c s = [s]"
  by (induction s) (auto split: list.splits)

lemma split_on_cons: "c \<notin> set u \<Longrightarrow> split_on c (u @ c # v) = u # split_on c v"
  by (induction u) (auto split: list.splits)

lemma arg_of_pair: "CHR ''='' \<notin> set k \<Longrightarrow> arg_of (k @ CHR ''='' # w) = (k, urlDecode w)"
  by (simp add: arg_of_def takeWhile_append dropWhile_append)

lemma split_on_append: "split_on c (u @ c # v) = split_on c u @ split_on c v"
  by (induction u) (auto split: list.splits)

lemma args_of_append: "args_of (u @ CHR ''&'' # v) = args_of u @ args_of v"
  by (simp add: args_of_def split_on_append)

lemma args_of_none: "CHR ''&'' \<notin> set u \<Longrightarrow> args_of u = (if CHR ''='' \<in> set u then [arg_of u] else [])"
  by (simp add: args_of_def split_on_none)

lemma args_of_cons: "CHR ''&'' \<notin> set u \<Longrightarrow>
    args_of (u @ CHR ''&'' # v) = (if CHR ''='' \<in> set u then [arg_of u] else []) @ args_of v"
  by (simp add: args_of_def split_on_cons)

text \<open>The first loop leaves room for every part.\<close>

lemma count_args_split:
  "count_args (p @ r) (length p) n = n + length (split_on (CHR ''&'') r) - 1"
proof (induction "length r" arbitrary: p r n rule: less_induct)
  case less
  show ?case
  proof (cases "CHR ''&'' \<in> set r")
    case False
    then show ?thesis
      using indexOf_append(2) [OF False, of p] by (subst count_args.simps) (simp add: split_on_none Let_def)
  next
    case True
    then obtain u v where r: "r = u @ CHR ''&'' # v" and u: "CHR ''&'' \<notin> set u"
      by (meson split_list_first)
    have "count_args (p @ r) (length p) n
        = count_args ((p @ u @ [CHR ''&'']) @ v) (length (p @ u @ [CHR ''&''])) (n + 1)"
      by (subst count_args.simps) (use indexOf_append(1) [OF u, of p v] in \<open>simp add: r Let_def nat_add_distrib del: of_nat_add\<close>)
    also have "\<dots> = n + 1 + length (split_on (CHR ''&'') v) - 1"
      by (rule less.hyps) (simp add: r)
    finally show ?thesis by (simp add: r split_on_cons [OF u])
  qed
qed

text \<open>The equals sign of a part, seen from the whole string.\<close>

lemma equals_in_part:
  assumes "CHR ''='' \<in> set u"
  obtains k w where "u = k @ CHR ''='' # w" "CHR ''='' \<notin> set k"
    "indexOf (CHR ''='') (length p) (p @ u @ v) = int (length p + length k)"
proof -
  obtain k w where kw: "u = k @ CHR ''='' # w" "CHR ''='' \<notin> set k" using assms by (meson split_list_first)
  with indexOf_append(1) [OF kw(2), of p "w @ v"] show thesis by (intro that) simp_all
qed

lemma arg_loop_args_of:
  assumes "length (p @ r) < 4294967295" and "length acc + length (split_on (CHR ''&'') r) \<le> count"
  shows "arg_loop (p @ r) count (length p) acc = acc @ args_of r"
  using assms
proof (induction "length r" arbitrary: p r acc rule: less_induct)
  case less
  have room: "length acc < count"
    using less.prems(2) split_on_nonempty [of "CHR ''&''" r]
    by (cases "split_on (CHR ''&'') r") auto
  show ?case
  proof (cases "CHR ''&'' \<in> set r")
    case False
    note n = indexOf_append(2) [OF False, of p]
    show ?thesis
    proof (cases "CHR ''='' \<in> set r")
      case True
      then obtain k w where kw: "r = k @ CHR ''='' # w" "CHR ''='' \<notin> set k"
        "indexOf (CHR ''='') (length p) (p @ r @ []) = int (length p + length k)"
        by (rule equals_in_part [where v = "[]"])
      have "substring (int (length p)) (int (length p + length k)) (p @ r) = k"
        using less.prems(1) by (subst substring_mid) (simp_all add: kw)
      moreover have "substring (int (length p + length k) + 1) (- 1) (p @ r) = w"
        using substring_end [of "length p + length k + 1" "p @ r"] less.prems(1) by (simp add: kw ac_simps)
      ultimately show ?thesis
        using n room kw(3) True False arg_of_pair [OF kw(2), of w]
        by (subst arg_loop.simps) (simp add: args_of_none kw(1) Let_def del: of_nat_add)
    next
      case no: False
      with n room False indexOf_append(2) [OF no, of p] show ?thesis
        by (subst arg_loop.simps) (simp add: args_of_none Let_def)
    qed
  next
    case True
    then obtain u v where r: "r = u @ CHR ''&'' # v" and u: "CHR ''&'' \<notin> set u"
      by (meson split_list_first)
    let ?p = "p @ u @ [CHR ''&'']"
    note n = indexOf_append(1) [OF u, of p v]
    have l: "length v < length r" "length (?p @ v) < 4294967295" using less.prems(1) r by simp_all
    note IH = less.hyps [OF l(1), where p = ?p, OF l(2)]
    have nx: "nat (int (length p + length u)) + 1 = length ?p" by simp
    show ?thesis
    proof (cases "CHR ''='' \<in> set u")
      case True
      then obtain k w where kw: "u = k @ CHR ''='' # w" "CHR ''='' \<notin> set k"
        "indexOf (CHR ''='') (length p) (p @ u @ CHR ''&'' # v) = int (length p + length k)"
        by (rule equals_in_part)
      have "substring (int (length p)) (int (length p + length k)) (p @ r) = k"
        using less.prems(1) by (subst substring_mid) (simp_all add: kw r)
      moreover have "substring (int (length p + length k) + 1) (int (length p + length u)) (p @ r) = w"
        using substring_mid [of "length p + length k + 1" "length p + length u" "p @ r"] less.prems(1)
        by (simp add: kw r ac_simps)
      ultimately have "arg_loop (p @ r) count (length p) acc
          = arg_loop (?p @ v) count (length ?p) (acc @ [arg_of u])"
        using n room kw(3) arg_of_pair [OF kw(2), of w] unfolding nx [symmetric]
        by (subst arg_loop.simps) (simp add: r kw(1) Let_def del: of_nat_add)
      also have "\<dots> = acc @ arg_of u # args_of v"
        by (subst IH) (use less.prems(2) in \<open>simp_all add: r split_on_cons [OF u]\<close>)
      finally show ?thesis using True by (simp add: r args_of_cons [OF u])
    next
      case no: False
      have "indexOf (CHR ''='') (length p) (p @ u @ CHR ''&'' # v) = - 1
          \<or> int (length p + length u) < indexOf (CHR ''='') (length p) (p @ u @ CHR ''&'' # v)"
        using no by (auto simp: indexOf_def takeWhile_append)
      then have "arg_loop (p @ r) count (length p) acc = arg_loop (?p @ v) count (length ?p) acc"
        using n room unfolding nx [symmetric]
        by (subst arg_loop.simps) (simp add: r Let_def del: of_nat_add)
      also have "\<dots> = acc @ args_of v"
        by (subst IH) (use less.prems(2) in \<open>simp_all add: r split_on_cons [OF u]\<close>)
      finally show ?thesis using no by (simp add: r args_of_cons [OF u])
    qed
  qed
qed

lemma parse_is_args_of:
  assumes "length data < 4294967295"
  shows "parseArguments data = args_of data"
proof (cases "data = []")
  case True
  then show ?thesis by (simp add: parseArguments_def args_of_def)
next
  case False
  have "count_args data 0 1 = length (split_on (CHR ''&'') data)"
    using count_args_split [of "[]" data 1] by simp
  with False show ?thesis
    using arg_loop_args_of [of "[]" data "[]"] assms by (simp add: parseArguments_def)
qed

section \<open>Percent encoding\<close>

definition hex_digit :: "nat \<Rightarrow> char" where
  "hex_digit n = char_of (if n < 10 then n + 48 else n + 55)"

definition unreserved :: "char \<Rightarrow> bool" where
  "unreserved c = (let n = of_char c in
     48 \<le> n \<and> n \<le> (57 :: nat) \<or> 65 \<le> n \<and> n \<le> 90 \<or> 97 \<le> n \<and> n \<le> 122 \<or> c \<in> set ''-_.~'')"

definition urlEncode_char :: "char \<Rightarrow> string" where
  "urlEncode_char c = (if unreserved c then [c] else if c = CHR '' '' then ''+''
     else [CHR ''%'', hex_digit (of_char c div 16), hex_digit (of_char c mod 16)])"

definition urlEncode :: "string \<Rightarrow> string" where
  "urlEncode s = concat (map urlEncode_char s)"

lemma hexval_hex_digit: "n < 16 \<Longrightarrow> hexval (hex_digit n) = Some n"
  by (auto simp: hexval_def hex_digit_def of_char_of take_bit_eq_mod Let_def)

lemma of_char_div16: "of_char c div 16 < (16 :: nat)"
  by (rule less_mult_imp_div_less) simp

lemma strtol16_hex: "strtol16 (hex_digit (of_char c div 16)) (hex_digit (of_char c mod 16)) = of_char c"
  by (simp add: strtol16_def hexval_hex_digit of_char_div16)

lemma urlDecode_char: "urlDecode (urlEncode_char c @ r) = c # urlDecode r"
proof (cases "unreserved c")
  case True
  then have "c \<noteq> CHR ''%''" "c \<noteq> CHR ''+''" by (auto simp: unreserved_def Let_def)
  with True show ?thesis by (simp add: urlEncode_char_def)
next
  case False
  then show ?thesis
    by (auto simp: urlEncode_char_def strtol16_hex)
qed

lemma urlDecode_urlEncode: "urlDecode (urlEncode s) = s"
  by (induction s) (simp_all add: urlEncode_def urlDecode_char)

lemma hex_digit_no_amp: "n < 16 \<Longrightarrow> hex_digit n \<noteq> CHR ''&''"
proof
  assume "n < 16" "hex_digit n = CHR ''&''"
  then have "hexval (CHR ''&'') = Some n" using hexval_hex_digit [of n] by simp
  then show False by (simp add: hexval_def)
qed

lemma urlEncode_no_amp: "CHR ''&'' \<notin> set (urlEncode s)"
proof -
  have u: "\<not> unreserved (CHR ''&'')" by (simp add: unreserved_def)
  have "CHR ''&'' \<notin> set (urlEncode_char c)" for c
  proof (cases "unreserved c")
    case True
    with u have "c \<noteq> CHR ''&''" by metis
    with True show ?thesis by (simp add: urlEncode_char_def)
  next
    case False
    have "hex_digit (of_char c div 16) \<noteq> CHR ''&''" by (rule hex_digit_no_amp [OF of_char_div16])
    moreover have "hex_digit (of_char c mod 16) \<noteq> CHR ''&''" by (rule hex_digit_no_amp) simp
    ultimately show ?thesis using False by (simp add: urlEncode_char_def)
  qed
  then show ?thesis by (auto simp: urlEncode_def)
qed

text \<open>A query string for a list of arguments.\<close>

fun query_of :: "args \<Rightarrow> string" where
  "query_of [] = []"
| "query_of [(k, v)] = k @ CHR ''='' # urlEncode v"
| "query_of ((k, v) # kvs) = k @ CHR ''='' # urlEncode v @ CHR ''&'' # query_of kvs"

definition plain_key :: "string \<Rightarrow> bool" where
  "plain_key k \<longleftrightarrow> CHR ''&'' \<notin> set k \<and> CHR ''='' \<notin> set k"

lemma args_of_query: "\<forall>(k, v) \<in> set kvs. plain_key k \<Longrightarrow> args_of (query_of kvs) = kvs"
proof (induction kvs rule: query_of.induct)
  case 1
  then show ?case by (simp add: args_of_def)
next
  case (2 k v)
  then have "CHR ''&'' \<notin> set (k @ CHR ''='' # urlEncode v)"
    using urlEncode_no_amp by (auto simp: plain_key_def)
  with 2 show ?case
    by (simp add: args_of_none arg_of_pair plain_key_def urlDecode_urlEncode)
next
  case (3 k v kv kvs)
  then have amp: "CHR ''&'' \<notin> set (k @ CHR ''='' # urlEncode v)"
    using urlEncode_no_amp by (auto simp: plain_key_def)
  from 3 show ?case
    using args_of_cons [OF amp, of "query_of (kv # kvs)"]
    by (simp add: arg_of_pair plain_key_def urlDecode_urlEncode)
qed

section \<open>Properties\<close>

text \<open>\<open>_parseArguments\<close> returns, with neither loop leaving the array it allocated, the
  specification's list: the parts between ampersands that contain an equals sign, in order, split
  at their first equals sign, the value decoded.\<close>

theorem parseArguments_spec:
  assumes "length data < 2 ^ 31"
  shows "parseArguments data = args_of data
     \<and> length (parseArguments data) \<le> count_args data 0 1"
proof -
  have "length (args_of data) \<le> length (split_on (CHR ''&'') data)"
    by (simp add: args_of_def)
  moreover have "count_args data 0 1 = length (split_on (CHR ''&'') data)"
    using count_args_split [of "[]" data 1] by simp
  ultimately show ?thesis using parse_is_args_of [of data] assms by simp
qed

lemma parseArguments_spec_witness:
  "parseArguments ''a=1&flag&b=x%20y&=&'' = args_of ''a=1&flag&b=x%20y&=&''"
  using parseArguments_spec [of "''a=1&flag&b=x%20y&=&''"] by simp

text \<open>C13: any list of arguments, sent as a query with percent-encoded values, arrives as it is:
  the parser returns the list, and looking up a name gives its first value.\<close>

theorem query_roundtrip:
  assumes "\<forall>(k, v) \<in> set kvs. plain_key k" and "length (query_of kvs) < 2 ^ 31"
  shows "parseArguments (query_of kvs) = kvs
     \<and> arg name (parseArguments (query_of kvs)) = (case map_of kvs name of None \<Rightarrow> [] | Some v \<Rightarrow> v)
     \<and> (hasArg name (parseArguments (query_of kvs)) \<longleftrightarrow> name \<in> fst ` set kvs)"
proof -
  have p: "parseArguments (query_of kvs) = kvs"
    using parse_is_args_of [of "query_of kvs"] args_of_query [OF assms(1)] assms(2) by simp
  have "arg name kvs = (case map_of kvs name of None \<Rightarrow> [] | Some v \<Rightarrow> v)"
    "hasArg name kvs \<longleftrightarrow> name \<in> fst ` set kvs"
    by (induction kvs) (auto simp: arg_def hasArg_def)
  with p show ?thesis by simp
qed

lemma query_roundtrip_witness:
  "parseArguments (query_of [(''ip'', ''192.168.1.7''), (''port'', ''80 & more'')])
     = [(''ip'', ''192.168.1.7''), (''port'', ''80 & more'')]"
  by (rule query_roundtrip [THEN conjunct1]) (simp_all add: plain_key_def urlEncode_def urlEncode_char_def unreserved_def)

end
