(* ===== verification/Http_State.thy ===== *)
theory Http_State
  imports Http_Args "HOL-Library.Monad_Syntax"
begin

text \<open>
  The state of the web server (\<open>src/ESP8266WebServer/src/ESP8266WebServer.h\<close>) and the connection
  it serves, as \<open>WiFiClient\<close> presents it: \<open>rx\<close> are the bytes that arrive before the peer stays
  silent or closes, \<open>peer_open\<close> says that the peer then keeps the connection open, \<open>tx\<close> are the
  bytes sent so far and \<open>room\<close> is how many more the connection takes before it breaks. The state
  carries the application's own state in \<open>user\<close>. Handlers are functions on the whole state; the
  chain of handlers, set up once, is a list beside the state, and \<open>currentHandler\<close> is an index
  into it. An operation that may not return, or that leaves its arrays, is an \<open>option\<close>.
\<close>

section \<open>Types\<close>

datatype HTTPMethod = HTTP_ANY | HTTP_GET | HTTP_POST | HTTP_PUT | HTTP_PATCH | HTTP_DELETE | HTTP_OPTIONS
datatype HTTPUploadStatus = UPLOAD_FILE_START | UPLOAD_FILE_WRITE | UPLOAD_FILE_END | UPLOAD_FILE_ABORTED
datatype HTTPClientStatus = HC_NONE | HC_WAIT_READ | HC_WAIT_CLOSE

definition HTTP_DOWNLOAD_UNIT_SIZE :: nat where "HTTP_DOWNLOAD_UNIT_SIZE = 1460"
definition HTTP_UPLOAD_BUFLEN :: nat where "HTTP_UPLOAD_BUFLEN = 2048"
definition HTTP_MAX_DATA_WAIT :: u32 where "HTTP_MAX_DATA_WAIT = 1000"
definition HTTP_MAX_CLOSE_WAIT :: u32 where "HTTP_MAX_CLOSE_WAIT = 2000"
definition CONTENT_LENGTH_UNKNOWN :: nat where "CONTENT_LENGTH_UNKNOWN = 2 ^ 32 - 1"
definition CONTENT_LENGTH_NOT_SET :: nat where "CONTENT_LENGTH_NOT_SET = 2 ^ 32 - 2"

record HTTPUpload =
  status :: HTTPUploadStatus
  filename :: string
  upload_name :: string
  upload_type :: string
  totalSize :: nat
  currentSize :: nat
  buf :: string

record conn =
  rx :: string
  peer_open :: bool
  tx :: string
  room :: nat

record 'u web =
  unclaimed :: "conn list"
  currentClient :: "conn option"
  currentMethod :: HTTPMethod
  currentUri :: string
  currentStatus :: HTTPClientStatus
  statusChange :: u32
  currentHandler :: "nat option"
  currentArgs :: args
  currentUpload :: HTTPUpload
  currentHeaders :: args
  contentLength :: nat
  responseHeaders :: string
  hostHeader :: string
  user :: 'u

type_synonym 'u action = "'u web \<Rightarrow> 'u web option"

definition web_init :: "HTTPUpload \<Rightarrow> 'u \<Rightarrow> 'u web" where
  "web_init up u = \<lparr>unclaimed = [], currentClient = None, currentMethod = HTTP_ANY, currentUri = [],
     currentStatus = HC_NONE, statusChange = 0, currentHandler = None, currentArgs = [],
     currentUpload = up, currentHeaders = [], contentLength = 0, responseHeaders = [],
     hostHeader = [], user = u\<rparr>"

definition no_upload :: HTTPUpload where
  "no_upload = \<lparr>status = UPLOAD_FILE_END, filename = [], upload_name = [], upload_type = [],
     totalSize = 0, currentSize = 0, buf = replicate HTTP_UPLOAD_BUFLEN (CHR 0x00)\<rparr>"

definition server_begin :: "'u web \<Rightarrow> 'u web" where
  "server_begin w = (let w = w\<lparr>currentStatus := HC_NONE\<rparr> in
     if currentHeaders w = [] then w\<lparr>currentHeaders := collectHeaders []\<rparr> else w)"

section \<open>The connection\<close>

definition conn_available :: "conn option \<Rightarrow> nat" where
  "conn_available c = (case c of None \<Rightarrow> 0 | Some c \<Rightarrow> length (rx c))"

definition conn_connected :: "conn option \<Rightarrow> bool" where
  "conn_connected c = (case c of None \<Rightarrow> False | Some c \<Rightarrow> peer_open c \<or> 0 < length (rx c))"

text \<open>A write takes what the connection has room for.\<close>

definition conn_write :: "string \<Rightarrow> conn option \<Rightarrow> nat \<times> conn option" where
  "conn_write bs c =
     (case c of None \<Rightarrow> (0, None)
      | Some c \<Rightarrow> (let n = min (length bs) (room c) in
          (n, Some (c\<lparr>tx := tx c @ take n bs, room := room c - n\<rparr>))))"

definition conn_sent :: "conn option \<Rightarrow> string" where
  "conn_sent c = (case c of None \<Rightarrow> [] | Some c \<Rightarrow> tx c)"

text \<open>Input operations on the current client.\<close>

definition input :: "'u web \<Rightarrow> string" where
  "input w = (case currentClient w of None \<Rightarrow> [] | Some c \<Rightarrow> rx c)"

definition set_input :: "string \<Rightarrow> 'u web \<Rightarrow> 'u web" where
  "set_input s w = w\<lparr>currentClient := map_option (\<lambda>c. c\<lparr>rx := s\<rparr>) (currentClient w)\<rparr>"

definition connected :: "'u web \<Rightarrow> bool" where
  "connected w = conn_connected (currentClient w)"

definition read_until :: "char \<Rightarrow> 'u web \<Rightarrow> string \<times> 'u web" where
  "read_until c w = (case readStringUntil c (input w) of (l, r) \<Rightarrow> (l, set_input r w))"

definition CR :: char where "CR = CHR 0x0D"
definition LF :: char where "LF = CHR 0x0A"

text \<open>\<open>readStringUntil('\r'); readStringUntil('\n');\<close>\<close>

definition read_line :: "'u web \<Rightarrow> string \<times> 'u web" where
  "read_line w = (case read_until CR w of (l, w) \<Rightarrow> (l, snd (read_until LF w)))"

definition flush_input :: "'u web \<Rightarrow> 'u web" where
  "flush_input = set_input []"

lemma set_input_fields [simp]:
  "currentHandler (set_input s w) = currentHandler w" "currentUri (set_input s w) = currentUri w"
  "currentMethod (set_input s w) = currentMethod w" "currentStatus (set_input s w) = currentStatus w"
  "currentArgs (set_input s w) = currentArgs w" "currentUpload (set_input s w) = currentUpload w"
  "currentHeaders (set_input s w) = currentHeaders w" "contentLength (set_input s w) = contentLength w"
  "responseHeaders (set_input s w) = responseHeaders w" "hostHeader (set_input s w) = hostHeader w"
  "user (set_input s w) = user w" "unclaimed (set_input s w) = unclaimed w"
  "statusChange (set_input s w) = statusChange w"
  "currentClient (set_input s w) = None \<longleftrightarrow> currentClient w = None"
  by (simp_all add: set_input_def)

lemma set_input_set_input [simp]: "set_input s (set_input t w) = set_input s w"
  by (simp add: set_input_def option.map_comp comp_def)

lemma input_set_input [simp]: "currentClient w \<noteq> None \<Longrightarrow> input (set_input s w) = s"
  by (auto simp: set_input_def input_def)

lemma input_none: "currentClient w = None \<Longrightarrow> input w = []"
  by (simp add: input_def)

lemma set_input_same [simp]: "set_input (input w) w = w"
  by (cases "currentClient w") (simp_all add: set_input_def input_def)

lemma connected_input: "currentClient w \<noteq> None \<Longrightarrow> input w \<noteq> [] \<Longrightarrow> connected w"
  by (auto simp: connected_def conn_connected_def input_def)

lemma read_line_found:
  assumes "currentClient w \<noteq> None" and "input w = u @ CR # LF # v" and "CR \<notin> set u"
  shows "read_line w = (u, set_input v w)"
  using assms readStringUntil_found [of CR u "LF # v"] readStringUntil_found [of LF "[]" v]
  by (simp add: read_line_def read_until_def)

lemma read_line_empty: "input w = [] \<Longrightarrow> read_line w = ([], w)"
  by (cases "currentClient w")
    (simp_all add: read_line_def read_until_def readStringUntil_def set_input_def input_def)

lemma read_line_shorter:
  "read_line w = (l, w') \<Longrightarrow> length (input w') \<le> length (input w)
     \<and> (l \<noteq> [] \<longrightarrow> length (input w') < length (input w))"
proof -
  assume r: "read_line w = (l, w')"
  show ?thesis
  proof (cases "currentClient w = None")
    case True
    with r show ?thesis
      by (auto simp: read_line_def read_until_def readStringUntil_def input_def set_input_def split: option.splits)
  next
    case False
    let ?r = "drop 1 (dropWhile (\<lambda>x. x \<noteq> CR) (input w))"
    have w': "w' = set_input (drop 1 (dropWhile (\<lambda>x. x \<noteq> LF) ?r)) w"
      and l: "l = takeWhile (\<lambda>x. x \<noteq> CR) (input w)"
      using r False by (auto simp: read_line_def read_until_def readStringUntil_def)
    have "length (drop 1 (dropWhile (\<lambda>x. x \<noteq> LF) ?r)) \<le> length ?r"
      using length_dropWhile_le [of "\<lambda>x. x \<noteq> LF" ?r] by simp
    moreover have "length l + length (dropWhile (\<lambda>x. x \<noteq> CR) (input w)) = length (input w)"
      unfolding l length_append [symmetric] by simp
    ultimately show ?thesis using False w' by (cases "l = []") (auto simp flip: length_greater_0_conv)
  qed
qed

section \<open>Byte sinks\<close>

text \<open>What the response code relies on: a write reports how many bytes, from the front, were sent.\<close>

locale byte_sink =
  fixes wr :: "string \<Rightarrow> 'c \<Rightarrow> nat \<times> 'c"
    and sent :: "'c \<Rightarrow> string"
  assumes write_sent: "wr bs c = (n, c') \<Longrightarrow> n \<le> length bs \<and> sent c' = sent c @ take n bs"
begin

text \<open>Writes of successive pieces, stopped at the first short one, send a prefix of the whole.\<close>

definition write_all :: "string list \<Rightarrow> 'c \<Rightarrow> nat \<times> 'c" where
  "write_all = rec_list (\<lambda>c. (0, c)) (\<lambda>b bs r c. case wr b c of (n, c) \<Rightarrow>
     if n = length b then (case r c of (m, c) \<Rightarrow> (n + m, c)) else (n, c))"

lemma write_all_prefix:
  "write_all bs c = (n, c') \<Longrightarrow> n \<le> length (concat bs) \<and> sent c' = sent c @ take n (concat bs)"
proof (induction bs arbitrary: c n c')
  case Nil
  then show ?case by (simp add: write_all_def)
next
  case (Cons b bs)
  obtain k c1 where k: "wr b c = (k, c1)" by (cases "wr b c")
  obtain m c2 where m: "write_all bs c1 = (m, c2)" by (cases "write_all bs c1")
  show ?case
    using Cons.prems Cons.IH [OF m] write_sent [OF k] k m
    by (auto simp: write_all_def split: if_splits)
qed

lemma write_again:
  assumes "wr bs c = (n, c1)" and "wr (drop n bs) c1 = (m, c2)"
  shows "sent c2 = sent c @ take (n + m) bs"
  using write_sent [OF assms(1)] write_sent [OF assms(2)] by (simp add: take_add)

end

interpretation conn: byte_sink conn_write conn_sent
  by unfold_locales (auto simp: conn_write_def conn_sent_def Let_def split: option.splits)

lemma conn_write_enough:
  "room c \<ge> length bs \<Longrightarrow>
     conn_write bs (Some c) = (length bs, Some (c\<lparr>tx := tx c @ bs, room := room c - length bs\<rparr>))"
  by (simp add: conn_write_def Let_def min_def)

end
