(* ===== verification/Http_Response.thy ===== *)
theory Http_Response
  imports Http_State
begin

text \<open>
  Responses (\<open>src/ESP8266WebServer/src/ESP8266WebServer.cpp\<close>, lines 89 to 125, 230 to 371, 490 to
  534; \<open>ESP8266WebServer.h\<close>, lines 116 to 133; the writing template of
  \<open>src/ESP8266WiFi/src/WiFiClient.h\<close>): status line, headers, contents in pieces of
  \<open>HTTP_DOWNLOAD_UNIT_SIZE\<close>, authentication. The lemmas show that whatever the connection takes is
  a prefix of the response, and all of it when the connection has room.
\<close>

section \<open>Headers\<close>

definition responseCodes :: "(int \<times> string) list" where
  "responseCodes = [(100, ''Continue''), (101, ''Switching Protocols''), (200, ''OK''),
     (201, ''Created''), (202, ''Accepted''), (203, ''Non-Authoritative Information''),
     (204, ''No Content''), (205, ''Reset Content''), (206, ''Partial Content''),
     (300, ''Multiple Choices''), (301, ''Moved Permanently''), (302, ''Found''),
     (303, ''See Other''), (304, ''Not Modified''), (305, ''Use Proxy''),
     (307, ''Temporary Redirect''), (400, ''Bad Request''), (401, ''Unauthorized''),
     (402, ''Payment Required''), (403, ''Forbidden''), (404, ''Not Found''),
     (405, ''Method Not Allowed''), (406, ''Not Acceptable''),
     (407, ''Proxy Authentication Required''), (408, ''Request Time-out''), (409, ''Conflict''),
     (410, ''Gone''), (411, ''Length Required''), (412, ''Precondition Failed''),
     (413, ''Request Entity Too Large''), (414, ''Request-URI Too Large''),
     (415, ''Unsupported Media Type''), (416, ''Requested range not satisfiable''),
     (417, ''Expectation Failed''), (500, ''Internal Server Error''), (501, ''Not Implemented''),
     (502, ''Bad Gateway''), (503, ''Service Unavailable''), (504, ''Gateway Time-out''),
     (505, ''HTTP Version not supported'')]"

definition responseCodeToString :: "int \<Rightarrow> string" where
  "responseCodeToString code = (case map_of responseCodes code of None \<Rightarrow> [] | Some s \<Rightarrow> s)"

definition CRLF :: string where "CRLF = [CR, LF]"

definition sendHeader :: "string \<Rightarrow> string \<Rightarrow> bool \<Rightarrow> 'u web \<Rightarrow> 'u web" where
  "sendHeader name value first w =
     (let headerLine = name @ '': '' @ value @ CRLF in
      if first then w\<lparr>responseHeaders := headerLine @ responseHeaders w\<rparr>
      else w\<lparr>responseHeaders := responseHeaders w @ headerLine\<rparr>)"

definition setContentLength :: "nat \<Rightarrow> 'u web \<Rightarrow> 'u web" where
  "setContentLength n w = w\<lparr>contentLength := n\<rparr>"

definition prepareHeader :: "int \<Rightarrow> string option \<Rightarrow> nat \<Rightarrow> 'u web \<Rightarrow> string \<times> 'u web" where
  "prepareHeader code content_type len w =
     (let response = ''HTTP/1.1 '' @ decimal_int code @ '' '' @ responseCodeToString code @ CRLF;
          content_type = (case content_type of None \<Rightarrow> ''text/html'' | Some t \<Rightarrow> t);
          w = sendHeader ''Content-Type'' content_type True w;
          w = (if contentLength w = CONTENT_LENGTH_NOT_SET
               then sendHeader ''Content-Length'' (decimal len) False w
               else if contentLength w \<noteq> CONTENT_LENGTH_UNKNOWN
               then sendHeader ''Content-Length'' (decimal (contentLength w)) False w else w);
          w = sendHeader ''Connection'' ''close'' False w;
          w = sendHeader ''Access-Control-Allow-Origin'' ''*'' False w
      in (response @ responseHeaders w @ CRLF, w\<lparr>responseHeaders := []\<rparr>))"

section \<open>Contents\<close>

function sendContent_loop :: "string \<Rightarrow> conn option \<Rightarrow> conn option" where
  "sendContent_loop data c =
     (if data = [] then c
      else (let will_send = take HTTP_DOWNLOAD_UNIT_SIZE data;
                (sent, c) = conn_write will_send c
            in if sent = 0 then c else sendContent_loop (drop sent data) c))"
  by pat_completeness auto
termination by (relation "measure (\<lambda>(data, c). length data)") auto

declare sendContent_loop.simps [simp del]

definition sendContent :: "string \<Rightarrow> 'u web \<Rightarrow> 'u web" where
  "sendContent content w = w\<lparr>currentClient := sendContent_loop content (currentClient w)\<rparr>"

definition send :: "int \<Rightarrow> string option \<Rightarrow> string \<Rightarrow> 'u web \<Rightarrow> 'u web" where
  "send code content_type content w =
     (let (header, w) = prepareHeader code content_type (length content) w;
          w = sendContent header w
      in sendContent content w)"

text \<open>The variants for strings in flash: with a terminator, and with a length. They do not look at
  the number of bytes written.\<close>

function sendContent_P_loop :: "string \<Rightarrow> conn option \<Rightarrow> conn option" where
  "sendContent_P_loop content c =
     (if length content < HTTP_DOWNLOAD_UNIT_SIZE then snd (conn_write content c)
      else sendContent_P_loop (drop HTTP_DOWNLOAD_UNIT_SIZE content)
             (snd (conn_write (take HTTP_DOWNLOAD_UNIT_SIZE content) c)))"
  by pat_completeness auto
termination
  by (relation "measure (\<lambda>(content, c). length content)") (auto simp: HTTP_DOWNLOAD_UNIT_SIZE_def)

declare sendContent_P_loop.simps [simp del]

definition sendContent_P :: "string option \<Rightarrow> 'u web \<Rightarrow> 'u web" where
  "sendContent_P content w = (case content of None \<Rightarrow> w
     | Some s \<Rightarrow> w\<lparr>currentClient := sendContent_P_loop s (currentClient w)\<rparr>)"

function sendContent_Pn_loop :: "string \<Rightarrow> nat \<Rightarrow> conn option \<Rightarrow> conn option" where
  "sendContent_Pn_loop content remaining_size c =
     (if 0 < remaining_size then
        (let n = (if remaining_size < HTTP_DOWNLOAD_UNIT_SIZE then remaining_size else HTTP_DOWNLOAD_UNIT_SIZE)
         in sendContent_Pn_loop (drop n content) (remaining_size - n) (snd (conn_write (take n content) c)))
      else c)"
  by pat_completeness auto
termination
  by (relation "measure (\<lambda>(content, n, c). n)") (auto simp: HTTP_DOWNLOAD_UNIT_SIZE_def)

declare sendContent_Pn_loop.simps [simp del]

definition sendContent_Pn :: "string option \<Rightarrow> nat \<Rightarrow> 'u web \<Rightarrow> 'u web" where
  "sendContent_Pn content sz w = (case content of None \<Rightarrow> w
     | Some s \<Rightarrow> w\<lparr>currentClient := sendContent_Pn_loop s sz (currentClient w)\<rparr>)"

text \<open>\<open>memccpy_P\<close> copies the type with its terminator into 64 bytes; a longer type is left without
  a terminator and read past the array.\<close>

definition send_P :: "int \<Rightarrow> string \<Rightarrow> string option \<Rightarrow> 'u web \<Rightarrow> 'u web option" where
  "send_P code content_type content w =
     (if length content_type < 64 then
        (let len = (case content of None \<Rightarrow> 0 | Some s \<Rightarrow> length s);
             (header, w) = prepareHeader code (Some content_type) len w;
             w = sendContent header w
         in Some (sendContent_P content w))
      else None)"

definition send_Pn :: "int \<Rightarrow> string \<Rightarrow> string option \<Rightarrow> nat \<Rightarrow> 'u web \<Rightarrow> 'u web option" where
  "send_Pn code content_type content len w =
     (if length content_type < 64 then
        (let (header, w) = prepareHeader code (Some content_type) len w;
             w = sendContent header w
         in Some (sendContent_Pn content len w))
      else None)"

text \<open>\<open>WiFiClient::write(T& source, size_t unitSize)\<close> on a source that holds \<open>data\<close>.\<close>

function write_source :: "nat \<Rightarrow> string \<Rightarrow> nat \<Rightarrow> conn option \<Rightarrow> nat \<times> conn option" where
  "write_source unitSize data size_sent c =
     (if data = [] \<or> unitSize = 0 then (size_sent, c)
      else (let will_send = (if length data < unitSize then length data else unitSize);
                (cb, c) = conn_write (take will_send data) c;
                size_sent = size_sent + cb
            in if cb \<noteq> will_send then (size_sent, c)
               else write_source unitSize (drop will_send data) size_sent c))"
  by pat_completeness auto
termination by (relation "measure (\<lambda>(u, data, n, c). length data)") auto

declare write_source.simps [simp del]

text \<open>A file is its name and its contents.\<close>

definition streamFile :: "string \<times> string \<Rightarrow> string \<Rightarrow> 'u web \<Rightarrow> nat \<times> 'u web" where
  "streamFile file contentType w =
     (let w = setContentLength (length (snd file)) w;
          w = (if endsWith (fst file) ''.gz'' \<and> contentType \<noteq> ''application/x-gzip''
                  \<and> contentType \<noteq> ''application/octet-stream''
               then sendHeader ''Content-Encoding'' ''gzip'' False w else w);
          w = send 200 (Some contentType) [] w;
          (n, c) = write_source HTTP_DOWNLOAD_UNIT_SIZE (snd file) 0 (currentClient w)
      in (n, w\<lparr>currentClient := c\<rparr>))"

section \<open>Authentication\<close>

text \<open>\<open>b64\<close> is the encoder of libb64. The length is stored in a \<open>char\<close>; from 256 on the buffer is
  smaller than what \<open>sprintf\<close> writes into it, which is \<open>None\<close>.\<close>

definition authenticate :: "(string \<Rightarrow> string) \<Rightarrow> string \<Rightarrow> string \<Rightarrow> 'u web \<Rightarrow> bool option" where
  "authenticate b64 username password w =
     (if hasHeader AUTHORIZATION_HEADER (currentHeaders w) then
        (let authReq = arg AUTHORIZATION_HEADER (currentHeaders w) in
         if startsWith authReq ''Basic'' then
           (let authReq = trim (substring_from 6 authReq);
                toencodeLen = to_u8 (length username + length password + 1);
                toencode = username @ '':'' @ password
            in if length toencode \<le> toencodeLen
               then Some (0 < length (b64 toencode) \<and> authReq = b64 toencode)
               else None)
         else Some False)
      else Some False)"

definition requestAuthentication :: "'u web \<Rightarrow> 'u web" where
  "requestAuthentication w =
     (let w = sendHeader ''WWW-Authenticate'' ''Basic realm=\"Login Required\"'' False w
      in send 401 None [] w)"

section \<open>What is sent\<close>

lemma conn_write_full:
  "\<exists>n c'. conn_write bs c = (n, c') \<and> n \<le> length bs \<and> conn_sent c' = conn_sent c @ take n bs
     \<and> (n < length bs \<longrightarrow> (case c' of None \<Rightarrow> True | Some d \<Rightarrow> room d = 0))
     \<and> (c' = None \<longleftrightarrow> c = None)"
  by (auto simp: conn_write_def conn_sent_def Let_def min_def split: option.splits)

definition stuck :: "conn option \<Rightarrow> bool" where
  "stuck c = (case c of None \<Rightarrow> True | Some d \<Rightarrow> room d = 0)"

lemma conn_write_stuck: "stuck c \<Longrightarrow> conn_write bs c = (0, c)"
  by (auto simp: stuck_def conn_write_def split: option.splits)

text \<open>\<open>sends data c c'\<close>: the bytes of \<open>data\<close> were sent, or a prefix of them and the connection is stuck.\<close>

definition sends :: "string \<Rightarrow> conn option \<Rightarrow> conn option \<Rightarrow> bool" where
  "sends data c c' \<longleftrightarrow> (\<exists>n \<le> length data. conn_sent c' = conn_sent c @ take n data
     \<and> (n < length data \<longrightarrow> stuck c')) \<and> (c' = None \<longleftrightarrow> c = None)"

lemma sendsI:
  assumes "conn_sent c' = conn_sent c @ take n data" "n \<le> length data" "n < length data \<Longrightarrow> stuck c'"
    "c' = None \<longleftrightarrow> c = None"
  shows "sends data c c'"
  using assms by (auto simp: sends_def)

lemma sends_write: "conn_write bs c = (n, c') \<Longrightarrow> sends bs c c'"
  using conn_write_full [of bs c] by (auto simp: stuck_def intro: sendsI split: option.splits)

lemma sends_stuck: "stuck c \<Longrightarrow> sends data c c"
  by (rule sendsI [where n = 0]) simp_all

lemma sends_trans:
  assumes "sends a c c1" "sends b c1 c2" "stuck c1 \<Longrightarrow> c2 = c1"
  shows "sends (a @ b) c c2"
proof -
  obtain n where n: "n \<le> length a" "conn_sent c1 = conn_sent c @ take n a" "n < length a \<longrightarrow> stuck c1"
    using assms(1) by (auto simp: sends_def)
  obtain m where m: "m \<le> length b" "conn_sent c2 = conn_sent c1 @ take m b" "m < length b \<longrightarrow> stuck c2"
    using assms(2) by (auto simp: sends_def)
  have e: "c2 = None \<longleftrightarrow> c = None" using assms(1,2) by (simp add: sends_def)
  show ?thesis
  proof (cases "n = length a")
    case True
    with n m e show ?thesis by (intro sendsI [where n = "n + m"]) simp_all
  next
    case False
    with n assms(3) have "c2 = c1" "stuck c1" by auto
    with n False e show ?thesis by (intro sendsI [where n = n]) simp_all
  qed
qed

lemma sendContent_loop_stuck: "stuck c \<Longrightarrow> sendContent_loop data c = c"
  by (subst sendContent_loop.simps) (simp add: conn_write_stuck)

lemma sendContent_loop_sends: "sends data c (sendContent_loop data c)"
proof (induction data c rule: sendContent_loop.induct)
  case (1 data c)
  show ?case
  proof (cases "data = []")
    case True
    then show ?thesis by (subst sendContent_loop.simps) (simp add: sends_def)
  next
    case False
    let ?u = "take HTTP_DOWNLOAD_UNIT_SIZE data"
    obtain n c' where w: "conn_write ?u c = (n, c')" by (cases "conn_write ?u c")
    have f: "n \<le> length ?u" "conn_sent c' = conn_sent c @ take n ?u" "n < length ?u \<longrightarrow> stuck c'"
      "c' = None \<longleftrightarrow> c = None"
      using conn_write_full [of ?u c] w by (auto simp: stuck_def split: option.splits)
    have u: "0 < length ?u" using False by (simp add: HTTP_DOWNLOAD_UNIT_SIZE_def)
    show ?thesis
    proof (cases "n = 0")
      case True
      with w False have "sendContent_loop data c = c'" by (subst sendContent_loop.simps) (simp add: Let_def)
      with True f u show ?thesis by (intro sendsI [where n = 0]) simp_all
    next
      case nz: False
      with w False have e: "sendContent_loop data c = sendContent_loop (drop n data) c'"
        by (subst sendContent_loop.simps) (simp add: Let_def)
      have "sends (take n data @ drop n data) c (sendContent_loop (drop n data) c')"
      proof (rule sends_trans)
        show "sends (take n data) c c'"
          using f by (intro sendsI [where n = n]) (simp_all add: take_take)
        show "sends (drop n data) c' (sendContent_loop (drop n data) c')"
          using 1 [OF False refl w [symmetric] refl nz] by simp
      qed (rule sendContent_loop_stuck)
      with e show ?thesis by simp
    qed
  qed
qed

lemma sendContent_P_loop_stuck: "stuck c \<Longrightarrow> sendContent_P_loop data c = c"
  by (induction data c rule: sendContent_P_loop.induct)
    (subst sendContent_P_loop.simps, simp add: conn_write_stuck)

lemma sendContent_P_loop_sends: "sends data c (sendContent_P_loop data c)"
proof (induction data c rule: sendContent_P_loop.induct)
  case (1 data c)
  show ?case
  proof (cases "length data < HTTP_DOWNLOAD_UNIT_SIZE")
    case True
    then show ?thesis
      using sends_write [OF surjective_pairing, of data c] by (subst sendContent_P_loop.simps) simp
  next
    case False
    let ?u = "take HTTP_DOWNLOAD_UNIT_SIZE data" and ?v = "drop HTTP_DOWNLOAD_UNIT_SIZE data"
    have "sends (?u @ ?v) c (sendContent_P_loop ?v (snd (conn_write ?u c)))"
      by (rule sends_trans [OF sends_write [OF surjective_pairing] 1 [OF False]])
        (rule sendContent_P_loop_stuck)
    with False show ?thesis by (subst sendContent_P_loop.simps) simp
  qed
qed

lemma write_source_sends:
  assumes "0 < u" "write_source u data k c = (n, c')"
  shows "sends data c c' \<and> conn_sent c' = conn_sent c @ take (n - k) data \<and> k \<le> n"
  using assms
proof (induction u data k c arbitrary: n c' rule: write_source.induct)
  case (1 u data k c)
  show ?case
  proof (cases "data = []")
    case True
    with 1 show ?thesis by (auto simp: write_source.simps sends_def)
  next
    case False
    define ws where "ws = (if length data < u then length data else u)"
    obtain cb c1 where w: "conn_write (take ws data) c = (cb, c1)" by (cases "conn_write (take ws data) c")
    have l: "length (take ws data) = ws" by (simp add: ws_def)
    have f: "cb \<le> ws" "conn_sent c1 = conn_sent c @ take cb (take ws data)" "cb < ws \<longrightarrow> stuck c1"
      "c1 = None \<longleftrightarrow> c = None"
      using conn_write_full [of "take ws data" c] w l by (auto simp: stuck_def split: option.splits)
    have r: "write_source u data k c =
        (if cb \<noteq> ws then (k + cb, c1) else write_source u (drop ws data) (k + cb) c1)"
      by (subst write_source.simps) (use False 1(2) w in \<open>simp add: Let_def ws_def [symmetric]\<close>)
    show ?thesis
    proof (cases "cb = ws")
      case True
      with r 1(3) have "write_source u (drop ws data) (k + cb) c1 = (n, c')" by simp
      with 1(1) [OF _ ws_def w [symmetric] refl] False 1(2) True
      have IH: "sends (drop ws data) c1 c'" "conn_sent c' = conn_sent c1 @ take (n - (k + cb)) (drop ws data)"
        "k + cb \<le> n" by auto
      have "take (n - k) data = take ws data @ take (n - (k + cb)) (drop ws data)"
        using IH(3) True by (metis add.commute diff_diff_eq le_add_diff_inverse le_diff_conv2 take_add add_leD1)
      with IH f True have s: "conn_sent c' = conn_sent c @ take (n - k) data" "k \<le> n" by auto
      obtain m where m: "m \<le> length (drop ws data)" "conn_sent c' = conn_sent c1 @ take m (drop ws data)"
        "m < length (drop ws data) \<longrightarrow> stuck c'" "c' = None \<longleftrightarrow> c1 = None"
        using IH(1) by (auto simp: sends_def)
      have "ws \<le> length data" by (simp add: ws_def)
      with m f True have "sends data c c'"
        by (intro sendsI [where n = "ws + m"]) (simp_all add: take_add)
      with s show ?thesis by simp
    next
      case nf: False
      with r 1(3) have e: "n = k + cb" "c' = c1" by auto
      have "ws \<le> length data" by (simp add: ws_def)
      with e f nf show ?thesis by (auto intro: sendsI [where n = cb] simp: min_def)
    qed
  qed
qed

section \<open>Properties\<close>

text \<open>The response a request gets when the connection takes it.\<close>

definition response_of :: "int \<Rightarrow> string \<Rightarrow> string \<Rightarrow> string \<Rightarrow> string \<Rightarrow> string" where
  "response_of code content_type headers len_header content =
     ''HTTP/1.1 '' @ decimal_int code @ '' '' @ responseCodeToString code @ CRLF
     @ ''Content-Type: '' @ content_type @ CRLF @ headers @ len_header
     @ ''Connection: close'' @ CRLF @ ''Access-Control-Allow-Origin: *'' @ CRLF @ CRLF @ content"

definition length_header :: "nat \<Rightarrow> nat \<Rightarrow> string" where
  "length_header set_length n =
     (if set_length = CONTENT_LENGTH_UNKNOWN then []
      else ''Content-Length: '' @ decimal (if set_length = CONTENT_LENGTH_NOT_SET then n else set_length) @ CRLF)"

lemma prepareHeader_response:
  "prepareHeader code t n w =
     (response_of code (case t of None \<Rightarrow> ''text/html'' | Some t \<Rightarrow> t) (responseHeaders w)
        (length_header (contentLength w) n) [], w\<lparr>responseHeaders := []\<rparr>)"
  by (simp add: prepareHeader_def sendHeader_def Let_def response_of_def length_header_def
      CONTENT_LENGTH_NOT_SET_def CONTENT_LENGTH_UNKNOWN_def)

lemma send_sends:
  "sends (response_of code (case t of None \<Rightarrow> ''text/html'' | Some t \<Rightarrow> t) (responseHeaders w)
        (length_header (contentLength w) (length content)) content)
     (currentClient w) (currentClient (send code t content w))"
proof -
  let ?h = "response_of code (case t of None \<Rightarrow> ''text/html'' | Some t \<Rightarrow> t) (responseHeaders w)
        (length_header (contentLength w) (length content)) []"
  let ?c1 = "sendContent_loop ?h (currentClient w)"
  have "currentClient (send code t content w) = sendContent_loop content ?c1"
    by (simp add: send_def prepareHeader_response sendContent_def)
  moreover have "sends (?h @ content) (currentClient w) (sendContent_loop content ?c1)"
    by (rule sends_trans [OF sendContent_loop_sends sendContent_loop_sends sendContent_loop_stuck])
  ultimately show ?thesis by (simp add: response_of_def)
qed

text \<open>On a connection with room nothing is lost.\<close>

lemma sendContent_loop_all:
  "length data \<le> room c \<Longrightarrow>
     sendContent_loop data (Some c) = Some (c\<lparr>tx := tx c @ data, room := room c - length data\<rparr>)"
proof (induction "length data" arbitrary: data c rule: less_induct)
  case less
  show ?case
  proof (cases "data = []")
    case True
    then show ?thesis by (simp add: sendContent_loop.simps)
  next
    case False
    let ?u = "take HTTP_DOWNLOAD_UNIT_SIZE data" and ?v = "drop HTTP_DOWNLOAD_UNIT_SIZE data"
    define n where "n = length ?u"
    let ?c = "c\<lparr>tx := tx c @ ?u, room := room c - n\<rparr>"
    have d: "drop n data = ?v" by (simp add: n_def min_def)
    have u: "n \<noteq> 0" using False by (simp add: n_def HTTP_DOWNLOAD_UNIT_SIZE_def)
    have "conn_write ?u (Some c) = (n, Some ?c)"
      unfolding n_def by (rule conn_write_enough) (use less.prems in simp)
    with False u d have "sendContent_loop data (Some c) = sendContent_loop ?v (Some ?c)"
      by (subst sendContent_loop.simps) simp
    also have "\<dots> = Some (?c\<lparr>tx := tx ?c @ ?v, room := room ?c - length ?v\<rparr>)"
      by (rule less.hyps) (use False less.prems in \<open>simp_all add: n_def HTTP_DOWNLOAD_UNIT_SIZE_def\<close>)
    also have "\<dots> = Some (c\<lparr>tx := tx c @ data, room := room c - length data\<rparr>)"
      by (simp add: n_def min_def)
    finally show ?thesis .
  qed
qed

lemma sendContent_P_loop_all:
  "length data \<le> room c \<Longrightarrow>
     sendContent_P_loop data (Some c) = Some (c\<lparr>tx := tx c @ data, room := room c - length data\<rparr>)"
proof (induction "length data" arbitrary: data c rule: less_induct)
  case less
  show ?case
  proof (cases "length data < HTTP_DOWNLOAD_UNIT_SIZE")
    case True
    with less.prems show ?thesis by (subst sendContent_P_loop.simps) (simp add: conn_write_enough)
  next
    case False
    let ?u = "take HTTP_DOWNLOAD_UNIT_SIZE data" and ?v = "drop HTTP_DOWNLOAD_UNIT_SIZE data"
    let ?c = "c\<lparr>tx := tx c @ ?u, room := room c - length ?u\<rparr>"
    have "conn_write ?u (Some c) = (length ?u, Some ?c)" by (rule conn_write_enough) (use less.prems in simp)
    with False have "sendContent_P_loop data (Some c) = sendContent_P_loop ?v (Some ?c)"
      by (subst sendContent_P_loop.simps) simp
    also have "\<dots> = Some (?c\<lparr>tx := tx ?c @ ?v, room := room ?c - length ?v\<rparr>)"
      by (rule less.hyps) (use False less.prems in \<open>simp_all add: HTTP_DOWNLOAD_UNIT_SIZE_def\<close>)
    also have "\<dots> = Some (c\<lparr>tx := tx c @ data, room := room c - length data\<rparr>)"
      using False by (simp add: min_def)
    finally show ?thesis .
  qed
qed

lemma write_source_all:
  "length data \<le> room c \<Longrightarrow> 0 < u \<Longrightarrow>
     write_source u data k (Some c)
     = (k + length data, Some (c\<lparr>tx := tx c @ data, room := room c - length data\<rparr>))"
proof (induction "length data" arbitrary: data c k rule: less_induct)
  case less
  show ?case
  proof (cases "data = []")
    case True
    then show ?thesis by (simp add: write_source.simps)
  next
    case False
    define ws where "ws = (if length data < u then length data else u)"
    have ws: "ws \<le> length data" "0 < ws" using False less.prems by (auto simp: ws_def)
    let ?c = "c\<lparr>tx := tx c @ take ws data, room := room c - ws\<rparr>"
    have "conn_write (take ws data) (Some c) = (ws, Some ?c)"
      using conn_write_enough [of "take ws data" c] ws less.prems by simp
    then have "write_source u data k (Some c) = write_source u (drop ws data) (k + ws) (Some ?c)"
      by (subst write_source.simps) (use False less.prems in \<open>simp add: Let_def ws_def [symmetric]\<close>)
    also have "\<dots> = (k + ws + length (drop ws data),
        Some (?c\<lparr>tx := tx ?c @ drop ws data, room := room ?c - length (drop ws data)\<rparr>))"
      by (rule less.hyps) (use ws less.prems in simp_all)
    also have "\<dots> = (k + length data, Some (c\<lparr>tx := tx c @ data, room := room c - length data\<rparr>))"
      using ws by simp
    finally show ?thesis .
  qed
qed

lemma send_all:
  assumes "currentClient w = Some c"
    and "r = response_of code (case t of None \<Rightarrow> ''text/html'' | Some t \<Rightarrow> t) (responseHeaders w)
        (length_header (contentLength w) (length content)) content"
    and "length r \<le> room c"
  shows "send code t content w
     = w\<lparr>responseHeaders := [], currentClient := Some (c\<lparr>tx := tx c @ r, room := room c - length r\<rparr>)\<rparr>"
proof -
  let ?h = "response_of code (case t of None \<Rightarrow> ''text/html'' | Some t \<Rightarrow> t) (responseHeaders w)
        (length_header (contentLength w) (length content)) []"
  let ?c = "c\<lparr>tx := tx c @ ?h, room := room c - length ?h\<rparr>"
  have r: "r = ?h @ content" using assms(2) by (simp add: response_of_def)
  have "sendContent_loop ?h (Some c) = Some ?c"
    by (rule sendContent_loop_all) (use assms(3) r in simp)
  moreover have "sendContent_loop content (Some ?c) = Some (?c\<lparr>tx := tx ?c @ content, room := room ?c - length content\<rparr>)"
    by (rule sendContent_loop_all) (use assms(3) r in simp)
  ultimately show ?thesis using assms(1) r
    by (simp add: send_def prepareHeader_response sendContent_def)
qed

text \<open>C17: a response is framed as it should be and sent from the front: \<open>send\<close> offers the
  connection the status line, the content type, the headers collected so far, the length of the
  content unless another was set, and the content; the connection receives a prefix of that, all
  of it unless it breaks, and the collected headers are used up.\<close>

theorem send_framed:
  "\<exists>n response. response = response_of code (case t of None \<Rightarrow> ''text/html'' | Some t \<Rightarrow> t)
         (responseHeaders w) (length_header (contentLength w) (length content)) content
     \<and> conn_sent (currentClient (send code t content w)) = conn_sent (currentClient w) @ take n response
     \<and> (n = length response \<or> stuck (currentClient (send code t content w)))
     \<and> responseHeaders (send code t content w) = []"
proof -
  have "responseHeaders (send code t content w) = []"
    by (simp add: send_def prepareHeader_response sendContent_def)
  with send_sends [of code t w content] show ?thesis by (auto simp: sends_def nat_less_le)
qed

text \<open>The three ways of sending a body (from RAM, from flash up to its terminator, from a file)
  agree on a connection with room: each sends the whole body once and in order, and the file
  variant reports its length.\<close>

theorem bodies_complete:
  assumes "length data \<le> room c"
  shows "sendContent_loop data (Some c) = Some (c\<lparr>tx := tx c @ data, room := room c - length data\<rparr>)
     \<and> sendContent_P_loop data (Some c) = Some (c\<lparr>tx := tx c @ data, room := room c - length data\<rparr>)
     \<and> write_source HTTP_DOWNLOAD_UNIT_SIZE data 0 (Some c)
         = (length data, Some (c\<lparr>tx := tx c @ data, room := room c - length data\<rparr>))"
  using sendContent_loop_all [OF assms] sendContent_P_loop_all [OF assms]
    write_source_all [OF assms, of HTTP_DOWNLOAD_UNIT_SIZE 0] by (simp add: HTTP_DOWNLOAD_UNIT_SIZE_def)

lemma bodies_complete_witness:
  "sendContent_loop ''hello'' (Some \<lparr>rx = [], peer_open = True, tx = ''a'', room = 9\<rparr>)
     = Some \<lparr>rx = [], peer_open = True, tx = ''ahello'', room = 4\<rparr>"
  using bodies_complete [of "''hello''" "\<lparr>rx = [], peer_open = True, tx = ''a'', room = 9\<rparr>"] by simp



end
