(* ===== verification/Http_Handlers.thy ===== *)
theory Http_Handlers
  imports Http_Response
begin

text \<open>
  Request handlers (\<open>src/ESP8266WebServer/src/detail/RequestHandler.h\<close>, \<open>RequestHandlersImpl.h\<close>) and
  their registration (\<open>ESP8266WebServer.cpp\<close>, lines 127 to 156, 454 to 460): the two handler
  classes as one datatype, their four virtual functions, and the chain with the not-found and
  upload functions. A handler function acts on the whole state; \<open>None\<close> is one that does not
  return. The file system is a record of its look-up functions on the application's state.
\<close>

section \<open>Handlers\<close>

record 'u FS =
  fs_exists :: "'u \<Rightarrow> string \<Rightarrow> bool"
  fs_open :: "'u \<Rightarrow> string \<Rightarrow> (string \<times> string) option"

definition no_files :: "'u FS" where
  "no_files = \<lparr>fs_exists = (\<lambda>_ _. False), fs_open = (\<lambda>_ _. None)\<rparr>"

datatype 'u handler =
    FunctionRequestHandler (fn: "'u action") (ufn: "'u action option") (furi: string) (fmethod: HTTPMethod)
  | StaticRequestHandler (sfs: "'u FS") (suri: string) (spath: string) (cache_header: string) (isFile: bool)

fun canHandle :: "'u handler \<Rightarrow> HTTPMethod \<Rightarrow> string \<Rightarrow> bool" where
  "canHandle (FunctionRequestHandler f g uri method) requestMethod requestUri =
     (if method \<noteq> HTTP_ANY \<and> method \<noteq> requestMethod then False
      else if requestUri \<noteq> uri then False else True)"
| "canHandle (StaticRequestHandler fs uri path cache is_file) requestMethod requestUri =
     (if requestMethod \<noteq> HTTP_GET then False
      else if (is_file \<and> requestUri \<noteq> uri) \<or> \<not> startsWith requestUri uri then False else True)"

fun canUpload :: "'u handler \<Rightarrow> string \<Rightarrow> bool" where
  "canUpload (FunctionRequestHandler f g uri method) requestUri =
     (if g = None \<or> \<not> canHandle (FunctionRequestHandler f g uri method) HTTP_POST requestUri
      then False else True)"
| "canUpload (StaticRequestHandler fs uri path cache is_file) requestUri = False"

definition contentTypes :: "(string \<times> string) list" where
  "contentTypes = [(''.html'', ''text/html''), (''.htm'', ''text/html''), (''.css'', ''text/css''),
     (''.txt'', ''text/plain''), (''.js'', ''application/javascript''), (''.png'', ''image/png''),
     (''.gif'', ''image/gif''), (''.jpg'', ''image/jpeg''), (''.ico'', ''image/x-icon''),
     (''.svg'', ''image/svg+xml''), (''.ttf'', ''application/x-font-ttf''),
     (''.otf'', ''application/x-font-opentype''), (''.woff'', ''application/font-woff''),
     (''.woff2'', ''application/font-woff2''), (''.eot'', ''application/vnd.ms-fontobject''),
     (''.sfnt'', ''application/font-sfnt''), (''.xml'', ''text/xml''), (''.pdf'', ''application/pdf''),
     (''.zip'', ''application/zip''), (''.gz'', ''application/x-gzip''),
     (''.appcache'', ''text/cache-manifest'')]"

definition getContentType :: "string \<Rightarrow> string" where
  "getContentType path = (case find (\<lambda>(ext, t). endsWith path ext) contentTypes of
     None \<Rightarrow> ''application/octet-stream'' | Some (ext, t) \<Rightarrow> t)"

definition static_path :: "'u handler \<Rightarrow> string \<Rightarrow> string" where
  "static_path h requestUri =
     (if \<not> isFile h then
        (let requestUri = (if endsWith requestUri ''/'' then requestUri @ ''index.htm'' else requestUri)
         in spath h @ substring_from (int (length (suri h))) requestUri)
      else spath h)"

definition handle_static :: "'u handler \<Rightarrow> string \<Rightarrow> 'u web \<Rightarrow> bool \<times> 'u web" where
  "handle_static h requestUri w =
     (let path = static_path h requestUri;
          contentType = getContentType path;
          path = (if \<not> endsWith path ''.gz'' \<and> \<not> fs_exists (sfs h) (user w) path
                  then (if fs_exists (sfs h) (user w) (path @ ''.gz'') then path @ ''.gz'' else path) else path)
      in case fs_open (sfs h) (user w) path of
           None \<Rightarrow> (False, w)
         | Some f \<Rightarrow>
             (let w = (if length (cache_header h) \<noteq> 0
                       then sendHeader ''Cache-Control'' (cache_header h) False w else w)
              in (True, snd (streamFile f contentType w))))"

fun handle :: "'u handler \<Rightarrow> HTTPMethod \<Rightarrow> string \<Rightarrow> 'u web \<Rightarrow> (bool \<times> 'u web) option" where
  "handle (FunctionRequestHandler f g uri method) requestMethod requestUri w =
     (if \<not> canHandle (FunctionRequestHandler f g uri method) requestMethod requestUri then Some (False, w)
      else map_option (Pair True) (f w))"
| "handle (StaticRequestHandler fs uri path cache is_file) requestMethod requestUri w =
     (if \<not> canHandle (StaticRequestHandler fs uri path cache is_file) requestMethod requestUri
      then Some (False, w)
      else Some (handle_static (StaticRequestHandler fs uri path cache is_file) requestUri w))"

fun upload :: "'u handler \<Rightarrow> string \<Rightarrow> 'u action" where
  "upload (FunctionRequestHandler f g uri method) requestUri w =
     (if canUpload (FunctionRequestHandler f g uri method) requestUri
      then (case g of None \<Rightarrow> None | Some u \<Rightarrow> u w) else Some w)"
| "upload (StaticRequestHandler fs uri path cache is_file) requestUri w = Some w"

section \<open>Registration\<close>

record 'u handlers =
  chain :: "'u handler list"
  notFoundHandler :: "'u action option"
  fileUploadHandler :: "'u action option"

definition no_handlers :: "'u handlers" where
  "no_handlers = \<lparr>chain = [], notFoundHandler = None, fileUploadHandler = None\<rparr>"

definition addRequestHandler :: "'u handler \<Rightarrow> 'u handlers \<Rightarrow> 'u handlers" where
  "addRequestHandler h H = H\<lparr>chain := chain H @ [h]\<rparr>"

definition on_upload ::
    "string \<Rightarrow> HTTPMethod \<Rightarrow> 'u action \<Rightarrow> 'u action option \<Rightarrow> 'u handlers \<Rightarrow> 'u handlers" where
  "on_upload uri method f g = addRequestHandler (FunctionRequestHandler f g uri method)"

definition on_method :: "string \<Rightarrow> HTTPMethod \<Rightarrow> 'u action \<Rightarrow> 'u handlers \<Rightarrow> 'u handlers" where
  "on_method uri method f H = on_upload uri method f (fileUploadHandler H) H"

definition on :: "string \<Rightarrow> 'u action \<Rightarrow> 'u handlers \<Rightarrow> 'u handlers" where
  "on uri f = on_method uri HTTP_ANY f"

definition serveStatic :: "string \<Rightarrow> 'u FS \<Rightarrow> 'u \<Rightarrow> string \<Rightarrow> string \<Rightarrow> 'u handlers \<Rightarrow> 'u handlers" where
  "serveStatic uri fs u path cache =
     addRequestHandler (StaticRequestHandler fs uri path cache (fs_exists fs u path))"

definition onNotFound :: "'u action \<Rightarrow> 'u handlers \<Rightarrow> 'u handlers" where
  "onNotFound f H = H\<lparr>notFoundHandler := Some f\<rparr>"

definition onFileUpload :: "'u action \<Rightarrow> 'u handlers \<Rightarrow> 'u handlers" where
  "onFileUpload f H = H\<lparr>fileUploadHandler := Some f\<rparr>"

text \<open>The search of \<open>_parseRequest\<close>: the first handler of the chain that can handle the request.\<close>

fun find_handler :: "nat \<Rightarrow> 'u handler list \<Rightarrow> HTTPMethod \<Rightarrow> string \<Rightarrow> nat option" where
  "find_handler i [] method uri = None"
| "find_handler i (h # hs) method uri =
     (if canHandle h method uri then Some i else find_handler (i + 1) hs method uri)"

definition current_handler :: "'u handlers \<Rightarrow> 'u web \<Rightarrow> 'u handler option" where
  "current_handler H w = Option.bind (currentHandler w) (\<lambda>i. arr_get (chain H) i)"

text \<open>\<open>if(_currentHandler && _currentHandler->canUpload(_currentUri)) _currentHandler->upload(...)\<close>\<close>

definition call_upload :: "'u handlers \<Rightarrow> 'u action" where
  "call_upload H w = (case current_handler H w of
     None \<Rightarrow> Some w
   | Some h \<Rightarrow> if canUpload h (currentUri w) then upload h (currentUri w) w else Some w)"

section \<open>Dispatch\<close>

lemma find_handler_some:
  "find_handler i hs m u = Some k \<longleftrightarrow>
     (\<exists>j < length hs. k = i + j \<and> canHandle (hs ! j) m u \<and> (\<forall>l < j. \<not> canHandle (hs ! l) m u))"
proof (induction hs arbitrary: i)
  case Nil
  then show ?case by simp
next
  case (Cons h hs)
  show ?case
  proof (cases "canHandle h m u")
    case True
    show ?thesis
    proof
      assume "find_handler i (h # hs) m u = Some k"
      with True show "\<exists>j < length (h # hs). k = i + j \<and> canHandle ((h # hs) ! j) m u
          \<and> (\<forall>l < j. \<not> canHandle ((h # hs) ! l) m u)"
        by (intro exI [of _ 0]) simp
    next
      assume "\<exists>j < length (h # hs). k = i + j \<and> canHandle ((h # hs) ! j) m u
          \<and> (\<forall>l < j. \<not> canHandle ((h # hs) ! l) m u)"
      then obtain j where j: "k = i + j" "\<forall>l < j. \<not> canHandle ((h # hs) ! l) m u" by blast
      have "j = 0" using j(2) True by (cases j) (auto dest: spec [of _ 0])
      with j True show "find_handler i (h # hs) m u = Some k" by simp
    qed
  next
    case False
    have "(\<exists>j < length (h # hs). k = i + j \<and> canHandle ((h # hs) ! j) m u
          \<and> (\<forall>l < j. \<not> canHandle ((h # hs) ! l) m u))
      = (\<exists>j < length hs. k = Suc i + j \<and> canHandle (hs ! j) m u \<and> (\<forall>l < j. \<not> canHandle (hs ! l) m u))"
      (is "?L = ?R")
    proof
      assume ?L
      then obtain j where j: "j < length (h # hs)" "k = i + j" "canHandle ((h # hs) ! j) m u"
        "\<forall>l < j. \<not> canHandle ((h # hs) ! l) m u" by blast
      with False obtain j' where j': "j = Suc j'" by (cases j) auto
      with j show ?R by (intro exI [of _ j']) (auto dest: spec [of _ "Suc _"])
    next
      assume ?R
      then obtain j where j: "j < length hs" "k = Suc i + j" "canHandle (hs ! j) m u"
        "\<forall>l < j. \<not> canHandle (hs ! l) m u" by blast
      with False show ?L
        by (intro exI [of _ "Suc j"]) (auto simp: nth_Cons split: nat.splits)
    qed
    with False Cons.IH [of "Suc i"] show ?thesis by simp
  qed
qed

lemma find_handler_none: "find_handler i hs m u = None \<longleftrightarrow> (\<forall>h \<in> set hs. \<not> canHandle h m u)"
  by (induction hs arbitrary: i) auto

section \<open>Properties\<close>

text \<open>Requests go to the first handler registered for them: the index found is that of the
  first handler of the chain that accepts method and URI, and none is found exactly when no
  handler accepts them.\<close>

theorem dispatch_first:
  "(find_handler 0 (chain H) m u = Some k \<longleftrightarrow>
      k < length (chain H) \<and> canHandle (chain H ! k) m u \<and> (\<forall>l < k. \<not> canHandle (chain H ! l) m u))
   \<and> (find_handler 0 (chain H) m u = None \<longleftrightarrow> (\<forall>h \<in> set (chain H). \<not> canHandle h m u))"
  using find_handler_some [of 0 "chain H" m u k] find_handler_none [of 0 "chain H" m u] by auto

text \<open>A static handler for a file serves that file alone, and a static handler for a directory
  never leaves its path: the file it opens is the registered path followed by what the request
  adds to the registered URI.\<close>

theorem static_path_confined:
  assumes "canHandle (StaticRequestHandler fs uri path cache is_file) m req" and "length req < 2 ^ 31"
  shows "static_path (StaticRequestHandler fs uri path cache is_file) req
       = (if is_file then path
          else path @ drop (length uri) req @ (if endsWith req ''/'' then ''index.htm'' else []))
     \<and> m = HTTP_GET \<and> (is_file \<longrightarrow> req = uri)"
proof -
  have h: "m = HTTP_GET" "is_file \<longrightarrow> req = uri" "startsWith req uri"
    using assms(1) by (auto split: if_splits)
  have l: "length uri \<le> length req" using h(3) by (metis length_take min.cobounded1 startsWith_def)
  have "substring_from (int (length uri)) (req @ s) = drop (length uri) (req @ s)" if "length s \<le> 9" for s
    by (rule substring_from_nat) (use l that assms(2) in simp_all)
  from this [of "[]"] this [of "''index.htm''"] h l show ?thesis
    by (auto simp: static_path_def Let_def)
qed

lemma static_path_confined_witness:
  "static_path (StaticRequestHandler no_files ''/log'' ''/data'' [] False) ''/log/''
     = ''/data/index.htm''"
  using static_path_confined [of no_files "''/log''" "''/data''" "[]" False HTTP_GET "''/log/''"]
  by (simp add: startsWith_def endsWith_def)

end
