(* ===== verification/Http_Form.thy ===== *)
theory Http_Form
  imports Http_Handlers
begin

text \<open>
  Multipart forms and uploads (\<open>src/ESP8266WebServer/src/Parsing.cpp\<close>, lines 325 to 551 and 584 to
  589). The upload buffer is the array of \<open>HTTP_UPLOAD_BUFLEN\<close> bytes with its fill count. Loops
  that wait for input are partial functions: \<open>None\<close> is a loop that never returns, or a store
  outside the upload buffer, which \<open>write_byte_ok\<close> excludes. \<open>Overflow\<close> marks the store past
  the 32 collected arguments. \<open>stale n\<close> are the \<open>n\<close> bytes the stack holds where the boundary is
  read: a connection that ends there leaves them unread. The search for the boundary in them does
  not look beyond the array.
\<close>

section \<open>Bytes\<close>

definition uploadWriteByte :: "'u handlers \<Rightarrow> char \<Rightarrow> 'u action" where
  "uploadWriteByte H b w = do {
     w \<leftarrow> (if currentSize (currentUpload w) = HTTP_UPLOAD_BUFLEN then do {
             w \<leftarrow> call_upload H w;
             let u = currentUpload w;
             Some (w\<lparr>currentUpload := u\<lparr>totalSize := totalSize u + currentSize u, currentSize := 0\<rparr>\<rparr>) }
           else Some w);
     let u = currentUpload w;
     bs \<leftarrow> arr_set (buf u) (currentSize u) b;
     Some (w\<lparr>currentUpload := u\<lparr>buf := bs, currentSize := currentSize u + 1\<rparr>\<rparr>) }"

text \<open>\<open>_uploadReadByte\<close> waits while the peer stays connected and silent, and returns \<open>(uint8_t)-1\<close>
  when the connection has ended.\<close>

definition uploadReadByte :: "'u web \<Rightarrow> (char \<times> 'u web) option" where
  "uploadReadByte w = (case input w of
     b # r \<Rightarrow> Some (b, set_input r w)
   | [] \<Rightarrow> if connected w then None else Some (CHR 0xFF, w))"

definition set_status :: "HTTPUploadStatus \<Rightarrow> 'u web \<Rightarrow> 'u web" where
  "set_status st w = w\<lparr>currentUpload := (currentUpload w)\<lparr>status := st\<rparr>\<rparr>"

definition parseFormUploadAborted :: "'u handlers \<Rightarrow> 'u action" where
  "parseFormUploadAborted H w = call_upload H (set_status UPLOAD_FILE_ABORTED w)"

fun write_bytes :: "'u handlers \<Rightarrow> string \<Rightarrow> 'u action" where
  "write_bytes H [] w = Some w"
| "write_bytes H (b # bs) w = Option.bind (uploadWriteByte H b w) (write_bytes H bs)"

definition read_boundary :: "(nat \<Rightarrow> string) \<Rightarrow> nat \<Rightarrow> 'u web \<Rightarrow> string \<times> 'u web" where
  "read_boundary stale n w =
     (let d = take n (input w) in (take n (d @ drop (length d) (stale n)), set_input (drop n (input w)) w))"

section \<open>A file part\<close>

text \<open>\<open>File_last\<close> is the \<open>break\<close> after the closing boundary, \<open>File_more\<close> the \<open>continue\<close>.\<close>

datatype file_end = File_last | File_more | File_aborted

definition aborted :: "'u handlers \<Rightarrow> 'u web \<Rightarrow> (file_end \<times> 'u web) option" where
  "aborted H w = map_option (Pair File_aborted) (parseFormUploadAborted H w)"

definition end_of_file :: "'u handlers \<Rightarrow> 'u web \<Rightarrow> (file_end \<times> 'u web) option" where
  "end_of_file H w = do {
     w \<leftarrow> call_upload H w;
     let u = currentUpload w;
     let w = w\<lparr>currentUpload := u\<lparr>totalSize := totalSize u + currentSize u, status := UPLOAD_FILE_END\<rparr>\<rparr>;
     w \<leftarrow> call_upload H w;
     let (line, w) = read_line w;
     Some (if line = ''--'' then File_last else File_more, w) }"

partial_function (option) read_file ::
    "'u handlers \<Rightarrow> (nat \<Rightarrow> string) \<Rightarrow> string \<Rightarrow> char \<Rightarrow> 'u web \<Rightarrow> (file_end \<times> 'u web) option" where
  "read_file H stale boundary argByte w =
     (if argByte \<noteq> CR then
        if \<not> connected w then aborted H w
        else Option.bind (uploadWriteByte H argByte w) (\<lambda>w.
             Option.bind (uploadReadByte w) (\<lambda>(b, w). read_file H stale boundary b w))
      else
        Option.bind (uploadReadByte w) (\<lambda>(b, w).
          if \<not> connected w then aborted H w
          else if b \<noteq> LF then
            Option.bind (uploadWriteByte H CR w) (\<lambda>w. read_file H stale boundary b w)
          else
            Option.bind (uploadReadByte w) (\<lambda>(b, w).
              if \<not> connected w then aborted H w
              else if b \<noteq> CHR ''-'' then
                Option.bind (write_bytes H [CR, LF] w) (\<lambda>w. read_file H stale boundary b w)
              else
                Option.bind (uploadReadByte w) (\<lambda>(b, w).
                  if \<not> connected w then aborted H w
                  else if b \<noteq> CHR ''-'' then
                    Option.bind (write_bytes H [CR, LF, CHR ''-''] w) (\<lambda>w. read_file H stale boundary b w)
                  else
                    (case read_boundary stale (length boundary) w of (endBuf, w) \<Rightarrow>
                       if endBuf = boundary then end_of_file H w
                       else
                         Option.bind (write_bytes H ([CR, LF, CHR ''-'', CHR ''-''] @ endBuf) w) (\<lambda>w.
                         Option.bind (uploadReadByte w) (\<lambda>(b, w). read_file H stale boundary b w)))))))"


definition start_file :: "string \<Rightarrow> string \<Rightarrow> string \<Rightarrow> 'u web \<Rightarrow> 'u web" where
  "start_file partName partFile partType w =
     w\<lparr>currentUpload := (currentUpload w)\<lparr>status := UPLOAD_FILE_START, upload_name := partName,
        filename := partFile, upload_type := partType, totalSize := 0, currentSize := 0\<rparr>\<rparr>"

definition file_part ::
    "'u handlers \<Rightarrow> (nat \<Rightarrow> string) \<Rightarrow> string \<Rightarrow> string \<Rightarrow> string \<Rightarrow> string \<Rightarrow> 'u web \<Rightarrow> (file_end \<times> 'u web) option" where
  "file_part H stale boundary partName partFile partType w = do {
     w \<leftarrow> call_upload H (start_file partName partFile partType w);
     let w = set_status UPLOAD_FILE_WRITE w;
     (b, w) \<leftarrow> uploadReadByte w;
     read_file H stale boundary b w }"

section \<open>The form\<close>

definition dashes :: "string \<Rightarrow> string" where
  "dashes boundary = ''--'' @ boundary"

text \<open>The lines of a text field, up to the next boundary line.\<close>

partial_function (option) value_loop ::
    "string \<Rightarrow> string \<Rightarrow> 'u web \<Rightarrow> (string \<times> string \<times> 'u web) option" where
  "value_loop boundary argValue w =
     (case read_line w of (line, w) \<Rightarrow>
        if startsWith line (dashes boundary) then Some (line, argValue, w)
        else value_loop boundary
               ((if 0 < length argValue then argValue @ [LF] else argValue) @ line) w)"

text \<open>Name and file name from the disposition line; \<open>(name, filename, is a file)\<close>.\<close>

definition disposition :: "string \<Rightarrow> int \<Rightarrow> args \<Rightarrow> string \<times> string \<times> bool" where
  "disposition line nameStart args =
     (let partName = substring_from (nameStart + 2) line;
          nameStart = indexOf (CHR ''='') 0 partName
      in if nameStart = - 1
         then (substring 0 (int (length partName) - 1) partName, [], False)
         else (let partFile = substring (nameStart + 2) (int (length partName) - 1) partName;
                   partName = substring 0 (indexOf (CHR 0x22) 0 partName) partName;
                   partFile = (if partFile = ''blob'' \<and> hasArg ''filename'' args
                                  then arg ''filename'' args else partFile)
               in (partName, partFile, True)))"

definition part_type :: "'u web \<Rightarrow> string \<times> 'u web" where
  "part_type w =
     (case read_line w of (line, w) \<Rightarrow>
        if startsWith line ''Content-Type''
        then (substring_from (indexOf (CHR '':'') 0 line + 2) line, snd (read_line w))
        else (''text/plain'', w))"

datatype form_end = Form_args args | Form_aborted | Form_overflow

partial_function (option) form_loop ::
    "'u handlers \<Rightarrow> (nat \<Rightarrow> string) \<Rightarrow> string \<Rightarrow> args \<Rightarrow> 'u web \<Rightarrow> (form_end \<times> 'u web) option" where
  "form_loop H stale boundary postArgs w =
     (case read_line w of (line, w) \<Rightarrow>
        if startsWith line ''Content-Disposition'' \<and> indexOf (CHR ''='') 0 line \<noteq> - 1 then
          (case disposition line (indexOf (CHR ''='') 0 line) (currentArgs w) of
             (partName, partFile, argIsFile) \<Rightarrow>
           case part_type w of (partType, w) \<Rightarrow>
             if \<not> argIsFile then
               Option.bind (value_loop boundary [] w) (\<lambda>(line, argValue, w).
                 if 32 \<le> length postArgs then Some (Form_overflow, w)
                 else if line = dashes boundary @ ''--''
                 then Some (Form_args (postArgs @ [(partName, argValue)]), w)
                 else form_loop H stale boundary (postArgs @ [(partName, argValue)]) w)
             else
               Option.bind (file_part H stale boundary partName partFile partType w) (\<lambda>(r, w).
                 case r of File_aborted \<Rightarrow> Some (Form_aborted, w)
                 | File_last \<Rightarrow> Some (Form_args postArgs, w)
                 | File_more \<Rightarrow> form_loop H stale boundary postArgs w))
        else form_loop H stale boundary postArgs w)"

text \<open>The collected arguments and as many of the earlier ones as fit into 32.\<close>

definition merge_args :: "args \<Rightarrow> args \<Rightarrow> args" where
  "merge_args postArgs args = postArgs @ take (32 - length postArgs) args"

text \<open>The first line: up to three reads until one is not empty.\<close>

fun first_line :: "nat \<Rightarrow> 'u web \<Rightarrow> string \<times> 'u web" where
  "first_line 0 w = ([], w)"
| "first_line (Suc n) w =
     (case read_until CR w of (line, w) \<Rightarrow>
        if length line = 0 \<and> 0 < n then first_line n w else (line, w))"

datatype parse_result = Parsed bool | Overflow

definition parseForm ::
    "'u handlers \<Rightarrow> (nat \<Rightarrow> string) \<Rightarrow> string \<Rightarrow> 'u web \<Rightarrow> (parse_result \<times> 'u web) option" where
  "parseForm H stale boundary w =
     (case first_line 3 w of (line, w) \<Rightarrow>
      case read_until LF w of (_, w) \<Rightarrow>
        if line = dashes boundary then
          Option.bind (form_loop H stale boundary [] w) (\<lambda>(r, w).
            case r of
              Form_args postArgs \<Rightarrow> Some (Parsed True, w\<lparr>currentArgs := merge_args postArgs (currentArgs w)\<rparr>)
            | Form_aborted \<Rightarrow> Some (Parsed False, w)
            | Form_overflow \<Rightarrow> Some (Overflow, w))
        else Some (Parsed False, w))"

section \<open>Uploads deliver the file\<close>

text \<open>What an upload function sees of one call: the status, the bytes in the buffer, the size so far.
  An observer changes the application's state alone, by a function of those.\<close>

type_synonym upload_event = "HTTPUploadStatus \<times> string \<times> nat"

definition event :: "HTTPUpload \<Rightarrow> upload_event" where
  "event u = (status u, take (currentSize u) (buf u), totalSize u)"

definition observer :: "'u handlers \<Rightarrow> nat option \<Rightarrow> string \<Rightarrow> (upload_event \<Rightarrow> 'u \<Rightarrow> 'u) \<Rightarrow> bool" where
  "observer H k uri f \<longleftrightarrow> (\<forall>w. currentHandler w = k \<longrightarrow> currentUri w = uri \<longrightarrow>
     call_upload H w = Some (w\<lparr>user := f (event (currentUpload w)) (user w)\<rparr>))"

fun chunk_events :: "nat \<Rightarrow> string list \<Rightarrow> upload_event list" where
  "chunk_events n [] = []"
| "chunk_events n (c # cs) = (UPLOAD_FILE_WRITE, c, n) # chunk_events (n + length c) cs"

lemma chunk_events_append:
  "chunk_events n (cs @ ds) = chunk_events n cs @ chunk_events (n + length (concat cs)) ds"
  by (induction cs arbitrary: n) (auto simp: add.assoc)

text \<open>
  The state while a file is read: \<open>bs\<close> are its bytes written so far, in full buffers already
  handed over and the rest in the buffer; \<open>s\<close> is the input left.
\<close>

definition reading ::
    "(upload_event \<Rightarrow> 'u \<Rightarrow> 'u) \<Rightarrow> 'u web \<Rightarrow> string \<Rightarrow> string \<Rightarrow> 'u web \<Rightarrow> bool" where
  "reading f w0 s bs w \<longleftrightarrow> (\<exists>cs u. w = (set_input s w0)\<lparr>currentUpload := u,
        user := fold f (chunk_events 0 cs) (user w0)\<rparr>
     \<and> length (buf u) = HTTP_UPLOAD_BUFLEN \<and> currentSize u \<le> HTTP_UPLOAD_BUFLEN
     \<and> status u = UPLOAD_FILE_WRITE \<and> totalSize u = length (concat cs)
     \<and> concat cs @ take (currentSize u) (buf u) = bs
     \<and> (\<forall>c \<in> set cs. length c = HTTP_UPLOAD_BUFLEN))"

lemma set_input_update [simp]:
  "set_input s (w\<lparr>currentUpload := u\<rparr>) = (set_input s w)\<lparr>currentUpload := u\<rparr>"
  "set_input s (w\<lparr>user := x\<rparr>) = (set_input s w)\<lparr>user := x\<rparr>"
  by (simp_all add: set_input_def)

lemma input_update [simp]:
  "input (w\<lparr>currentUpload := u\<rparr>) = input w" "input (w\<lparr>user := x\<rparr>) = input w"
  "connected (w\<lparr>currentUpload := u\<rparr>) = connected w" "connected (w\<lparr>user := x\<rparr>) = connected w"
  by (simp_all add: input_def connected_def)

lemma reading_input: "currentClient w0 \<noteq> None \<Longrightarrow> reading f w0 s bs w \<Longrightarrow> input w = s"
  by (auto simp: reading_def)

lemma reading_connected:
  assumes "currentClient w0 \<noteq> None" and "reading f w0 s bs w" and "s \<noteq> []"
  shows "connected w"
proof -
  have "connected (set_input s w0)" by (rule connected_input) (use assms(1,3) in simp_all)
  with assms(2) show ?thesis by (auto simp: reading_def)
qed

lemma reading_set_input: "reading f w0 s bs w \<Longrightarrow> reading f w0 t bs (set_input t w)"
proof -
  assume "reading f w0 s bs w"
  then obtain cs u where cu: "w = (set_input s w0)\<lparr>currentUpload := u,
        user := fold f (chunk_events 0 cs) (user w0)\<rparr>"
     "length (buf u) = HTTP_UPLOAD_BUFLEN \<and> currentSize u \<le> HTTP_UPLOAD_BUFLEN
     \<and> status u = UPLOAD_FILE_WRITE \<and> totalSize u = length (concat cs)
     \<and> concat cs @ take (currentSize u) (buf u) = bs
     \<and> (\<forall>c \<in> set cs. length c = HTTP_UPLOAD_BUFLEN)"
    unfolding reading_def by blast
  show ?thesis
    unfolding reading_def by (rule exI [of _ cs], rule exI [of _ u]) (use cu in simp)
qed

lemma reading_read:
  assumes "currentClient w0 \<noteq> None" and "reading f w0 (b # s) bs w"
  shows "uploadReadByte w = Some (b, set_input s w)" and "reading f w0 s bs (set_input s w)"
  using reading_input [OF assms] reading_set_input [OF assms(2)] by (simp_all add: uploadReadByte_def)

lemma take_Suc_update: "n < length xs \<Longrightarrow> take (Suc n) (xs[n := b]) = take n xs @ [b]"
  by (simp add: take_Suc_conv_app_nth)

lemma reading_write:
  assumes "observer H (currentHandler w0) (currentUri w0) f" and "reading f w0 s bs w"
  shows "\<exists>w'. uploadWriteByte H b w = Some w' \<and> reading f w0 s (bs @ [b]) w'"
proof -
  obtain cs u where w: "w = (set_input s w0)\<lparr>currentUpload := u, user := fold f (chunk_events 0 cs) (user w0)\<rparr>"
    and u: "length (buf u) = HTTP_UPLOAD_BUFLEN" "currentSize u \<le> HTTP_UPLOAD_BUFLEN"
      "status u = UPLOAD_FILE_WRITE" "totalSize u = length (concat cs)"
      "concat cs @ take (currentSize u) (buf u) = bs" "\<forall>c \<in> set cs. length c = HTTP_UPLOAD_BUFLEN"
    using assms(2) by (auto simp: reading_def)
  have cu: "call_upload H w = Some (w\<lparr>user := f (event u) (fold f (chunk_events 0 cs) (user w0))\<rparr>)"
    using assms(1) unfolding observer_def by (auto simp: w)
  show ?thesis
  proof (cases "currentSize u = HTTP_UPLOAD_BUFLEN")
    case False
    with u have lt: "currentSize u < length (buf u)" by simp
    let ?u = "u\<lparr>buf := (buf u)[currentSize u := b], currentSize := currentSize u + 1\<rparr>"
    have "uploadWriteByte H b w = Some (w\<lparr>currentUpload := ?u\<rparr>)"
      using False lt by (simp add: uploadWriteByte_def w Let_def)
    moreover have "reading f w0 s (bs @ [b]) (w\<lparr>currentUpload := ?u\<rparr>)"
      unfolding reading_def
      by (intro exI [of _ cs] exI [of _ ?u]) (use u lt False in \<open>simp add: w take_Suc_update\<close>)
    ultimately show ?thesis by blast
  next
    case True
    let ?c = "take (currentSize u) (buf u)"
    have c: "?c = buf u" "length (buf u) = HTTP_UPLOAD_BUFLEN" using True u by simp_all
    let ?u = "u\<lparr>totalSize := totalSize u + currentSize u, currentSize := 1, buf := (buf u)[0 := b]\<rparr>"
    let ?w = "w\<lparr>user := f (event u) (fold f (chunk_events 0 cs) (user w0)), currentUpload := ?u\<rparr>"
    have pos: "0 < length (buf u)" using u by (simp add: HTTP_UPLOAD_BUFLEN_def)
    have "uploadWriteByte H b w = Some ?w"
      using True pos by (simp add: uploadWriteByte_def cu) (simp add: w Let_def)
    moreover have "reading f w0 s (bs @ [b]) ?w"
      unfolding reading_def
    proof (intro exI [of _ "cs @ [?c]"] exI [of _ ?u] conjI)
      show "?w = (set_input s w0)\<lparr>currentUpload := ?u, user := fold f (chunk_events 0 (cs @ [?c])) (user w0)\<rparr>"
        using u by (simp add: w chunk_events_append event_def)
      show "concat (cs @ [?c]) @ take (currentSize ?u) (buf ?u) = bs @ [b]"
        using u(5) pos by (cases "buf u") auto
    qed (use u c True pos in \<open>auto simp: HTTP_UPLOAD_BUFLEN_def\<close>)
    ultimately show ?thesis by blast
  qed
qed

lemma reading_write_bytes:
  assumes "observer H (currentHandler w0) (currentUri w0) f" and "reading f w0 s bs w"
  shows "\<exists>w'. write_bytes H ds w = Some w' \<and> reading f w0 s (bs @ ds) w'"
  using assms(2)
proof (induction ds arbitrary: bs w)
  case (Cons d ds)
  obtain w1 where w1: "uploadWriteByte H d w = Some w1" "reading f w0 s (bs @ [d]) w1"
    using reading_write [OF assms(1) Cons.prems] by blast
  from Cons.IH [OF w1(2)] w1(1) show ?case by auto
qed simp

text \<open>The steps of the reader: a plain byte, and a carriage return that does not start a boundary.\<close>

lemma read_file_char:
  assumes o: "observer H (currentHandler w0) (currentUri w0) f" and cl: "currentClient w0 \<noteq> None"
    and r: "reading f w0 (x # s) bs w" and b: "b \<noteq> CR"
  shows "\<exists>w'. read_file H stale B b w = read_file H stale B x w' \<and> reading f w0 s (bs @ [b]) w'"
proof -
  obtain w1 where w1: "uploadWriteByte H b w = Some w1" "reading f w0 (x # s) (bs @ [b]) w1"
    using reading_write [OF o r] by blast
  have "connected w" by (rule reading_connected [OF cl r]) simp
  with w1 b reading_read(1) [OF cl w1(2)]
  have "read_file H stale B b w = read_file H stale B x (set_input s w1)"
    by (subst read_file.simps) simp
  with reading_read(2) [OF cl w1(2)] show ?thesis by blast
qed

lemma read_file_cr:
  assumes o: "observer H (currentHandler w0) (currentUri w0) f" and cl: "currentClient w0 \<noteq> None"
    and r: "reading f w0 (x # s) bs w" and x: "x \<noteq> LF" and s: "s \<noteq> []"
  shows "\<exists>w'. read_file H stale B CR w = read_file H stale B x w' \<and> reading f w0 s (bs @ [CR]) w'"
proof -
  note r1 = reading_read [OF cl r]
  obtain w1 where w1: "uploadWriteByte H CR (set_input s w) = Some w1" "reading f w0 s (bs @ [CR]) w1"
    using reading_write [OF o r1(2)] by blast
  have "connected (set_input s w)" by (rule reading_connected [OF cl r1(2) s])
  with w1 x r1(1) have "read_file H stale B CR w = read_file H stale B x w1"
    by (subst read_file.simps) simp
  with w1(2) show ?thesis by blast
qed

lemma read_file_crlf:
  assumes o: "observer H (currentHandler w0) (currentUri w0) f" and cl: "currentClient w0 \<noteq> None"
    and r: "reading f w0 (LF # x # s) bs w" and x: "x \<noteq> CHR ''-''" and s: "s \<noteq> []"
  shows "\<exists>w'. read_file H stale B CR w = read_file H stale B x w' \<and> reading f w0 s (bs @ [CR, LF]) w'"
proof -
  note r1 = reading_read [OF cl r]
  note r2 = reading_read [OF cl r1(2)]
  obtain w1 where w1: "write_bytes H [CR, LF] (set_input s (set_input (x # s) w)) = Some w1"
    "reading f w0 s (bs @ [CR, LF]) w1"
    using reading_write_bytes [OF o r2(2)] by blast
  have "connected (set_input (x # s) w)" by (rule reading_connected [OF cl r1(2)]) simp
  moreover have "connected (set_input s (set_input (x # s) w))" by (rule reading_connected [OF cl r2(2) s])
  ultimately have "read_file H stale B CR w = read_file H stale B x w1"
    using w1(1) x r1(1) r2(1) by (subst read_file.simps) (simp del: write_bytes.simps)
  with w1(2) show ?thesis by blast
qed

lemma read_file_crlf_dash:
  assumes o: "observer H (currentHandler w0) (currentUri w0) f" and cl: "currentClient w0 \<noteq> None"
    and r: "reading f w0 (LF # CHR ''-'' # x # s) bs w" and x: "x \<noteq> CHR ''-''" and s: "s \<noteq> []"
  shows "\<exists>w'. read_file H stale B CR w = read_file H stale B x w'
           \<and> reading f w0 s (bs @ [CR, LF, CHR ''-'']) w'"
proof -
  note r1 = reading_read [OF cl r]
  note r2 = reading_read [OF cl r1(2)]
  note r3 = reading_read [OF cl r2(2)]
  let ?w1 = "set_input (CHR ''-'' # x # s) w" and ?w2 = "set_input (x # s) w" and ?w3 = "set_input s w"
  obtain w1 where w1: "write_bytes H [CR, LF, CHR ''-''] ?w3 = Some w1"
    "reading f w0 s (bs @ [CR, LF, CHR ''-'']) w1"
    using reading_write_bytes [OF o r3(2), of "[CR, LF, CHR ''-'']"] by (auto simp del: write_bytes.simps)
  have "connected ?w1" by (rule reading_connected [OF cl r1(2)]) simp
  moreover have "connected ?w2" using reading_connected [OF cl r2(2)] by simp
  moreover have "connected ?w3" using reading_connected [OF cl r3(2) s] by simp
  ultimately have "read_file H stale B CR w = read_file H stale B x w1"
    using w1(1) x r1(1) r2(1) r3(1) by (subst read_file.simps) (simp del: write_bytes.simps)
  with w1(2) show ?thesis by blast
qed

lemma read_file_boundary:
  assumes cl: "currentClient w0 \<noteq> None"
    and r: "reading f w0 (LF # CHR ''-'' # CHR ''-'' # B @ t) bs w" and t: "t \<noteq> []"
  shows "\<exists>w'. read_file H stale B CR w = end_of_file H w' \<and> reading f w0 t bs w'"
proof -
  note r1 = reading_read [OF cl r]
  note r2 = reading_read [OF cl r1(2)]
  note r3 = reading_read [OF cl r2(2)]
  let ?w1 = "set_input (CHR ''-'' # CHR ''-'' # B @ t) w" and ?w2 = "set_input (CHR ''-'' # B @ t) w"
  let ?w3 = "set_input (B @ t) w"
  have "connected ?w1" by (rule reading_connected [OF cl r1(2)]) simp
  moreover have "connected ?w2" using reading_connected [OF cl r2(2)] by simp
  moreover have "connected ?w3" using reading_connected [OF cl r3(2)] t by simp
  moreover have "input ?w3 = B @ t" using reading_input [OF cl r3(2)] by simp
  then have "read_boundary stale (length B) ?w3 = (B, set_input t w)"
    by (simp add: read_boundary_def)
  ultimately have "read_file H stale B CR w = end_of_file H (set_input t w)"
    using r1(1) r2(1) r3(1) by (subst read_file.simps) simp
  moreover have "reading f w0 t bs (set_input t w)"
    by (rule reading_set_input [OF r])
  ultimately show ?thesis by blast
qed

text \<open>A file whose bytes do not contain a line that starts with two dashes is read to its end.\<close>

definition delimiter :: "string \<Rightarrow> string" where
  "delimiter t = CR # LF # CHR ''-'' # CHR ''-'' # t"

definition no_delimiter :: "string \<Rightarrow> bool" where
  "no_delimiter c \<longleftrightarrow> (\<forall>p q. c \<noteq> p @ delimiter q)"

lemma no_delimiter_tl: "no_delimiter (x # c) \<Longrightarrow> no_delimiter c"
  unfolding no_delimiter_def by (metis append_Cons)

lemma no_delimiter_head: "no_delimiter (CR # LF # CHR ''-'' # x # c) \<Longrightarrow> x \<noteq> CHR ''-''"
  unfolding no_delimiter_def delimiter_def by (metis append_Nil)

lemma delimiter_nonempty [simp]: "delimiter t \<noteq> []" "LF \<noteq> CHR ''-''" "CR \<noteq> LF" "CR \<noteq> CHR ''-''"
  by (simp_all add: delimiter_def CR_def LF_def)

lemma read_file_content:
  assumes o: "observer H (currentHandler w0) (currentUri w0) f" and cl: "currentClient w0 \<noteq> None"
    and t: "t \<noteq> []" and r: "reading f w0 s bs w" and b: "b # s = c @ delimiter (B @ t)" and n: "no_delimiter c"
  shows "\<exists>w'. read_file H stale B b w = end_of_file H w' \<and> reading f w0 t (bs @ c) w'"
  using r b n
proof (induction "length c" arbitrary: c b s bs w rule: less_induct)
  case less
  note IH = less.hyps
  let ?d = "delimiter (B @ t)"
  have step: "\<exists>w'. read_file H stale B b w = end_of_file H w' \<and> reading f w0 t (bs @ c) w'"
    if e: "read_file H stale B b w = read_file H stale B x w1" and r1: "reading f w0 s1 (bs @ u) w1"
      and c: "c = u @ v" and u: "u \<noteq> []" and s1: "x # s1 = v @ ?d" for x w1 s1 u v
  proof -
    have "no_delimiter v"
      using less.prems(3) unfolding no_delimiter_def c by (metis append_assoc)
    with IH [OF _ r1 s1] c u e show ?thesis by auto
  qed
  show ?case
  proof (cases c)
    case Nil
    with less.prems(1,2) have "b = CR" "reading f w0 (LF # CHR ''-'' # CHR ''-'' # B @ t) bs w"
      by (simp_all add: delimiter_def)
    from this(1) read_file_boundary [OF cl this(2) t] Nil show ?thesis by simp
  next
    case (Cons b' c1)
    with less.prems(2) have s: "b' = b" "s = c1 @ ?d" by simp_all
    show ?thesis
    proof (cases "b = CR")
      case False
      have "s \<noteq> []" using s by simp
      then obtain x s1 where x: "s = x # s1" by (meson list.exhaust)
      from read_file_char [OF o cl less.prems(1) [unfolded x] False] obtain w1 where
        "read_file H stale B b w = read_file H stale B x w1" "reading f w0 s1 (bs @ [b]) w1" by blast
      from step [OF this, of c1] show ?thesis using Cons s x by simp
    next
      case True
      show ?thesis
      proof (cases "\<exists>c2. c1 = LF # c2")
        case False
        obtain x s1 where x: "s = x # s1" "x \<noteq> LF" "s1 \<noteq> []"
          using s(2) False by (cases c1) (auto simp: delimiter_def)
        from read_file_cr [OF o cl less.prems(1) [unfolded x(1)] x(2,3)] obtain w1 where
          "read_file H stale B CR w = read_file H stale B x w1" "reading f w0 s1 (bs @ [CR]) w1" by blast
        from step [OF this(1) [folded True] this(2), of c1] show ?thesis using Cons s x True by simp
      next
        case lf: True
        then obtain c2 where c2: "c1 = LF # c2" by blast
        show ?thesis
        proof (cases "\<exists>c3. c2 = CHR ''-'' # c3")
          case False
          obtain x s1 where x: "s = LF # x # s1" "x \<noteq> CHR ''-''" "s1 \<noteq> []" "x # s1 = c2 @ ?d"
            using s(2) c2 False by (cases c2) (auto simp: delimiter_def)
          from read_file_crlf [OF o cl less.prems(1) [unfolded x(1)] x(2,3)] obtain w1 where
            "read_file H stale B CR w = read_file H stale B x w1" "reading f w0 s1 (bs @ [CR, LF]) w1" by blast
          from step [OF this(1) [folded True] this(2) _ _ x(4)] show ?thesis using Cons s c2 True by simp
        next
          case dash: True
          then obtain c3 where c3: "c2 = CHR ''-'' # c3" by blast
          have nd: "\<not> (\<exists>c4. c3 = CHR ''-'' # c4)"
            using less.prems(3) no_delimiter_head Cons s(1) True c2 c3 by blast
          obtain x s1 where x: "s = LF # CHR ''-'' # x # s1" "x \<noteq> CHR ''-''" "s1 \<noteq> []" "x # s1 = c3 @ ?d"
            using s(2) c2 c3 nd by (cases c3) (auto simp: delimiter_def)
          from read_file_crlf_dash [OF o cl less.prems(1) [unfolded x(1)] x(2,3)] obtain w1 where
            "read_file H stale B CR w = read_file H stale B x w1"
            "reading f w0 s1 (bs @ [CR, LF, CHR ''-'']) w1" by blast
          from step [OF this(1) [folded True] this(2) _ _ x(4)] show ?thesis using Cons s c2 c3 True by simp
        qed
      qed
    qed
  qed
qed

lemma end_of_file_reading:
  assumes o: "observer H (currentHandler w0) (currentUri w0) f" and cl: "currentClient w0 \<noteq> None"
    and r: "reading f w0 (l @ CR # LF # rest) bs w" and l: "CR \<notin> set l"
  shows "\<exists>cs u. end_of_file H w = Some (if l = ''--'' then File_last else File_more,
       (set_input rest w0)\<lparr>currentUpload := u,
          user := f (UPLOAD_FILE_END, last cs, length bs) (fold f (chunk_events 0 cs) (user w0))\<rparr>)
     \<and> cs \<noteq> [] \<and> concat cs = bs \<and> (\<forall>c \<in> set cs. length c \<le> HTTP_UPLOAD_BUFLEN)"
proof -
  let ?s = "l @ CR # LF # rest"
  obtain cs u where w: "w = (set_input ?s w0)\<lparr>currentUpload := u, user := fold f (chunk_events 0 cs) (user w0)\<rparr>"
    and u: "length (buf u) = HTTP_UPLOAD_BUFLEN" "currentSize u \<le> HTTP_UPLOAD_BUFLEN"
      "status u = UPLOAD_FILE_WRITE" "totalSize u = length (concat cs)"
      "concat cs @ take (currentSize u) (buf u) = bs" "\<forall>c \<in> set cs. length c = HTTP_UPLOAD_BUFLEN"
    using r by (auto simp: reading_def)
  let ?p = "take (currentSize u) (buf u)" and ?cs = "cs @ [take (currentSize u) (buf u)]"
  let ?u = "u\<lparr>totalSize := totalSize u + currentSize u, status := UPLOAD_FILE_END\<rparr>"
  let ?x = "fold f (chunk_events 0 ?cs) (user w0)"
  have x: "f (event u) (fold f (chunk_events 0 cs) (user w0)) = ?x"
    using u by (simp add: chunk_events_append event_def)
  have e: "event ?u = (UPLOAD_FILE_END, last ?cs, length bs)"
    using u by (simp add: event_def flip: u(5))
  have c: "call_upload H v = Some (v\<lparr>user := f (event (currentUpload v)) (user v)\<rparr>)"
    if "currentHandler v = currentHandler w0" "currentUri v = currentUri w0" for v
    using o that by (simp add: observer_def)
  let ?v = "(set_input ?s w0)\<lparr>currentUpload := ?u, user := f (event ?u) ?x\<rparr>"
  have rl: "read_line ?v = (l, set_input rest ?v)"
    by (rule read_line_found [OF _ _ l]) (use cl in simp_all)
  have "end_of_file H w = Some (if l = ''--'' then File_last else File_more, set_input rest ?v)"
    using rl by (simp add: end_of_file_def w c x Let_def)
  then show ?thesis
    using u e by (intro exI [of _ ?cs] exI [of _ ?u]) auto
qed

lemma file_part_delivers:
  assumes o: "observer H (currentHandler w) (currentUri w) f" and cl: "currentClient w \<noteq> None"
    and b: "length (buf (currentUpload w)) = HTTP_UPLOAD_BUFLEN"
    and i: "input w = content @ delimiter (B @ l @ CR # LF # rest)" and n: "no_delimiter content"
    and l: "CR \<notin> set l"
  shows "\<exists>cs u. file_part H stale B nm fname ty w
      = Some (if l = ''--'' then File_last else File_more,
          (set_input rest w)\<lparr>currentUpload := u,
             user := f (UPLOAD_FILE_END, last cs, length content) (fold f (chunk_events 0 cs)
                       (f (UPLOAD_FILE_START, [], 0) (user w)))\<rparr>)
      \<and> cs \<noteq> [] \<and> concat cs = content \<and> (\<forall>c \<in> set cs. length c \<le> HTTP_UPLOAD_BUFLEN)"
proof -
  let ?u = "(currentUpload w)\<lparr>status := UPLOAD_FILE_START, upload_name := nm, filename := fname,
       upload_type := ty, totalSize := 0, currentSize := 0\<rparr>"
  let ?w0 = "w\<lparr>currentUpload := ?u\<lparr>status := UPLOAD_FILE_WRITE\<rparr>, user := f (UPLOAD_FILE_START, [], 0) (user w)\<rparr>"
  have "input w \<noteq> []" using i by simp
  then obtain x s where xs: "input w = x # s" by (meson list.exhaust)
  have o0: "observer H (currentHandler ?w0) (currentUri ?w0) f" and cl0: "currentClient ?w0 \<noteq> None"
    using o cl by simp_all
  have st: "call_upload H (start_file nm fname ty w) = Some (w\<lparr>currentUpload := ?u, user := f (UPLOAD_FILE_START, [], 0) (user w)\<rparr>)"
    using o unfolding observer_def by (simp add: start_file_def event_def)
  have ss: "set_status UPLOAD_FILE_WRITE (w\<lparr>currentUpload := ?u, user := f (UPLOAD_FILE_START, [], 0) (user w)\<rparr>) = ?w0"
    by (cases w) (simp add: set_status_def)
  have r0: "reading f ?w0 (input w) [] ?w0"
    unfolding reading_def by (rule exI [of _ "[]"], rule exI [of _ "currentUpload ?w0"]) (use b in simp)
  note r = reading_read [OF cl0 r0 [unfolded xs]]
  have "file_part H stale B nm fname ty w = read_file H stale B x (set_input s ?w0)"
    unfolding file_part_def st bind.bind_lunit Let_def ss r(1) by simp
  moreover obtain w' where "read_file H stale B x (set_input s ?w0) = end_of_file H w'"
    "reading f ?w0 (l @ CR # LF # rest) ([] @ content) w'"
    using read_file_content [OF o0 cl0 _ r(2), of "l @ CR # LF # rest" x content B stale] i xs n by auto
  ultimately show ?thesis
    using end_of_file_reading [OF o0 cl0 _ l, of rest content w'] by auto
qed

section \<open>Forms that never end\<close>

definition contains :: "string \<Rightarrow> string \<Rightarrow> bool" where
  "contains s u \<longleftrightarrow> (\<exists>p q. s = p @ u @ q)"

lemma read_line_parts:
  assumes "read_line w = (l, w')"
  shows "(\<exists>p. input w = l @ p) \<and> (\<exists>q. input w = q @ input w')"
proof (cases "currentClient w = None")
  case True
  with assms show ?thesis
    by (auto simp: read_line_def read_until_def readStringUntil_def input_def set_input_def)
next
  case False
  let ?r = "drop 1 (dropWhile (\<lambda>x. x \<noteq> CR) (input w))"
  let ?r2 = "drop 1 (dropWhile (\<lambda>x. x \<noteq> LF) ?r)"
  have l: "l = takeWhile (\<lambda>x. x \<noteq> CR) (input w)" and i: "input w' = ?r2"
    using assms False by (auto simp: read_line_def read_until_def readStringUntil_def)
  have suf: "\<exists>q. s = q @ drop 1 (dropWhile P s)" for P and s :: string
    by (metis append_take_drop_id append.assoc takeWhile_dropWhile_id)
  obtain q1 where q1: "input w = q1 @ ?r" using suf by blast
  obtain q2 where q2: "?r = q2 @ ?r2" using suf by blast
  from q1 q2 i have "input w = (q1 @ q2) @ input w'" by simp
  moreover have "input w = l @ dropWhile (\<lambda>x. x \<noteq> CR) (input w)" by (simp add: l)
  ultimately show ?thesis by blast
qed

lemma contains_suffix: "s = q @ s' \<Longrightarrow> contains s' u \<Longrightarrow> contains s u"
  unfolding contains_def by (metis append.assoc)

lemma startsWith_contains: "s = l @ p \<Longrightarrow> startsWith l u \<Longrightarrow> contains s u"
  unfolding contains_def startsWith_def by (metis append.assoc append_Nil append_take_drop_id)

lemma read_line_contains:
  "read_line w = (l, w') \<Longrightarrow> startsWith l u \<Longrightarrow> contains (input w) u"
  "read_line w = (l, w') \<Longrightarrow> contains (input w') u \<Longrightarrow> contains (input w) u"
  using read_line_parts startsWith_contains contains_suffix by metis+

lemma value_loop_needs_boundary:
  "value_loop B v w = Some r \<Longrightarrow> contains (input w) (dashes B)"
proof (rule value_loop.raw_induct [of "\<lambda>B v w r. contains (input w) (dashes B)"])
  fix loop :: "string \<Rightarrow> string \<Rightarrow> 'u web \<Rightarrow> (string \<times> string \<times> 'u web) option"
  fix B v w r
  assume IH: "\<And>B v w r. loop B v w = Some r \<Longrightarrow> contains (input w) (dashes B)"
    and b: "(case read_line w of (line, w) \<Rightarrow>
        if startsWith line (dashes B) then Some (line, v, w)
        else loop B ((if 0 < length v then v @ [LF] else v) @ line) w) = Some r"
  obtain l w' where l: "read_line w = (l, w')" by (cases "read_line w")
  show "contains (input w) (dashes B)"
  proof (cases "startsWith l (dashes B)")
    case True
    with read_line_contains(1) [OF l] show ?thesis .
  next
    case False
    with b l have "contains (input w') (dashes B)" by (auto intro: IH)
    with read_line_contains(2) [OF l] show ?thesis .
  qed
qed

text \<open>Without a disposition line the form is never left, and a text field waits for its boundary.\<close>

lemma form_loop_needs_disposition:
  "form_loop H stale B post w = Some r \<Longrightarrow> contains (input w) ''Content-Disposition''"
proof (rule form_loop.raw_induct [of "\<lambda>H stale B post w r. contains (input w) ''Content-Disposition''"])
  fix loop :: "'u handlers \<Rightarrow> (nat \<Rightarrow> string) \<Rightarrow> string \<Rightarrow> args \<Rightarrow> 'u web \<Rightarrow> (form_end \<times> 'u web) option"
  fix H stale B post w r
  assume IH: "\<And>H stale B post w r. loop H stale B post w = Some r
      \<Longrightarrow> contains (input w) ''Content-Disposition''"
    and b: "(case read_line w of (line, w) \<Rightarrow>
        if startsWith line ''Content-Disposition'' \<and> indexOf (CHR ''='') 0 line \<noteq> - 1 then
          (case disposition line (indexOf (CHR ''='') 0 line) (currentArgs w) of
             (partName, partFile, argIsFile) \<Rightarrow>
           case part_type w of (partType, w) \<Rightarrow>
             if \<not> argIsFile then
               Option.bind (value_loop B [] w) (\<lambda>(line, argValue, w).
                 if 32 \<le> length post then Some (Form_overflow, w)
                 else if line = dashes B @ ''--''
                 then Some (Form_args (post @ [(partName, argValue)]), w)
                 else loop H stale B (post @ [(partName, argValue)]) w)
             else
               Option.bind (file_part H stale B partName partFile partType w) (\<lambda>(r, w).
                 case r of File_last \<Rightarrow> Some (Form_args post, w)
                 | File_more \<Rightarrow> loop H stale B post w
                 | File_aborted \<Rightarrow> Some (Form_aborted, w)))
        else loop H stale B post w) = Some r"
  obtain l w' where l: "read_line w = (l, w')" by (cases "read_line w")
  show "contains (input w) ''Content-Disposition''"
  proof (cases "startsWith l ''Content-Disposition''")
    case True
    with read_line_contains(1) [OF l] show ?thesis .
  next
    case False
    with b l have "contains (input w') ''Content-Disposition''" by (auto intro: IH)
    with read_line_contains(2) [OF l] show ?thesis .
  qed
qed

section \<open>Text fields\<close>

definition disposition_line :: "string \<Rightarrow> string" where
  "disposition_line k = ''Content-Disposition: form-data; name='' @ CHR 0x22 # k @ [CHR 0x22]"

fun form_body :: "string \<Rightarrow> args \<Rightarrow> string \<Rightarrow> string" where
  "form_body B [] tail = tail"
| "form_body B ((k, v) # kvs) tail =
     disposition_line k @ CRLF @ CRLF @ v @ CRLF @ dashes B
       @ (if kvs = [] then ''--'' @ CRLF else CRLF) @ form_body B kvs tail"

definition plain_field :: "string \<Rightarrow> string \<times> string \<Rightarrow> bool" where
  "plain_field B kv \<longleftrightarrow> CHR ''='' \<notin> set (fst kv) \<and> CR \<notin> set (fst kv) \<and> length (fst kv) < 2 ^ 30
     \<and> CR \<notin> set (snd kv) \<and> \<not> startsWith (snd kv) (dashes B)"

lemma disposition_of_line:
  assumes "CHR ''='' \<notin> set k" and "length k < 2 ^ 30"
  shows "indexOf (CHR ''='') 0 (disposition_line k) = 36"
    and "disposition (disposition_line k) 36 args = (k, [], False)"
proof -
  show i: "indexOf (CHR ''='') 0 (disposition_line k) = 36"
    by (simp add: indexOf_def disposition_line_def)
  have s: "substring_from 38 (disposition_line k) = k @ [CHR 0x22]"
    using substring_from_nat [of 38 "disposition_line k"] assms(2) by (simp add: disposition_line_def)
  have n: "indexOf (CHR ''='') 0 (k @ [CHR 0x22]) = - 1" using assms(1) by (simp add: indexOf_def)
  have "substring 0 (int (length k)) (k @ [CHR 0x22]) = k"
    using substring_mid [of 0 "length k" "k @ [CHR 0x22]"] assms(2) by simp
  with s n show "disposition (disposition_line k) 36 args = (k, [], False)"
    by (simp add: disposition_def Let_def)
qed

lemma startsWith_append [simp]: "startsWith (u @ v) u"
  by (simp add: startsWith_def)

lemma form_field_step:
  assumes cl: "currentClient w \<noteq> None" and p: "plain_field B (k, v)" and B: "CR \<notin> set B"
    and e: "e = ''--'' \<or> e = []"
    and i: "input w = disposition_line k @ CRLF @ CRLF @ v @ CRLF @ dashes B @ e @ CRLF @ s"
  shows "form_loop H stale B post w =
     (if 32 \<le> length post then Some (Form_overflow, set_input s w)
      else if e = ''--'' then Some (Form_args (post @ [(k, v)]), set_input s w)
      else form_loop H stale B (post @ [(k, v)]) (set_input s w))"
proof -
  have k: "CHR ''='' \<notin> set k" "CR \<notin> set k" "length k < 2 ^ 30" and v: "CR \<notin> set v" "\<not> startsWith v (dashes B)"
    using p by (simp_all add: plain_field_def)
  let ?s1 = "v @ CR # LF # dashes B @ e @ CR # LF # s"
  let ?w1 = "set_input (CR # LF # ?s1) w" and ?w2 = "set_input ?s1 w"
  let ?w3 = "set_input (dashes B @ e @ CR # LF # s) w"
  have c: "CR \<notin> set (disposition_line k)" using k(2) by (simp add: disposition_line_def CR_def)
  have r1: "read_line w = (disposition_line k, ?w1)"
    by (rule read_line_found [OF cl _ c]) (simp add: i CRLF_def)
  have r2: "read_line ?w1 = ([], ?w2)"
    using read_line_found [of ?w1 "[]" ?s1] cl by simp
  have r3: "read_line ?w2 = (v, ?w3)"
    using read_line_found [of ?w2 v _] cl v(1) by simp
  have "CR \<notin> set (dashes B @ e)" using B e by (auto simp: dashes_def CR_def)
  then have r4: "read_line ?w3 = (dashes B @ e, set_input s w)"
    using read_line_found [of ?w3 "dashes B @ e" s] cl by simp
  have pt: "part_type ?w1 = (''text/plain'', ?w2)" by (simp add: part_type_def r2 startsWith_def)
  have "value_loop B [] ?w2 = value_loop B v ?w3"
    by (subst value_loop.simps) (simp add: r3 v(2))
  also have "\<dots> = Some (dashes B @ e, v, set_input s w)"
    by (subst value_loop.simps) (simp add: r4)
  finally have vl: "value_loop B [] ?w2 = Some (dashes B @ e, v, set_input s w)" .
  have sw: "startsWith (disposition_line k) ''Content-Disposition''"
    by (simp add: disposition_line_def startsWith_def)
  have de: "dashes B @ e = dashes B @ ''--'' \<longleftrightarrow> e = ''--''" by simp
  show ?thesis
    by (subst form_loop.simps)
      (simp add: r1 sw disposition_of_line [OF k(1,3)] pt vl de del: append_same_eq)
qed

lemma form_loop_fields:
  assumes "currentClient w \<noteq> None" and "CR \<notin> set B" and "\<forall>kv \<in> set kvs. plain_field B kv"
    and "kvs \<noteq> []" and "input w = form_body B kvs tail" and "length post \<le> 32"
  shows "\<exists>t. form_loop H stale B post w =
     (if length post + length kvs \<le> 32 then Some (Form_args (post @ kvs), set_input tail w)
      else Some (Form_overflow, set_input t w))"
  using assms
proof (induction kvs arbitrary: w post)
  case Nil
  then show ?case by simp
next
  case (Cons kv kvs)
  obtain k v where kv: "kv = (k, v)" by (cases kv)
  have p: "plain_field B (k, v)" using Cons.prems(3) kv by simp
  let ?e = "if kvs = [] then ''--'' else []" and ?s = "form_body B kvs tail"
  have step: "form_loop H stale B post w =
     (if 32 \<le> length post then Some (Form_overflow, set_input ?s w)
      else if ?e = ''--'' then Some (Form_args (post @ [(k, v)]), set_input ?s w)
      else form_loop H stale B (post @ [(k, v)]) (set_input ?s w))"
    by (rule form_field_step [OF Cons.prems(1) p Cons.prems(2)]) (use Cons.prems(5) in \<open>auto simp: kv\<close>)
  show ?case
  proof (cases "32 \<le> length post")
    case True
    with step Cons.prems(6) show ?thesis by auto
  next
    case False
    show ?thesis
    proof (cases "kvs = []")
      case True
      with step False kv show ?thesis by simp
    next
      case more: False
      have "\<exists>t. form_loop H stale B (post @ [(k, v)]) (set_input ?s w) =
         (if length (post @ [(k, v)]) + length kvs \<le> 32
          then Some (Form_args ((post @ [(k, v)]) @ kvs), set_input tail (set_input ?s w))
          else Some (Form_overflow, set_input t (set_input ?s w)))"
        by (rule Cons.IH) (use Cons.prems more False in simp_all)
      with step False more kv show ?thesis
        by (cases "length post + length kvs \<le> 31") auto
    qed
  qed
qed

lemma parseForm_start:
  assumes "currentClient w \<noteq> None" and "CR \<notin> set B" and "input w = dashes B @ CRLF @ s"
  shows "first_line 3 w = (dashes B, set_input (LF # s) w)"
    and "read_until LF (set_input (LF # s) w) = ([], set_input s w)"
proof -
  have "CR \<notin> set (dashes B)" using assms(2) by (simp add: dashes_def CR_def)
  then have "read_until CR w = (dashes B, set_input (LF # s) w)"
    using assms(3) readStringUntil_found [of CR "dashes B" "LF # s"] by (simp add: read_until_def CRLF_def)
  then show "first_line 3 w = (dashes B, set_input (LF # s) w)"
    by (simp add: numeral_3_eq_3 dashes_def)
  show "read_until LF (set_input (LF # s) w) = ([], set_input s w)"
    using assms(1) readStringUntil_found [of LF "[]" s] by (simp add: read_until_def)
qed

section \<open>Properties\<close>

text \<open>C14: an uploaded file arrives whole: whatever its bytes, as long as no line of it starts with two
  dashes, the upload function is called once to start, then with consecutive pieces of at most the
  buffer's size whose concatenation is the file, then once with the end and the file's size, and
  the reader stops behind the closing boundary line.\<close>

theorem upload_delivers_file:
  assumes "observer H (currentHandler w) (currentUri w) f" and "currentClient w \<noteq> None"
    and "length (buf (currentUpload w)) = HTTP_UPLOAD_BUFLEN"
    and "input w = content @ delimiter (B @ l @ CR # LF # rest)" and "no_delimiter content" and "CR \<notin> set l"
  shows "\<exists>pieces u. file_part H stale B nm fname ty w
      = Some (if l = ''--'' then File_last else File_more,
          (set_input rest w)\<lparr>currentUpload := u,
             user := f (UPLOAD_FILE_END, last pieces, length content)
                       (fold f (chunk_events 0 pieces) (f (UPLOAD_FILE_START, [], 0) (user w)))\<rparr>)
      \<and> concat pieces = content \<and> (\<forall>p \<in> set pieces. length p \<le> HTTP_UPLOAD_BUFLEN)"
  using file_part_delivers [OF assms, of stale nm fname ty] by blast

text \<open>An application that records its upload calls, at \<open>/upload\<close>.\<close>

definition recorder :: "upload_event list handlers" where
  "recorder = on_upload ''/upload'' HTTP_POST Some
     (Some (\<lambda>w. Some (w\<lparr>user := event (currentUpload w) # user w\<rparr>))) no_handlers"

definition recording :: "string \<Rightarrow> upload_event list web" where
  "recording s = (web_init \<lparr>status = UPLOAD_FILE_END, filename = [], upload_name = [], upload_type = [],
       totalSize = 0, currentSize = 0, buf = replicate HTTP_UPLOAD_BUFLEN (CHR 0x00)\<rparr> [])
     \<lparr>currentClient := Some \<lparr>rx = s, peer_open = True, tx = [], room = 0\<rparr>,
      currentHandler := Some 0, currentUri := ''/upload''\<rparr>"

lemma recorder_observer: "observer recorder (Some 0) ''/upload'' (\<lambda>e es. e # es)"
  by (simp add: observer_def recorder_def on_upload_def addRequestHandler_def no_handlers_def
      call_upload_def current_handler_def)

lemma upload_delivers_file_witness:
  "\<exists>pieces w'. file_part recorder (\<lambda>_. []) ''B'' ''f'' ''x.txt'' ''text/plain''
       (recording (''a-b'' @ delimiter (''B'' @ ''--'' @ CR # LF # []))) = Some (File_last, w')
     \<and> concat pieces = ''a-b''
     \<and> user w' = (UPLOAD_FILE_END, last pieces, length ''a-b'')
         # fold (\<lambda>e es. e # es) (chunk_events 0 pieces) [(UPLOAD_FILE_START, [], 0)]"
proof -
  define w where "w = recording (''a-b'' @ delimiter (''B'' @ ''--'' @ CR # LF # []))"
  have n: "no_delimiter ''a-b''"
    unfolding no_delimiter_def delimiter_def
    by (auto simp: CR_def append_eq_Cons_conv Cons_eq_append_conv)
  have o: "observer recorder (currentHandler w) (currentUri w) (\<lambda>e es. e # es)"
    using recorder_observer by (simp add: w_def recording_def)
  have c: "currentClient w \<noteq> None" and b: "length (buf (currentUpload w)) = HTTP_UPLOAD_BUFLEN"
    and u: "user w = []" by (simp_all add: w_def recording_def web_init_def)
  have i: "input w = ''a-b'' @ delimiter (''B'' @ ''--'' @ CR # LF # [])"
    by (simp add: w_def recording_def input_def)
  have l: "CR \<notin> set ''--''" by (simp add: CR_def)
  obtain pieces up where p: "file_part recorder (\<lambda>_. []) ''B'' ''f'' ''x.txt'' ''text/plain'' w
      = Some (if ''--'' = ''--'' then File_last else File_more,
          (set_input [] w)\<lparr>currentUpload := up,
             user := (UPLOAD_FILE_END, last pieces, length ''a-b'')
                # fold (\<lambda>e es. e # es) (chunk_events 0 pieces) ((UPLOAD_FILE_START, [], 0) # user w)\<rparr>)"
      "concat pieces = ''a-b''"
    using upload_delivers_file [OF o c b i n l, of "\<lambda>_. []" "''f''" "''x.txt''" "''text/plain''"] by blast
  let ?w' = "(set_input [] w)\<lparr>currentUpload := up,
      user := (UPLOAD_FILE_END, last pieces, length ''a-b'')
         # fold (\<lambda>e es. e # es) (chunk_events 0 pieces) ((UPLOAD_FILE_START, [], 0) # user w)\<rparr>"
  show ?thesis
    unfolding w_def [symmetric] p(1)
    by (rule exI [of _ pieces], rule exI [of _ ?w']) (use p(2) u in \<open>simp\<close>)
qed

text \<open>C15: the fields of a multipart form arrive as they were sent, in order, followed by as many
  of the arguments of the URL as fit into 32; with more than 32 fields the parser writes past its
  array of 32.\<close>

theorem form_fields_roundtrip:
  assumes "currentClient w \<noteq> None" and "CR \<notin> set B" and "\<forall>kv \<in> set flds. plain_field B kv"
    and "flds \<noteq> []" and "input w = dashes B @ CRLF @ form_body B flds tail"
  shows "\<exists>w'. parseForm H stale B w =
     (if length flds \<le> 32
      then Some (Parsed True, (set_input tail w)\<lparr>currentArgs := flds @ take (32 - length flds) (currentArgs w)\<rparr>)
      else Some (Overflow, w'))"
proof -
  let ?w = "set_input (form_body B flds tail) w"
  note st = parseForm_start [OF assms(1,2,5)]
  have "\<exists>t. form_loop H stale B [] ?w =
     (if length ([] :: args) + length flds \<le> 32 then Some (Form_args ([] @ flds), set_input tail ?w)
      else Some (Form_overflow, set_input t ?w))"
    by (rule form_loop_fields) (use assms in simp_all)
  then obtain t where "form_loop H stale B [] ?w =
     (if length ([] :: args) + length flds \<le> 32 then Some (Form_args ([] @ flds), set_input tail ?w)
      else Some (Form_overflow, set_input t ?w))" by blast
  then show ?thesis
    by (cases "length flds \<le> 32") (simp_all add: parseForm_def st merge_args_def)
qed

lemma form_fields_roundtrip_witness:
  "\<exists>w'. parseForm recorder (\<lambda>_. []) ''XX'' (recording (dashes ''XX'' @ CRLF @ form_body ''XX'' [(''a'', ''1''), (''b'', '''')] []))
     = Some (Parsed True, w') \<and> currentArgs w' = [(''a'', ''1''), (''b'', '''')]"
  using form_fields_roundtrip [of "recording (dashes ''XX'' @ CRLF @ form_body ''XX'' [(''a'', ''1''), (''b'', '''')] [])"
      "''XX''" "[(''a'', ''1''), (''b'', '''')]" "[]" recorder "\<lambda>_. []"]
  by (simp add: recording_def input_def web_init_def plain_field_def startsWith_def dashes_def CR_def)

text \<open>C16: a client can stop the server for good: when the input ends inside a text field, before
  any boundary line, or before the first disposition line, the parser never returns, whether the
  peer closes the connection or not.\<close>

theorem truncated_form_hangs:
  assumes "currentClient w \<noteq> None" and "CR \<notin> set B" and "input w = dashes B @ CRLF @ rest"
    and "\<not> contains rest ''Content-Disposition''
         \<or> (\<exists>k v. rest = disposition_line k @ CRLF @ CRLF @ v \<and> \<not> contains v (dashes B)
              \<and> CHR ''='' \<notin> set k \<and> CR \<notin> set k \<and> length k < 2 ^ 30)"
  shows "parseForm H stale B w = None"
proof -
  let ?w = "set_input rest w"
  note st = parseForm_start [OF assms(1-3)]
  have "form_loop H stale B [] ?w = None"
    using assms(4)
  proof
    assume "\<not> contains rest ''Content-Disposition''"
    then show ?thesis using form_loop_needs_disposition [of H stale B "[]" ?w] assms(1)
      by (cases "form_loop H stale B [] ?w") simp_all
  next
    assume "\<exists>k v. rest = disposition_line k @ CRLF @ CRLF @ v \<and> \<not> contains v (dashes B)
              \<and> CHR ''='' \<notin> set k \<and> CR \<notin> set k \<and> length k < 2 ^ 30"
    then obtain k v where kv: "rest = disposition_line k @ CRLF @ CRLF @ v" "\<not> contains v (dashes B)"
      "CHR ''='' \<notin> set k" "CR \<notin> set k" "length k < 2 ^ 30" by blast
    have c: "CR \<notin> set (disposition_line k)" using kv(4) by (simp add: disposition_line_def CR_def)
    have r1: "read_line ?w = (disposition_line k, set_input (CR # LF # v) w)"
      using read_line_found [of ?w "disposition_line k" "CR # LF # v"] assms(1) c kv(1) by (simp add: CRLF_def)
    have r2: "read_line (set_input (CR # LF # v) w) = ([], set_input v w)"
      using read_line_found [of "set_input (CR # LF # v) w" "[]" v] assms(1) by simp
    have vl: "value_loop B [] (set_input v w) = None"
      using value_loop_needs_boundary [of B "[]" "set_input v w"] kv(2) assms(1)
      by (cases "value_loop B [] (set_input v w)") simp_all
    have pt: "part_type (set_input (CR # LF # v) w) = (''text/plain'', set_input v w)"
      by (simp add: part_type_def r2 startsWith_def)
    have sw: "startsWith (disposition_line k) ''Content-Disposition''"
      by (simp add: disposition_line_def startsWith_def)
    show ?thesis
      by (subst form_loop.simps) (simp add: r1 sw disposition_of_line [OF kv(3,5)] pt vl)
  qed
  then show ?thesis by (simp add: parseForm_def st)
qed

lemma truncated_form_hangs_witness:
  "parseForm recorder (\<lambda>_. []) ''B'' (recording (dashes ''B'' @ CRLF @ ''Content-'')) = None"
proof -
  have "length s \<ge> 19" if "contains s ''Content-Disposition''" for s
    using that by (auto simp: contains_def)
  then have "\<not> contains ''Content-'' ''Content-Disposition''" by fastforce
  then show ?thesis
    by (intro truncated_form_hangs [where rest = "''Content-''"]) (simp_all add: recording_def input_def CR_def)
qed

end
