(* ===== verification/Http_Request.thy ===== *)
theory Http_Request
  imports Http_Form
begin

text \<open>
  Reading a request (\<open>src/ESP8266WebServer/src/Parsing.cpp\<close>, lines 34 to 64 and 66 to 239):
  \<open>readBytesWithTimeout\<close>, the request line, the two header loops, and \<open>_parseRequest\<close>, which finds
  the handler, collects headers and arguments and reads the body. \<open>malloc\<close> does not fail.
\<close>

section \<open>The request line\<close>

definition methods :: "(string \<times> HTTPMethod) list" where
  "methods = [(''POST'', HTTP_POST), (''DELETE'', HTTP_DELETE), (''OPTIONS'', HTTP_OPTIONS),
              (''PUT'', HTTP_PUT), (''PATCH'', HTTP_PATCH)]"

definition method_of :: "string \<Rightarrow> HTTPMethod" where
  "method_of s = (case map_of methods s of None \<Rightarrow> HTTP_GET | Some m \<Rightarrow> m)"

text \<open>Method, path and query; \<open>None\<close> where a space is missing.\<close>

definition request_line :: "string \<Rightarrow> (HTTPMethod \<times> string \<times> string) option" where
  "request_line req =
     (let addr_start = indexOf (CHR '' '') 0 req;
          addr_end = indexOf (CHR '' '') (uns (addr_start + 1)) req
      in if addr_start = - 1 \<or> addr_end = - 1 then None
         else (let methodStr = substring 0 addr_start req;
                   url = substring (addr_start + 1) addr_end req;
                   hasSearch = indexOf (CHR ''?'') 0 url
               in if hasSearch \<noteq> - 1
                  then Some (method_of methodStr, substring 0 hasSearch url, substring_from (hasSearch + 1) url)
                  else Some (method_of methodStr, url, [])))"

section \<open>Headers\<close>

definition collect_header :: "string \<Rightarrow> string \<Rightarrow> 'u web \<Rightarrow> 'u web" where
  "collect_header headerName headerValue w =
     w\<lparr>currentHeaders := snd (collectHeader headerName headerValue (currentHeaders w))\<rparr>"

record body_info =
  isForm :: bool
  boundaryStr :: string
  bodyLength :: nat

text \<open>The loop of a request with a body.\<close>

function body_headers :: "body_info \<Rightarrow> 'u web \<Rightarrow> body_info \<times> 'u web" where
  "body_headers i w =
     (case read_line w of (req, w') \<Rightarrow>
        if req = [] then (i, w')
        else
          (let headerDiv = indexOf (CHR '':'') 0 req in
           if headerDiv = - 1 then (i, w')
           else
             (let headerName = substring 0 headerDiv req;
                  headerValue = trim (substring_from (headerDiv + 1) req);
                  w' = collect_header headerName headerValue w';
                  i = (if headerName = ''Content-Type'' then
                         (if startsWith headerValue ''text/plain'' then i\<lparr>isForm := False\<rparr>
                          else if startsWith headerValue ''multipart/form-data''
                          then i\<lparr>boundaryStr := substring_from (indexOf (CHR ''='') 0 headerValue + 1) headerValue,
                                 isForm := True\<rparr>
                          else i)
                       else if headerName = ''Content-Length'' then i\<lparr>bodyLength := uns (toInt headerValue)\<rparr>
                       else i);
                  w' = (if headerName = ''Host'' then w'\<lparr>hostHeader := headerValue\<rparr> else w')
              in body_headers i w')))"
  by pat_completeness auto
termination
proof (relation "measure (\<lambda>(i, w). length (input w))", goal_cases)
  case (2 i w x y xa xb xc xd xe xf)
  then show ?case
    using read_line_shorter [of w x y] by (auto simp: collect_header_def input_def Let_def split: if_splits)
qed simp

declare body_headers.simps [simp del]

text \<open>The loop of a request without one: it skips one character after the colon.\<close>

function plain_headers :: "'u web \<Rightarrow> 'u web" where
  "plain_headers w =
     (case read_line w of (req, w') \<Rightarrow>
        if req = [] then w'
        else
          (let headerDiv = indexOf (CHR '':'') 0 req in
           if headerDiv = - 1 then w'
           else
             (let headerName = substring 0 headerDiv req;
                  headerValue = substring_from (headerDiv + 2) req;
                  w' = collect_header headerName headerValue w';
                  w' = (if headerName = ''Host'' then w'\<lparr>hostHeader := headerValue\<rparr> else w')
              in plain_headers w')))"
  by pat_completeness auto
termination
proof (relation "measure (\<lambda>w. length (input w))", goal_cases)
  case (2 w x y xa xb xc xd xe)
  then show ?case
    using read_line_shorter [of w x y] by (auto simp: collect_header_def input_def Let_def split: if_splits)
qed simp

declare plain_headers.simps [simp del]

section \<open>The body\<close>

text \<open>\<open>readBytesWithTimeout\<close> takes all that is available, until \<open>maxLength\<close> is reached or nothing
  comes for the time of the timeout.\<close>

function readBytesWithTimeout :: "nat \<Rightarrow> string \<Rightarrow> string \<Rightarrow> string \<times> string" where
  "readBytesWithTimeout maxLength b av =
     (if length b < maxLength then
        (let newLength = length av in
         if newLength = 0 then (b, av)
         else readBytesWithTimeout maxLength (b @ take newLength av) (drop newLength av))
      else (b, av))"
  by pat_completeness auto
termination by (relation "measure (\<lambda>(m, b, av). length av)") auto

declare readBytesWithTimeout.simps [simp del]

text \<open>The query with a plain body: JSON, or text without an equals sign, becomes the argument \<open>plain\<close>.\<close>

definition append_body :: "string \<Rightarrow> nat \<Rightarrow> string \<Rightarrow> string" where
  "append_body searchStr len plainBuf =
     (if 0 < len then
        (let searchStr = (if searchStr \<noteq> [] then searchStr @ ''&'' else searchStr) in
         if hd plainBuf = CHR ''{'' \<or> hd plainBuf = CHR ''['' \<or> CHR ''='' \<notin> set plainBuf
         then searchStr @ ''plain='' @ plainBuf else searchStr @ plainBuf)
      else searchStr)"

definition has_body :: "HTTPMethod \<Rightarrow> bool" where
  "has_body m \<longleftrightarrow> m = HTTP_POST \<or> m = HTTP_PUT \<or> m = HTTP_PATCH \<or> m = HTTP_DELETE"

section \<open>_parseRequest\<close>

definition start_request :: "'u handlers \<Rightarrow> HTTPMethod \<Rightarrow> string \<Rightarrow> 'u web \<Rightarrow> 'u web" where
  "start_request H m url w =
     w\<lparr>currentUri := url, currentMethod := m, currentHandler := find_handler 0 (chain H) m url\<rparr>"

definition parse_body ::
    "'u handlers \<Rightarrow> (nat \<Rightarrow> string) \<Rightarrow> string \<Rightarrow> 'u web \<Rightarrow> (parse_result \<times> 'u web) option" where
  "parse_body H stale searchStr w =
     (case body_headers \<lparr>isForm = False, boundaryStr = [], bodyLength = 0\<rparr> w of (i, w) \<Rightarrow>
        if \<not> isForm i then
          (case readBytesWithTimeout (bodyLength i) [] (input w) of (plainBuf, r) \<Rightarrow>
             let w = set_input r w in
             if length plainBuf < bodyLength i then Some (Parsed False, w)
             else (let w = w\<lparr>currentArgs := parseArguments (append_body searchStr (bodyLength i) plainBuf)\<rparr>
                   in Some (Parsed True, flush_input w)))
        else
          (let w = w\<lparr>currentArgs := parseArguments searchStr\<rparr> in
           Option.bind (parseForm H stale (boundaryStr i) w) (\<lambda>(r, w).
             if r = Parsed True then Some (Parsed True, flush_input w) else Some (r, w))))"

definition parseRequest :: "'u handlers \<Rightarrow> (nat \<Rightarrow> string) \<Rightarrow> 'u web \<Rightarrow> (parse_result \<times> 'u web) option" where
  "parseRequest H stale w =
     (case read_line w of (req, w) \<Rightarrow>
        let w = w\<lparr>currentHeaders := map (\<lambda>(k, v). (k, [])) (currentHeaders w)\<rparr> in
        case request_line req of
          None \<Rightarrow> Some (Parsed False, w)
        | Some (m, url, searchStr) \<Rightarrow>
            (let w = start_request H m url w in
             if has_body m then parse_body H stale searchStr w
             else (let w = plain_headers w;
                       w = w\<lparr>currentArgs := parseArguments searchStr\<rparr>
                   in Some (Parsed True, flush_input w))))"

section \<open>Reading well-formed requests\<close>

definition header_line :: "string \<times> string \<Rightarrow> string" where
  "header_line h = fst h @ '': '' @ snd h @ CRLF"

definition plain_header :: "string \<times> string \<Rightarrow> bool" where
  "plain_header h \<longleftrightarrow> fst h \<noteq> [] \<and> CHR '':'' \<notin> set (fst h) \<and> CR \<notin> set (fst h) \<and> CR \<notin> set (snd h)
     \<and> length (fst h) + length (snd h) < 2 ^ 30 \<and> trim (snd h) = snd h"

definition note_header :: "string \<times> string \<Rightarrow> 'u web \<Rightarrow> 'u web" where
  "note_header h w = (let w = collect_header (fst h) (snd h) w in
     if fst h = ''Host'' then w\<lparr>hostHeader := snd h\<rparr> else w)"

definition note_body_header :: "string \<times> string \<Rightarrow> body_info \<Rightarrow> body_info" where
  "note_body_header h i =
     (if fst h = ''Content-Type'' then
        (if startsWith (snd h) ''text/plain'' then i\<lparr>isForm := False\<rparr>
         else if startsWith (snd h) ''multipart/form-data''
         then i\<lparr>boundaryStr := substring_from (indexOf (CHR ''='') 0 (snd h) + 1) (snd h), isForm := True\<rparr>
         else i)
      else if fst h = ''Content-Length'' then i\<lparr>bodyLength := uns (toInt (snd h))\<rparr>
      else i)"

lemma note_header_fields [simp]:
  "currentClient (note_header h w) = currentClient w" "input (note_header h w) = input w"
  "note_header h (set_input s w) = set_input s (note_header h w)"
  "currentArgs (note_header h w) = currentArgs w" "currentUri (note_header h w) = currentUri w"
  "currentMethod (note_header h w) = currentMethod w" "currentHandler (note_header h w) = currentHandler w"
  "currentUpload (note_header h w) = currentUpload w" "user (note_header h w) = user w"
  "responseHeaders (note_header h w) = responseHeaders w"
  "currentHeaders (note_header h w) = snd (collectHeader (fst h) (snd h) (currentHeaders w))"
  by (simp_all add: note_header_def collect_header_def input_def set_input_def Let_def)

lemma fold_note_fields [simp]:
  "currentClient (fold note_header hs w) = currentClient w" "input (fold note_header hs w) = input w"
  "currentArgs (fold note_header hs w) = currentArgs w" "currentUri (fold note_header hs w) = currentUri w"
  "currentMethod (fold note_header hs w) = currentMethod w"
  "currentHandler (fold note_header hs w) = currentHandler w"
  "currentUpload (fold note_header hs w) = currentUpload w" "user (fold note_header hs w) = user w"
  "responseHeaders (fold note_header hs w) = responseHeaders w"
  "fold note_header hs (set_input s w) = set_input s (fold note_header hs w)"
  by (induction hs arbitrary: w) simp_all

lemma header_parts:
  assumes "plain_header h"
  shows "indexOf (CHR '':'') 0 (fst h @ '': '' @ snd h) = int (length (fst h))"
    and "substring 0 (int (length (fst h))) (fst h @ '': '' @ snd h) = fst h"
    and "substring_from (int (length (fst h)) + 2) (fst h @ '': '' @ snd h) = snd h"
    and "trim (substring_from (int (length (fst h)) + 1) (fst h @ '': '' @ snd h)) = snd h"
    and "CR \<notin> set (fst h @ '': '' @ snd h)" "fst h @ '': '' @ snd h \<noteq> []"
proof -
  have h: "CHR '':'' \<notin> set (fst h)" "length (fst h) + length (snd h) < 2 ^ 30" "trim (snd h) = snd h"
    "fst h \<noteq> []" using assms by (simp_all add: plain_header_def)
  show "indexOf (CHR '':'') 0 (fst h @ '': '' @ snd h) = int (length (fst h))"
    using indexOf_append(1) [OF h(1), of "[]" "CHR '' '' # snd h"] by simp
  show "substring 0 (int (length (fst h))) (fst h @ '': '' @ snd h) = fst h"
    using substring_mid [of 0 "length (fst h)" "fst h @ '': '' @ snd h"] h(2) by simp
  show "substring_from (int (length (fst h)) + 2) (fst h @ '': '' @ snd h) = snd h"
    using substring_from_nat [of "length (fst h) + 2" "fst h @ '': '' @ snd h"] h(2) by (simp add: ac_simps)
  have "substring_from (int (length (fst h)) + 1) (fst h @ '': '' @ snd h) = CHR '' '' # snd h"
    using substring_from_nat [of "length (fst h) + 1" "fst h @ '': '' @ snd h"] h(2) by (simp add: ac_simps)
  moreover have "trim (CHR '' '' # snd h) = trim (snd h)" by (simp add: trim_def isspace_def)
  ultimately show "trim (substring_from (int (length (fst h)) + 1) (fst h @ '': '' @ snd h)) = snd h"
    using h(3) by simp
  show "CR \<notin> set (fst h @ '': '' @ snd h)" using assms by (simp add: plain_header_def CR_def)
  show "fst h @ '': '' @ snd h \<noteq> []" by simp
qed

lemma plain_headers_read:
  assumes "currentClient w \<noteq> None" and "\<forall>h \<in> set hs. plain_header h"
    and "input w = concat (map header_line hs) @ CRLF @ s"
  shows "plain_headers w = fold note_header hs (set_input s w)"
  using assms
proof (induction hs arbitrary: w)
  case Nil
  then have "read_line w = ([], set_input s w)" using read_line_found [of w "[]" s] by (simp add: CRLF_def)
  then show ?case by (subst plain_headers.simps) simp
next
  case (Cons h hs)
  let ?l = "fst h @ '': '' @ snd h" and ?s = "concat (map header_line hs) @ CRLF @ s"
  have p: "plain_header h" using Cons.prems(2) by simp
  note hp = header_parts [OF p]
  have r: "read_line w = (?l, set_input ?s w)"
    by (rule read_line_found [OF Cons.prems(1) _ hp(5)]) (use Cons.prems(3) in \<open>simp add: header_line_def [of h] CRLF_def\<close>)
  have "plain_headers w = plain_headers (note_header h (set_input ?s w))"
    by (subst plain_headers.simps)
      (simp only: r prod.case hp Let_def if_False note_header_def, simp)
  also have "\<dots> = fold note_header hs (set_input s (note_header h (set_input ?s w)))"
    by (rule Cons.IH) (use Cons.prems in simp_all)
  finally show ?case by simp
qed

lemma body_headers_read:
  assumes "currentClient w \<noteq> None" and "\<forall>h \<in> set hs. plain_header h"
    and "input w = concat (map header_line hs) @ CRLF @ s"
  shows "body_headers i w = (fold note_body_header hs i, fold note_header hs (set_input s w))"
  using assms
proof (induction hs arbitrary: i w)
  case Nil
  then have "read_line w = ([], set_input s w)" using read_line_found [of w "[]" s] by (simp add: CRLF_def)
  then show ?case by (subst body_headers.simps) simp
next
  case (Cons h hs)
  let ?l = "fst h @ '': '' @ snd h" and ?s = "concat (map header_line hs) @ CRLF @ s"
  have p: "plain_header h" using Cons.prems(2) by simp
  note hp = header_parts [OF p]
  have r: "read_line w = (?l, set_input ?s w)"
    by (rule read_line_found [OF Cons.prems(1) _ hp(5)]) (use Cons.prems(3) in \<open>simp add: header_line_def [of h] CRLF_def\<close>)
  have "body_headers i w = body_headers (note_body_header h i) (note_header h (set_input ?s w))"
    by (subst body_headers.simps)
      (simp only: r prod.case hp Let_def if_False note_header_def note_body_header_def, simp)
  also have "\<dots> = (fold note_body_header hs (note_body_header h i),
      fold note_header hs (set_input s (note_header h (set_input ?s w))))"
    by (rule Cons.IH) (use Cons.prems in simp_all)
  finally show ?case by simp
qed

text \<open>What the collected headers hold: for each collected name its last value.\<close>

lemma collectHeader_values:
  "distinct (map fst cs) \<Longrightarrow> snd (collectHeader n v cs) = map (\<lambda>(k, x). (k, if k = n then v else x)) cs"
proof (induction n v cs rule: collectHeader.induct)
  case (2 n v k x cs)
  have "map (\<lambda>(k, x). (k, if k = n then v else x)) cs = cs" if "n \<notin> fst ` set cs"
    using that by (intro map_idI) force
  with 2 show ?case by (auto split: prod.splits)
qed simp

lemma fold_collect:
  "distinct (map fst (currentHeaders w)) \<Longrightarrow>
     currentHeaders (fold note_header hs w)
     = map (\<lambda>(k, x). (k, case map_of (rev hs) k of None \<Rightarrow> x | Some v \<Rightarrow> v)) (currentHeaders w)"
proof (induction hs rule: rev_induct)
  case Nil
  show ?case by (simp add: map_idI split_beta)
next
  case (snoc h hs)
  let ?cs = "currentHeaders (fold note_header hs w)"
  have "map fst ?cs = map fst (currentHeaders w)" using snoc by (simp add: comp_def split_beta)
  then have "distinct (map fst ?cs)" using snoc.prems by simp
  from collectHeader_values [OF this, of "fst h" "snd h"] snoc show ?case
    by (cases h) (auto simp: split_beta)
qed

lemma request_line_read:
  assumes "CHR '' '' \<notin> set mt" "CHR '' '' \<notin> set u" "CHR ''?'' \<notin> set u" "CHR '' '' \<notin> set q"
    and "length mt + length u + length q < 2 ^ 30" and "length v < 2 ^ 30"
  shows "request_line (mt @ '' '' @ u @ (if q = [] then [] else CHR ''?'' # q) @ '' '' @ v)
       = Some (method_of mt, u, q)"
proof -
  let ?url = "u @ (if q = [] then [] else CHR ''?'' # q)"
  let ?r = "mt @ '' '' @ ?url @ '' '' @ v"
  have sp: "CHR '' '' \<notin> set ?url" using assms(2,4) by auto
  have a: "indexOf (CHR '' '') 0 ?r = int (length mt)"
    using indexOf_append(1) [OF assms(1), of "[]" "?url @ '' '' @ v"] by simp
  have un: "uns (int (length mt) + 1) = length mt + 1" using assms(5) by (simp add: uns_id nat_add_distrib)
  have b: "indexOf (CHR '' '') (length mt + 1) ?r = int (length mt + 1 + length ?url)"
    using indexOf_append(1) [OF sp, of "mt @ '' ''" v] by simp
  have m: "substring 0 (int (length mt)) ?r = mt"
    using substring_mid [of 0 "length mt" ?r] assms(5) by simp
  have "substring (int (length mt + 1)) (int (length mt + 1 + length ?url)) ?r = ?url"
    by (subst substring_mid) (use assms(5) in auto)
  then have url: "substring (int (length mt) + 1) (int (length mt + 1 + length ?url)) ?r = ?url"
    by (simp add: ac_simps)
  have eq: "mt @ '' '' @ u @ (if q = [] then [] else CHR ''?'' # q) @ '' '' @ v = ?r" by simp
  have "request_line ?r = Some (method_of mt, u, q)"
  proof (cases "q = []")
    case True
    have "indexOf (CHR ''?'') 0 u = - 1" using assms(3) by (simp add: indexOf_def)
    then show ?thesis unfolding request_line_def Let_def a un b m url using True by simp
  next
    case False
    have i: "indexOf (CHR ''?'') 0 (u @ CHR ''?'' # q) = int (length u)"
      using indexOf_append(1) [OF assms(3), of "[]" q] by simp
    have "substring 0 (int (length u)) (u @ CHR ''?'' # q) = u"
      using substring_mid [of 0 "length u" "u @ CHR ''?'' # q"] assms(5) by simp
    moreover have "substring_from (int (length u) + 1) (u @ CHR ''?'' # q) = q"
      using substring_from_nat [of "length u + 1" "u @ CHR ''?'' # q"] assms(5) by (simp add: ac_simps)
    ultimately show ?thesis unfolding request_line_def Let_def a un b m url using False i by simp
  qed
  then show ?thesis unfolding eq .
qed

section \<open>Properties\<close>

text \<open>A request of \<open>mt\<close> for the path \<open>u\<close> with query \<open>q\<close> and headers \<open>hs\<close>.\<close>

definition request_head :: "string \<Rightarrow> string \<Rightarrow> string \<Rightarrow> args \<Rightarrow> string" where
  "request_head mt u q hs =
     mt @ '' '' @ u @ (if q = [] then [] else CHR ''?'' # q) @ '' '' @ ''HTTP/1.1'' @ CRLF
     @ concat (map header_line hs) @ CRLF"

definition plain_request :: "string \<Rightarrow> string \<Rightarrow> string \<Rightarrow> args \<Rightarrow> bool" where
  "plain_request mt u q hs \<longleftrightarrow> CHR '' '' \<notin> set (mt @ u @ q) \<and> CHR ''?'' \<notin> set u \<and> CR \<notin> set (mt @ u @ q)
     \<and> length mt + length u + length q < 2 ^ 30 \<and> (\<forall>h \<in> set hs. plain_header h)"

definition reset_headers :: "'u web \<Rightarrow> 'u web" where
  "reset_headers w = w\<lparr>currentHeaders := map (\<lambda>(k, v). (k, [])) (currentHeaders w)\<rparr>"

lemma request_head_read:
  assumes "currentClient w \<noteq> None" and "plain_request mt u q hs" and "input w = request_head mt u q hs @ s"
  shows "\<exists>req. read_line w = (req, set_input (concat (map header_line hs) @ CRLF @ s) w)
     \<and> request_line req = Some (method_of mt, u, q)"
proof -
  let ?req = "mt @ '' '' @ u @ (if q = [] then [] else CHR ''?'' # q) @ '' '' @ ''HTTP/1.1''"
  let ?s = "concat (map header_line hs) @ CRLF @ s"
  have i: "input w = ?req @ CR # LF # ?s" using assms(3) by (simp add: request_head_def CRLF_def)
  have c: "CR \<notin> set ?req" using assms(2) by (auto simp: plain_request_def CR_def)
  have "request_line ?req = Some (method_of mt, u, q)"
    by (rule request_line_read) (use assms(2) in \<open>auto simp: plain_request_def\<close>)
  with read_line_found [OF assms(1) i c] show ?thesis by blast
qed

lemma read_all: "readBytesWithTimeout (length body) [] body = (body, [])"
  by (subst readBytesWithTimeout.simps, subst readBytesWithTimeout.simps) simp

text \<open>The joined query and body hold the arguments of both.\<close>

lemma append_body_args:
  assumes "CHR ''='' \<in> set body" and "hd body \<noteq> CHR ''{''" "hd body \<noteq> CHR ''[''"
    and "length q < 2 ^ 30" "length body < 2 ^ 30"
  shows "parseArguments (append_body q (length body) body) = args_of q @ args_of body"
proof -
  have b: "append_body q (length body) body = (if q = [] then body else q @ CHR ''&'' # body)"
    using assms(1-3) by (auto simp: append_body_def Let_def)
  show ?thesis
  proof (cases "q = []")
    case True
    then have "append_body q (length body) body = body" "args_of q = []" using b by (simp_all add: args_of_none)
    then show ?thesis using parse_is_args_of [of body] assms(5) by simp
  next
    case False
    then show ?thesis
      using parse_is_args_of [of "q @ CHR ''&'' # body"] assms(4,5) by (simp add: b args_of_append)
  qed
qed


lemma start_request_head [simp]:
  "currentClient (start_request H m u (reset_headers w)) = currentClient w"
  "input (start_request H m u (reset_headers w)) = input w"
  "currentMethod (start_request H m u (reset_headers w)) = m"
  "currentUri (start_request H m u (reset_headers w)) = u"
  by (simp_all add: start_request_def reset_headers_def input_def)

lemma get_request_parsed:
  assumes "currentClient w \<noteq> None" and "plain_request mt u q hs" and "\<not> has_body (method_of mt)"
    and "input w = request_head mt u q hs @ s"
  shows "parseRequest H stale w = Some (Parsed True,
     set_input [] ((fold note_header hs (start_request H (method_of mt) u (reset_headers w)))\<lparr>currentArgs := args_of q\<rparr>))"
proof -
  let ?w0 = "set_input (concat (map header_line hs) @ CRLF @ s) w"
  obtain req where req: "read_line w = (req, ?w0)" "request_line req = Some (method_of mt, u, q)"
    using request_head_read [OF assms(1,2,4)] by blast
  let ?w = "start_request H (method_of mt) u (reset_headers ?w0)"
  have hs: "plain_headers ?w = fold note_header hs (set_input s ?w)"
    by (rule plain_headers_read) (use assms(1,2) in \<open>simp_all add: plain_request_def\<close>)
  have a: "parseArguments q = args_of q"
    by (rule parse_is_args_of) (use assms(2) in \<open>simp add: plain_request_def\<close>)
  have c: "start_request H m u (reset_headers (set_input t w)) = set_input t (start_request H m u (reset_headers w))" for t m
    by (simp add: start_request_def reset_headers_def set_input_def)
  have d: "(set_input t v)\<lparr>currentArgs := x\<rparr> = set_input t (v\<lparr>currentArgs := x\<rparr>)" for t v x
    by (simp add: set_input_def)
  have "parseRequest H stale w = Some (Parsed True, flush_input ((plain_headers ?w)\<lparr>currentArgs := parseArguments q\<rparr>))"
    using assms(3) by (simp add: parseRequest_def req reset_headers_def Let_def)
  then show ?thesis unfolding hs a by (simp add: c d flush_input_def)
qed

text \<open>C11: a request without a body is read as it was sent: method, path and handler are set, the
  arguments are those of the query, each collected header holds the last value sent for it or is
  empty, and what follows the head is discarded.\<close>

theorem get_request_read:
  assumes "currentClient w \<noteq> None" and "plain_request mt u q hs" and "\<not> has_body (method_of mt)"
    and "distinct (map fst (currentHeaders w))" and "input w = request_head mt u q hs @ s"
  shows "\<exists>w'. parseRequest H stale w = Some (Parsed True, w')
     \<and> currentMethod w' = method_of mt \<and> currentUri w' = u
     \<and> currentHandler w' = find_handler 0 (chain H) (method_of mt) u
     \<and> currentArgs w' = args_of q \<and> input w' = []
     \<and> currentHeaders w' = map (\<lambda>(k, x). (k, case map_of (rev hs) k of None \<Rightarrow> [] | Some v \<Rightarrow> v)) (currentHeaders w)"
proof -
  let ?w = "start_request H (method_of mt) u (reset_headers w)"
  have d: "distinct (map fst (currentHeaders ?w))"
    using assms(4) by (simp add: start_request_def reset_headers_def comp_def split_beta)
  have k: "currentHeaders (fold note_header hs ?w)
      = map (\<lambda>(k, x). (k, case map_of (rev hs) k of None \<Rightarrow> [] | Some v \<Rightarrow> v)) (currentHeaders w)"
    unfolding fold_collect [OF d] by (simp add: start_request_def reset_headers_def split_beta comp_def)
  have i: "input (set_input [] (v :: 'a web)) = []" for v
    by (cases "currentClient v") (simp_all add: input_none)
  show ?thesis
    using get_request_parsed [OF assms(1-3,5), of H stale] k i
    by (simp add: start_request_def)
qed

lemma get_request_read_witness:
  "\<exists>w'. parseRequest recorder (\<lambda>_. []) (recording (request_head ''GET'' ''/a'' ''x=1'' [(''Host'', ''h'')] @ ''zz''))
     = Some (Parsed True, w') \<and> currentUri w' = ''/a'' \<and> currentArgs w' = args_of ''x=1''"
  using get_request_read [of "recording (request_head ''GET'' ''/a'' ''x=1'' [(''Host'', ''h'')] @ ''zz'')"
      "''GET''" "''/a''" "''x=1''" "[(''Host'', ''h'')]" "''zz''" recorder "\<lambda>_. []"]
  by (simp add: recording_def input_def web_init_def plain_request_def plain_header_def method_of_def
      methods_def has_body_def CR_def trim_def isspace_def) blast



end
