(* ===== verification/Http_Server.thy ===== *)
theory Http_Server
  imports Http_Request
begin

text \<open>
  The server's state machine (\<open>src/ESP8266WebServer/src/ESP8266WebServer.cpp\<close>, lines 82 to 87, 158
  to 228, 462 to 488): \<open>handleClient\<close>, called from the sketch's loop, takes a waiting connection,
  waits for its request, has it parsed and handled, and waits for the peer to close. The readings
  of \<open>millis\<close> are arguments: \<open>t0\<close> at acceptance, \<open>t1\<close> for the two waiting times, \<open>t2\<close> after the
  response. The result is \<open>None\<close> where the code does not return or leaves an array.
\<close>

section \<open>Operations\<close>

definition server_available :: "'u web \<Rightarrow> conn option \<times> 'u web" where
  "server_available w = (case unclaimed w of [] \<Rightarrow> (None, w) | c # cs \<Rightarrow> (Some c, w\<lparr>unclaimed := cs\<rparr>))"

definition drop_client :: "'u web \<Rightarrow> 'u web" where
  "drop_client w = w\<lparr>currentClient := None, currentStatus := HC_NONE\<rparr>"

definition handleRequest :: "'u handlers \<Rightarrow> 'u action" where
  "handleRequest H w =
     Option.bind (case current_handler H w of
         None \<Rightarrow> Some (False, w)
       | Some h \<Rightarrow> handle h (currentMethod w) (currentUri w) w) (\<lambda>(handled, w).
     Option.bind (if \<not> handled then
           (case notFoundHandler H of
              Some f \<Rightarrow> f w
            | None \<Rightarrow> Some (send 404 (Some ''text/plain'') (''Not found: '' @ currentUri w) w))
         else Some w) (\<lambda>w.
     Some (w\<lparr>currentUri := []\<rparr>)))"

text \<open>The part of \<open>handleClient\<close> that waits for the request and serves it.\<close>

definition serve_client :: "'u handlers \<Rightarrow> (nat \<Rightarrow> string) \<Rightarrow> u32 \<Rightarrow> u32 \<Rightarrow> 'u action" where
  "serve_client H stale t1 t2 w =
     (if conn_available (currentClient w) = 0 then
        Some (if t1 - statusChange w > HTTP_MAX_DATA_WAIT then drop_client w else w)
      else
        Option.bind (parseRequest H stale w) (\<lambda>(r, w).
          case r of
            Overflow \<Rightarrow> None
          | Parsed False \<Rightarrow> Some (drop_client w)
          | Parsed True \<Rightarrow>
              Option.bind (handleRequest H (w\<lparr>contentLength := CONTENT_LENGTH_NOT_SET\<rparr>)) (\<lambda>w.
                Some (if \<not> connected w then drop_client w
                      else w\<lparr>currentStatus := HC_WAIT_CLOSE, statusChange := t2\<rparr>))))"

definition accept_client :: "u32 \<Rightarrow> 'u web \<Rightarrow> bool \<times> 'u web" where
  "accept_client t0 w =
     (if currentStatus w = HC_NONE then
        (case server_available w of
           (None, w) \<Rightarrow> (False, w)
         | (Some c, w) \<Rightarrow> (True, w\<lparr>currentClient := Some c, currentStatus := HC_WAIT_READ, statusChange := t0\<rparr>))
      else (True, w))"

definition handleClient :: "'u handlers \<Rightarrow> (nat \<Rightarrow> string) \<Rightarrow> u32 \<Rightarrow> u32 \<Rightarrow> u32 \<Rightarrow> 'u action" where
  "handleClient H stale t0 t1 t2 w =
     (case accept_client t0 w of
        (False, w) \<Rightarrow> Some w
      | (True, w) \<Rightarrow>
          if \<not> connected w then Some (drop_client w)
          else if currentStatus w = HC_WAIT_READ then serve_client H stale t1 t2 w
          else if currentStatus w = HC_WAIT_CLOSE then
            Some (if t1 - statusChange w > HTTP_MAX_CLOSE_WAIT then drop_client w else w)
          else Some w)"

section \<open>The status invariant\<close>

definition status_ok :: "'u web \<Rightarrow> bool" where
  "status_ok w \<longleftrightarrow> (currentStatus w = HC_NONE \<longleftrightarrow> currentClient w = None)"

lemma status_ok_init [simp]: "status_ok (web_init up u)"
  by (simp add: status_ok_def web_init_def)

lemma status_ok_drop [simp]: "status_ok (drop_client w)"
  by (simp add: status_ok_def drop_client_def)

lemma accept_status:
  "status_ok w \<Longrightarrow> status_ok (snd (accept_client t0 w))"
  by (auto simp: accept_client_def server_available_def status_ok_def split: list.splits)

lemma connected_some: "connected w \<Longrightarrow> currentClient w \<noteq> None"
  by (auto simp: connected_def conn_connected_def split: option.splits)

lemma serve_status:
  assumes "status_ok w" and "serve_client H stale t1 t2 w = Some w'"
  shows "status_ok w'"
proof (cases "conn_available (currentClient w) = 0")
  case True
  with assms show ?thesis by (auto simp: serve_client_def split: if_splits)
next
  case False
  with assms(2) obtain r v where p: "parseRequest H stale w = Some (r, v)"
    "(case r of Overflow \<Rightarrow> None | Parsed False \<Rightarrow> Some (drop_client v)
      | Parsed True \<Rightarrow> Option.bind (handleRequest H (v\<lparr>contentLength := CONTENT_LENGTH_NOT_SET\<rparr>)) (\<lambda>w.
                Some (if \<not> connected w then drop_client w
                      else w\<lparr>currentStatus := HC_WAIT_CLOSE, statusChange := t2\<rparr>))) = Some w'"
    by (auto simp: serve_client_def bind_eq_Some_conv)
  then consider "w' = drop_client v" | x where "w' = drop_client x"
    | x where "connected x" "w' = x\<lparr>currentStatus := HC_WAIT_CLOSE, statusChange := t2\<rparr>"
    by (auto simp: bind_eq_Some_conv split: parse_result.split_asm bool.split_asm if_splits)
  then show ?thesis by cases (auto simp: status_ok_def drop_client_def dest: connected_some)
qed

lemma handleClient_status:
  assumes "status_ok w" and "handleClient H stale t0 t1 t2 w = Some w'"
  shows "status_ok w'"
proof -
  obtain b w1 where a: "accept_client t0 w = (b, w1)" by (cases "accept_client t0 w")
  have "status_ok w1" using accept_status [OF assms(1), of t0] a by simp
  then show ?thesis
    using assms(2) a serve_status [of w1]
    by (auto simp: handleClient_def split: bool.splits if_splits)
qed

text \<open>The server in its environment: connections are made, bytes arrive, peers close, and the
  sketch calls \<open>handleClient\<close>.\<close>

inductive web_step :: "'u handlers \<Rightarrow> 'u web \<Rightarrow> 'u web \<Rightarrow> bool" for H where
  arrive: "web_step H w (w\<lparr>unclaimed := unclaimed w @ [c]\<rparr>)"
| receive: "currentClient w = Some c \<Longrightarrow> peer_open c
    \<Longrightarrow> web_step H w (w\<lparr>currentClient := Some (c\<lparr>rx := rx c @ bs\<rparr>)\<rparr>)"
| peer_close: "currentClient w = Some c \<Longrightarrow> web_step H w (w\<lparr>currentClient := Some (c\<lparr>peer_open := False\<rparr>)\<rparr>)"
| poll: "handleClient H stale t0 t1 t2 w = Some w' \<Longrightarrow> web_step H w w'"

inductive web_reachable :: "'u handlers \<Rightarrow> 'u web \<Rightarrow> bool" for H where
  start: "web_reachable H (server_begin (web_init up u))"
| step: "web_reachable H w \<Longrightarrow> web_step H w w' \<Longrightarrow> web_reachable H w'"

inductive_cases web_stepE: "web_step H w w'"

lemma reachable_status: "web_reachable H w \<Longrightarrow> status_ok w"
proof (induction rule: web_reachable.induct)
  case (start up u)
  then show ?case by (simp add: server_begin_def status_ok_def web_init_def)
next
  case (step w w')
  from step.hyps(2) show ?case
  proof (cases rule: web_step.cases)
    case poll
    then show ?thesis using handleClient_status [OF step.IH] by blast
  qed (use step.IH in \<open>auto simp: status_ok_def\<close>)
qed

section \<open>Properties\<close>

text \<open>C19: the status and the client of the server always agree: in every reachable state, whatever
  the handlers do, the server holds a connection exactly when it is not idle.\<close>

theorem status_matches_client:
  assumes "web_reachable H w"
  shows "currentStatus w = HC_NONE \<longleftrightarrow> currentClient w = None"
  using reachable_status [OF assms] by (simp add: status_ok_def)

lemma status_matches_client_witness:
  "currentStatus (server_begin (web_init no_upload ())) = HC_NONE \<longleftrightarrow> currentClient (server_begin (web_init no_upload ())) = None"
  by (rule status_matches_client [of no_handlers]) (rule web_reachable.start)

text \<open>C20: no peer can hold the server for ever: a client that sends nothing, and one that does not
  close after its response, is kept as it is up to and including 1000 and 2000 milliseconds, and
  the first poll later than that frees the server, also when \<open>millis\<close> wraps in between.\<close>

theorem silent_client_dropped:
  assumes "currentClient w = Some c" and "peer_open c"
    and "rx c = [] \<and> currentStatus w = HC_WAIT_READ \<and> limit = 1000 \<or> currentStatus w = HC_WAIT_CLOSE \<and> limit = 2000"
    and "elapsed < 2 ^ 32" and "t1 = statusChange w + of_nat elapsed"
  shows "handleClient H stale t0 t1 t2 w = Some (if elapsed > limit then drop_client w else w)"
proof -
  have e: "t1 - statusChange w = of_nat elapsed" using assms(5) by simp
  have "unat (of_nat elapsed :: u32) = elapsed" using assms(4) by (simp add: unat_of_nat)
  then have l: "HTTP_MAX_DATA_WAIT < t1 - statusChange w \<longleftrightarrow> 1000 < elapsed"
    "HTTP_MAX_CLOSE_WAIT < t1 - statusChange w \<longleftrightarrow> 2000 < elapsed"
    unfolding e by (simp_all add: HTTP_MAX_DATA_WAIT_def HTTP_MAX_CLOSE_WAIT_def word_less_nat_alt)
  have "connected w" using assms(1,2) by (simp add: connected_def conn_connected_def)
  then show ?thesis using assms(1,3) l
    by (auto simp: handleClient_def accept_client_def serve_client_def conn_available_def)
qed

lemma silent_client_dropped_witness:
  "handleClient no_handlers (\<lambda>_. []) 0 200 0 ((web_init no_upload ())\<lparr>currentClient := Some \<lparr>rx = [], peer_open = True, tx = [], room = 9\<rparr>,
      currentStatus := HC_WAIT_READ, statusChange := - 801\<rparr>)
   = Some ((web_init no_upload ())\<lparr>currentClient := None, currentStatus := HC_NONE, statusChange := - 801\<rparr>)"
  using silent_client_dropped [where c = "\<lparr>rx = [], peer_open = True, tx = [], room = 9\<rparr>" and elapsed = 1001
      and limit = 1000 and w = "(web_init no_upload ())\<lparr>currentClient := Some \<lparr>rx = [], peer_open = True, tx = [], room = 9\<rparr>,
      currentStatus := HC_WAIT_READ, statusChange := - 801\<rparr>" and ?t1.0 = 200 and ?t0.0 = 0 and ?t2.0 = 0
      and H = no_handlers and stale = "\<lambda>_. []"]
  by (simp add: drop_client_def)

text \<open>A request nobody registered for is answered with 404: without a not-found function the peer
  receives, after what was sent before, exactly one response that names the path, and the server
  then waits for the peer to close.\<close>

theorem unknown_uri_404:
  assumes "currentClient w = Some c" and "peer_open c" and "currentStatus w = HC_WAIT_READ"
    and "plain_request mt u q hs" and "\<not> has_body (method_of mt)" and "rx c = request_head mt u q hs @ s"
    and "find_handler 0 (chain H) (method_of mt) u = None" and "notFoundHandler H = None"
    and "r = response_of 404 ''text/plain'' (responseHeaders w)
               (length_header CONTENT_LENGTH_NOT_SET (length (''Not found: '' @ u))) (''Not found: '' @ u)"
    and "length r \<le> room c"
  shows "\<exists>w'. handleClient H stale t0 t1 t2 w = Some w'
     \<and> currentClient w' = Some (c\<lparr>rx := [], tx := tx c @ r, room := room c - length r\<rparr>)
     \<and> currentStatus w' = HC_WAIT_CLOSE \<and> statusChange w' = t2 \<and> user w' = user w"
proof -
  let ?v = "fold note_header hs (start_request H (method_of mt) u (reset_headers w))"
  let ?p = "set_input [] (?v\<lparr>currentArgs := args_of q\<rparr>)"
  let ?c = "c\<lparr>rx := []\<rparr>"
  have i: "input w = request_head mt u q hs @ s" using assms(1,6) by (simp add: input_def)
  have p: "parseRequest H stale w = Some (Parsed True, ?p)"
    by (rule get_request_parsed [OF _ assms(4,5) i]) (use assms(1) in simp)
  have f: "currentClient ?v = Some c" "responseHeaders ?v = responseHeaders w" "currentUri ?v = u"
    "currentHandler ?v = None" "user ?v = user w"
    using assms(1,7) by (simp_all add: start_request_def reset_headers_def)
  let ?n = "?p\<lparr>contentLength := CONTENT_LENGTH_NOT_SET\<rparr>"
  have g: "currentClient ?n = Some ?c" "responseHeaders ?n = responseHeaders w" "currentUri ?n = u"
    using f by (simp_all add: set_input_def)
  have h: "current_handler H ?n = None" using f by (simp add: current_handler_def)
  have r: "send 404 (Some ''text/plain'') (''Not found: '' @ currentUri ?n) ?n
      = ?n\<lparr>responseHeaders := [], currentClient := Some (?c\<lparr>tx := tx ?c @ r, room := room ?c - length r\<rparr>)\<rparr>"
    by (rule send_all [OF g(1)]) (use assms(9,10) g in simp_all)
  have a: "conn_available (currentClient w) \<noteq> 0" "connected w"
    using assms(1,2,6) by (simp_all add: conn_available_def connected_def conn_connected_def request_head_def)
  have hr: "handleRequest H ?n
      = Some (?n\<lparr>responseHeaders := [], currentClient := Some (?c\<lparr>tx := tx ?c @ r, room := room ?c - length r\<rparr>),
                 currentUri := []\<rparr>)"
    unfolding handleRequest_def h using assms(8) r by simp
  show ?thesis
    using a assms(2,3) f
    by (simp add: handleClient_def accept_client_def serve_client_def p hr connected_def conn_connected_def)
qed

lemma unknown_uri_404_witness:
  "\<exists>w'. handleClient no_handlers (\<lambda>_. [])  0 1 2 ((web_init no_upload ())\<lparr>currentClient := Some \<lparr>rx = request_head ''GET'' ''/x'' [] [],
       peer_open = True, tx = [], room = 999\<rparr>, currentStatus := HC_WAIT_READ, responseHeaders := []\<rparr>) = Some w'
     \<and> currentStatus w' = HC_WAIT_CLOSE \<and> statusChange w' = 2"
  using unknown_uri_404 [where c = "\<lparr>rx = request_head ''GET'' ''/x'' [] [], peer_open = True, tx = [], room = 999\<rparr>"
      and w = "(web_init no_upload ())\<lparr>currentClient := Some \<lparr>rx = request_head ''GET'' ''/x'' [] [], peer_open = True, tx = [], room = 999\<rparr>,
        currentStatus := HC_WAIT_READ, responseHeaders := []\<rparr>"
      and mt = "''GET''" and u = "''/x''" and q = "[]" and hs = "[]" and s = "[]" and H = no_handlers
      and stale = "\<lambda>_. []" and ?t0.0 = 0 and ?t1.0 = 1 and ?t2.0 = 2, OF _ _ _ _ _ _ _ _ refl]
  by (simp add: plain_request_def method_of_def methods_def has_body_def CR_def no_handlers_def
      response_of_def length_header_def CONTENT_LENGTH_NOT_SET_def CONTENT_LENGTH_UNKNOWN_def decimal_int_def
      decimal.simps responseCodeToString_def responseCodes_def CRLF_def) blast

end
