(* ===== verification/Http_Update.thy ===== *)
theory Http_Update
  imports Http_Server
begin

text \<open>
  The firmware update page (\<open>src/ESP8266HTTPUpdateServer/src/ESP8266HTTPUpdateServer.cpp\<close> and
  \<open>.h\<close>): the form page, the upload function that feeds the \<open>Update\<close> object, and the function
  that answers the form and restarts the chip. The core's \<open>Update\<close> and \<open>ESP\<close> objects and
  \<open>WiFiUDP::stopAll\<close> are a record of operations on the application's state; the page's own flag
  \<open>authenticated\<close> lies beside that state. Debug output is left out.
\<close>

section \<open>Operations\<close>

record 'u update_platform =
  hasError :: "'u \<Rightarrow> bool"
  update_begin :: "u32 \<Rightarrow> 'u \<Rightarrow> bool \<times> 'u"
  update_write :: "string \<Rightarrow> 'u \<Rightarrow> nat \<times> 'u"
  update_end :: "bool \<Rightarrow> 'u \<Rightarrow> bool \<times> 'u"
  getFreeSketchSpace :: "'u \<Rightarrow> u32"
  restart :: "'u \<Rightarrow> 'u"
  stopAllUdp :: "'u \<Rightarrow> 'u"
  encode :: "string \<Rightarrow> string"

record 'u update_app =
  authenticated :: bool
  app :: 'u

record update_config =
  username :: "string option"
  password :: "string option"

definition serverIndex :: string where
  "serverIndex = ''<html><body><form method='POST' action='' @ [CHR 0x27, CHR 0x27] @ '' enctype='multipart/form-data'>'' @ [LF]
     @ replicate 18 (CHR '' '') @ ''<input type='file' name='update'>'' @ [LF]
     @ replicate 18 (CHR '' '') @ ''<input type='submit' value='Update'>'' @ [LF]
     @ replicate 15 (CHR '' '') @ ''</form>'' @ [LF]
     @ replicate 9 (CHR '' '') @ ''</body></html>''"

definition failedResponse :: string where "failedResponse = ''Update Failed!''"

definition successResponse :: string where
  "successResponse = ''<META http-equiv=\"refresh\" content=\"15;URL=\">Update Success! Rebooting...''"

text \<open>The check of both functions: no credentials are set, or the request carries them.\<close>

definition credentials_given ::
    "'u update_platform \<Rightarrow> update_config \<Rightarrow> 'u update_app web \<Rightarrow> bool option" where
  "credentials_given P cfg w =
     (case (username cfg, password cfg) of
        (Some u, Some p) \<Rightarrow> authenticate (encode P) u p w
      | _ \<Rightarrow> Some True)"

definition update_page :: "'u update_platform \<Rightarrow> update_config \<Rightarrow> 'u update_app action" where
  "update_page P cfg w = Option.bind (credentials_given P cfg w) (\<lambda>ok.
     if \<not> ok then Some (requestAuthentication w)
     else Some (send 200 (Some ''text/html'') serverIndex w))"

definition on_app :: "('u \<Rightarrow> 'u) \<Rightarrow> 'u update_app web \<Rightarrow> 'u update_app web" where
  "on_app f w = w\<lparr>user := (user w)\<lparr>app := f (app (user w))\<rparr>\<rparr>"

definition update_finish :: "'u update_platform \<Rightarrow> 'u update_app action" where
  "update_finish P w =
     (if \<not> authenticated (user w) then Some (requestAuthentication w)
      else
        (let w = send 200 (Some ''text/html'')
                   (if hasError P (app (user w)) then failedResponse else successResponse) w
         in Some (on_app (restart P) w)))"

definition maxSketchSpace :: "u32 \<Rightarrow> u32" where
  "maxSketchSpace free = and (free - 0x1000) 0xFFFFF000"

definition update_upload :: "'u update_platform \<Rightarrow> update_config \<Rightarrow> 'u update_app action" where
  "update_upload P cfg w =
     (let up = currentUpload w in
      if status up = UPLOAD_FILE_START then
        Option.bind (credentials_given P cfg w) (\<lambda>ok.
          let w = w\<lparr>user := (user w)\<lparr>authenticated := ok\<rparr>\<rparr> in
          if \<not> ok then Some w
          else (let w = on_app (stopAllUdp P) w
                in Some (on_app (\<lambda>u. snd (update_begin P (maxSketchSpace (getFreeSketchSpace P u)) u)) w)))
      else if authenticated (user w) \<and> status up = UPLOAD_FILE_WRITE then
        Some (on_app (\<lambda>u. snd (update_write P (take (currentSize up) (buf up)) u)) w)
      else if authenticated (user w) \<and> status up = UPLOAD_FILE_END then
        Some (on_app (\<lambda>u. snd (update_end P True u)) w)
      else if authenticated (user w) \<and> status up = UPLOAD_FILE_ABORTED then
        Some (on_app (\<lambda>u. snd (update_end P False u)) w)
      else Some w)"

definition update_init :: "'u \<Rightarrow> 'u update_app" where
  "update_init u = \<lparr>authenticated = False, app = u\<rparr>"

definition update_setup ::
    "'u update_platform \<Rightarrow> string \<Rightarrow> update_config \<Rightarrow> 'u update_app handlers \<Rightarrow> 'u update_app handlers" where
  "update_setup P path cfg H =
     on_upload path HTTP_POST (update_finish P) (Some (update_upload P cfg))
       (on_method path HTTP_GET (update_page P cfg) H)"

text \<open>The overloads of the header: \<open>setup(server)\<close>, which calls the third one with null pointers,
  \<open>setup(server, path)\<close> and \<open>setup(server, username, password)\<close>.\<close>

definition update_setup_default :: "'u update_platform \<Rightarrow> 'u update_app handlers \<Rightarrow> 'u update_app handlers" where
  "update_setup_default P = update_setup P ''/update'' \<lparr>username = None, password = None\<rparr>"

definition update_setup_path ::
    "'u update_platform \<Rightarrow> string \<Rightarrow> 'u update_app handlers \<Rightarrow> 'u update_app handlers" where
  "update_setup_path P path = update_setup P path \<lparr>username = None, password = None\<rparr>"

definition update_setup_secure ::
    "'u update_platform \<Rightarrow> string \<Rightarrow> string \<Rightarrow> 'u update_app handlers \<Rightarrow> 'u update_app handlers" where
  "update_setup_secure P u p = update_setup P ''/update'' \<lparr>username = Some u, password = Some p\<rparr>"

section \<open>Sequences of upload calls\<close>

text \<open>The calls an upload makes: the upload record of each, on the state the last call left.\<close>

fun upload_calls :: "'u update_platform \<Rightarrow> update_config \<Rightarrow> HTTPUpload list \<Rightarrow> 'u update_app action" where
  "upload_calls P cfg [] w = Some w"
| "upload_calls P cfg (e # es) w =
     Option.bind (update_upload P cfg (w\<lparr>currentUpload := e\<rparr>)) (upload_calls P cfg es)"

text \<open>What the \<open>Update\<close> object should see of one file.\<close>

definition feed :: "'u update_platform \<Rightarrow> HTTPUpload \<Rightarrow> 'u \<Rightarrow> 'u" where
  "feed P e u = (case status e of
     UPLOAD_FILE_START \<Rightarrow>
       (let u = stopAllUdp P u in snd (update_begin P (maxSketchSpace (getFreeSketchSpace P u)) u))
   | UPLOAD_FILE_WRITE \<Rightarrow> snd (update_write P (take (currentSize e) (buf e)) u)
   | UPLOAD_FILE_END \<Rightarrow> snd (update_end P True u)
   | UPLOAD_FILE_ABORTED \<Rightarrow> snd (update_end P False u))"

definition no_start :: "HTTPUpload list \<Rightarrow> bool" where
  "no_start es \<longleftrightarrow> (\<forall>e \<in> set es. status e \<noteq> UPLOAD_FILE_START)"

lemma upload_calls_rest:
  "no_start es \<Longrightarrow> \<exists>w'. upload_calls P cfg es w = Some w'
     \<and> user w' = (user w)\<lparr>app := (if authenticated (user w) then fold (feed P) es (app (user w)) else app (user w))\<rparr>"
proof (induction es arbitrary: w)
  case (Cons e es)
  let ?w = "w\<lparr>currentUpload := e\<rparr>"
  have n: "no_start es" "status e \<noteq> UPLOAD_FILE_START" using Cons.prems by (simp_all add: no_start_def)
  obtain v where v: "update_upload P cfg ?w = Some v"
    "user v = (user w)\<lparr>app := (if authenticated (user w) then feed P e (app (user w)) else app (user w))\<rparr>"
    using n(2) by (cases "status e"; cases "authenticated (user w)") (simp_all add: update_upload_def on_app_def Let_def feed_def)
  from Cons.IH [OF n(1), of v] v show ?case by (cases "authenticated (user w)") auto
qed simp

lemma upload_calls_file:
  assumes "status e = UPLOAD_FILE_START" and "no_start es"
    and "credentials_given P cfg (w\<lparr>currentUpload := e\<rparr>) = Some ok"
  shows "\<exists>w'. upload_calls P cfg (e # es) w = Some w' \<and> authenticated (user w') = ok
     \<and> app (user w') = (if ok then fold (feed P) (e # es) (app (user w)) else app (user w))"
proof -
  obtain v where v: "update_upload P cfg (w\<lparr>currentUpload := e\<rparr>) = Some v"
    "authenticated (user v) = ok" "app (user v) = (if ok then feed P e (app (user w)) else app (user w))"
    using assms(1,3) by (cases ok) (auto simp: update_upload_def on_app_def Let_def feed_def)
  from upload_calls_rest [OF assms(2), of P cfg v] v show ?thesis by (auto)
qed

section \<open>Properties\<close>

text \<open>C21: an upload reaches the flash only with the credentials: the calls of one file give the
  \<open>Update\<close> object, in order, exactly its start, its pieces and its end when the request carries the
  credentials, and leave it alone otherwise; the function that answers the form then asks for
  authentication and does not restart the chip.\<close>

theorem update_gated:
  assumes "status e = UPLOAD_FILE_START" and "no_start es"
    and "credentials_given P cfg (w\<lparr>currentUpload := e\<rparr>) = Some ok"
  shows "\<exists>w'. upload_calls P cfg (e # es) w = Some w'
     \<and> app (user w') = (if ok then fold (feed P) (e # es) (app (user w)) else app (user w))
     \<and> (\<not> ok \<longrightarrow> update_finish P w' = Some (requestAuthentication w'))"
  using upload_calls_file [OF assms] by (auto simp: update_finish_def)

definition counting_platform :: "string list update_platform" where
  "counting_platform = \<lparr>hasError = (\<lambda>u. False), update_begin = (\<lambda>n u. (True, ''begin'' # u)),
     update_write = (\<lambda>b u. (length b, b # u)), update_end = (\<lambda>b u. (True, ''end'' # u)),
     getFreeSketchSpace = (\<lambda>u. 0x10000), restart = (\<lambda>u. ''restart'' # u), stopAllUdp = (\<lambda>u. u),
     encode = (\<lambda>s. s)\<rparr>"

definition upload_event :: "HTTPUploadStatus \<Rightarrow> string \<Rightarrow> HTTPUpload" where
  "upload_event st data = \<lparr>status = st, filename = ''f'', upload_name = ''f'', upload_type = [],
     totalSize = length data, currentSize = length data, buf = data\<rparr>"

lemma update_gated_witness:
  "\<exists>w'. upload_calls counting_platform \<lparr>username = None, password = None\<rparr>
     [upload_event UPLOAD_FILE_START [], upload_event UPLOAD_FILE_WRITE ''xy'', upload_event UPLOAD_FILE_END []]
     (web_init no_upload (update_init [])) = Some w' \<and> app (user w') = [''end'', ''xy'', ''begin'']"
  using update_gated [of "upload_event UPLOAD_FILE_START []"
      "[upload_event UPLOAD_FILE_WRITE ''xy'', upload_event UPLOAD_FILE_END []]" counting_platform
      "\<lparr>username = None, password = None\<rparr>" "web_init no_upload (update_init [])" True]
  by (simp add: upload_event_def no_start_def credentials_given_def counting_platform_def web_init_def
      update_init_def Let_def feed_def)

text \<open>The authentication outlives its request: after an authenticated upload the flag stays set, so
  that any later form request without a file, whatever its headers, gets the success page and
  restarts the chip.\<close>

theorem update_restart_unauthenticated:
  assumes "status e = UPLOAD_FILE_START" and "no_start es"
    and "credentials_given P cfg (w\<lparr>currentUpload := e\<rparr>) = Some True"
    and "upload_calls P cfg (e # es) w = Some w'"
    and "user later = user w'" and "\<not> hasError P (app (user later))"
  shows "update_finish P later = Some (on_app (restart P) (send 200 (Some ''text/html'') successResponse later))"
  using upload_calls_file [OF assms(1-3)] assms(4-6) by (auto simp: update_finish_def)

lemma update_restart_unauthenticated_witness:
  "\<exists>w'. upload_calls counting_platform \<lparr>username = None, password = None\<rparr>
     [upload_event UPLOAD_FILE_START []] (web_init no_upload (update_init [])) = Some w'
   \<and> update_finish counting_platform ((web_init no_upload (user w'))\<lparr>currentHeaders := []\<rparr>)
     = Some (on_app (restart counting_platform) (send 200 (Some ''text/html'') successResponse
         ((web_init no_upload (user w'))\<lparr>currentHeaders := []\<rparr>)))"
proof -
  have c: "credentials_given counting_platform \<lparr>username = None, password = None\<rparr>
      ((web_init no_upload (update_init []))\<lparr>currentUpload := upload_event UPLOAD_FILE_START []\<rparr>) = Some True"
    by (simp add: credentials_given_def)
  have s: "status (upload_event UPLOAD_FILE_START []) = UPLOAD_FILE_START" "no_start []"
    by (simp_all add: upload_event_def no_start_def)
  obtain w' where w': "upload_calls counting_platform \<lparr>username = None, password = None\<rparr>
     [upload_event UPLOAD_FILE_START []] (web_init no_upload (update_init [])) = Some w'"
    using upload_calls_file [OF s c] by blast
  show ?thesis
    by (intro exI conjI, rule w')
      (rule update_restart_unauthenticated [OF s c w'], simp_all add: web_init_def counting_platform_def)
qed

end
