(* ===== verification/Logger_Web.thy ===== *)
theory Logger_Web
  imports Logger_Setup Logger_Html Http_Update
begin

text \<open>
  The sketch's web pages (\<open>src/websites.ino\<close>), their registration (\<open>setupHttpServer\<close>) and the
  turn of the web server in \<open>loop\<close>. The server's application state is the running sketch with its
  open upload file, inside the flag of the firmware page. Directory and file operations, the number
  parsing of \<open>String::toFloat\<close> and the restart are parameters. A write behind a C array is \<open>None\<close>.
\<close>

section \<open>State\<close>

record ('f, 'w) page =
  sk :: "('f, 'w) sketch"
  fsUploadFile :: "string option"

type_synonym ('f, 'w) page_web = "('f, 'w) page update_app web"
type_synonym ('f, 'w) page_action = "('f, 'w) page update_app action"

record ('f, 'w) webdev =
  dev :: "('f, 'w) device"
  toFloat :: "string \<Rightarrow> u32"
  getFreeHeap :: "'w \<Rightarrow> nat"
  subnetMask :: "'w \<Rightarrow> string"
  gatewayIP :: "'w \<Rightarrow> string"
  openDir :: "'w \<Rightarrow> (string \<times> nat) list"
  fs_remove :: "string \<Rightarrow> 'w \<Rightarrow> 'w"
  fs_info :: "'w \<Rightarrow> nat \<times> nat"
  open_w :: "string \<Rightarrow> 'w \<Rightarrow> bool \<times> 'w"
  file_append :: "string \<Rightarrow> string \<Rightarrow> 'w \<Rightarrow> 'w"
  file_close :: "string \<Rightarrow> 'w \<Rightarrow> 'w"
  files :: "'w FS"
  upd :: "'w update_platform"

definition sketch_of :: "('f, 'w) page_web \<Rightarrow> ('f, 'w) sketch" where
  "sketch_of w = sk (app (user w))"

definition set_sketch :: "('f, 'w) sketch \<Rightarrow> ('f, 'w) page_web \<Rightarrow> ('f, 'w) page_web" where
  "set_sketch s = on_app (\<lambda>p. p\<lparr>sk := s\<rparr>)"

definition on_sk :: "(('f, 'w) sketch \<Rightarrow> ('f, 'w) sketch option) \<Rightarrow> ('f, 'w) page_action" where
  "on_sk f w = map_option (\<lambda>s. set_sketch s w) (f (sketch_of w))"

definition ask_sk ::
    "(('f, 'w) sketch \<Rightarrow> ('a \<times> ('f, 'w) sketch) option) \<Rightarrow> ('f, 'w) page_web \<Rightarrow> ('a \<times> ('f, 'w) page_web) option" where
  "ask_sk f w = map_option (\<lambda>(x, s). (x, set_sketch s w)) (f (sketch_of w))"

section \<open>Output\<close>

definition contentOutput :: "string \<Rightarrow> 'u web \<Rightarrow> 'u web" where
  "contentOutput content w =
     (let w = sendHeader ''Cache-Control'' ''no-cache, no-store, must-revalidate'' False w;
          w = sendHeader ''Pragma'' ''no-cache'' False w;
          w = setContentLength CONTENT_LENGTH_UNKNOWN w
      in send 200 (Some ''text/html'') content w)"

definition root_names :: "string list" where
  "root_names = [''Tagesertrag'', ''Jahresertrag'', ''Spezifisch'', ''Einspeiseleistung'', ''Maximal'', ''Voltage'', ''RSSI'']"

definition handleRoot :: "('f, 'w) webdev \<Rightarrow> ('f, 'w) page_action" where
  "handleRoot V w = do {
     let l = lg (sketch_of w);
     (date, w) \<leftarrow> ask_sk (ask_cache (printDate (timelib_of (dev V))) (unixtime l)) w;
     (time, w) \<leftarrow> ask_sk (ask_cache printTime (unixtime l)) w;
     a10 \<leftarrow> arr_get (ausgabe l) 10;
     a9 \<leftarrow> arr_get (ausgabe l) 9;
     let rows = concat (map root_row (filter (\<lambda>a. take 20 (realName a) \<in> set root_names) (take lenStore (ausgabe l))));
     Some (contentOutput (root_page \<lparr>dateShown = date, timeShown = time, summerShown = (if sommerzeit l then ''ja'' else ''nein''),
       valueRows = rows, meterShown = printValue a10, runtimeShown = printValue a9,
       heapShown = decimal (getFreeHeap V (world (sketch_of w)))\<rparr>) w) }"

section \<open>Settings\<close>

definition f32_of_i32 :: "u32 \<Rightarrow> u32" where
  "f32_of_i32 n = f32_encode (f32_round (of_int (sint n)))"

definition log_sk :: "('f, 'w) webdev \<Rightarrow> string \<Rightarrow> ('f, 'w) page_action" where
  "log_sk V x = on_sk (write2logfile (dev V) x)"

definition store_sk :: "('f, 'w) webdev \<Rightarrow> nat \<Rightarrow> u32 \<Rightarrow> ('f, 'w) page_action" where
  "store_sk V a v = on_sk (on_lg (putEepromValue (board (dev V)) a v))"

text \<open>The text of \<open>String(x)\<close> for the three types of the settings.\<close>

definition setting_int :: "u32 \<Rightarrow> string" where "setting_int n = decimal (unat n)"

text \<open>The branches of the loop over the arguments, one per setting; \<open>v\<close> is the argument's value.\<close>

definition set_generator :: "('f, 'w) webdev \<Rightarrow> string \<Rightarrow> ('f, 'w) page_action" where
  "set_generator V v w = (let n = of_int (toInt v) in
     if n \<noteq> generatorLeistung (lg (sketch_of w)) then do {
       w \<leftarrow> on_sk (\<lambda>s. Some (s\<lparr>lg := (lg s)\<lparr>generatorLeistung := n\<rparr>\<rparr>)) w;
       w \<leftarrow> log_sk V (''Neue Generatorleistung setzen: '' @ setting_int n) w;
       store_sk V adresseEepromGL (f32_of_u32 n) w }
     else Some w)"

definition set_couterconst :: "('f, 'w) webdev \<Rightarrow> string \<Rightarrow> ('f, 'w) page_action" where
  "set_couterconst V v w = (let n = of_int (toInt v) in
     if n \<noteq> impulseProKwh (lg (sketch_of w)) then do {
       w \<leftarrow> on_sk (\<lambda>s. Some (s\<lparr>lg := (lg s)\<lparr>impulseProKwh := n\<rparr>\<rparr>)) w;
       w \<leftarrow> log_sk V (''Neue Zaehlerkonstante setzen: '' @ setting_int n) w;
       store_sk V adresseEepromZK (f32_of_u32 n) w }
     else Some w)"

definition set_offset :: "('f, 'w) webdev \<Rightarrow> string \<Rightarrow> ('f, 'w) page_action" where
  "set_offset V v w = (let x = toFloat V v; B = board (dev V) in
     if \<not> f32_eq x (offset (lg (sketch_of w))) then do {
       w \<leftarrow> on_sk (\<lambda>s. Some (s\<lparr>lg := (lg s)\<lparr>offset := x\<rparr>\<rparr>)) w;
       w \<leftarrow> log_sk V (''Zaehleroffset setzen: '' @ String_float B x) w;
       w \<leftarrow> store_sk V adresseEepromOF x w;
       f \<leftarrow> get_value (lg (sketch_of w)) 10;
       let y = f32_add f (f32_mul x (f32_of_u32 1000));
       w \<leftarrow> on_sk (on_lg (set_value 10 y)) w;
       on_sk (on_lg (show_value B 10 (f32_decode y) 2)) w }
     else Some w)"

definition set_compensation :: "('f, 'w) webdev \<Rightarrow> string \<Rightarrow> ('f, 'w) page_action" where
  "set_compensation V v w = (let x = toFloat V v in
     if \<not> f32_eq x (compensation (lg (sketch_of w))) then do {
       w \<leftarrow> on_sk (\<lambda>s. Some (s\<lparr>lg := (lg s)\<lparr>compensation := x\<rparr>\<rparr>)) w;
       w \<leftarrow> log_sk V (''Neue Verguetung setzen: '' @ String_float (board (dev V)) x) w;
       store_sk V adresseEepromCO x w }
     else Some w)"

text \<open>\<open>strtok\<close> skips empty tokens; \<open>toCharArray\<close> keeps 19 characters.\<close>

definition ip_tokens :: "string \<Rightarrow> string list" where
  "ip_tokens v = filter (\<lambda>x. x \<noteq> []) (split_on (CHR ''.'') (takeWhile (\<lambda>c. c \<noteq> CHR 0x00) (take 19 v)))"

fun store_ip :: "nat \<Rightarrow> string list \<Rightarrow> 'f logger \<Rightarrow> 'f logger option" where
  "store_ip i [] l = Some l"
| "store_ip i (x # xs) l = do {
     let b = (of_int (toInt x) :: u8);
     hs \<leftarrow> arr_set (fhemHost l) i b;
     let e = eeprom_write (int (adresseEepromFhemHost + i * 2)) b (ee l);
     store_ip (i + 1) xs (l\<lparr>fhemHost := hs, ee := e\<rparr>) }"

definition set_ip :: "('f, 'w) webdev \<Rightarrow> string \<Rightarrow> ('f, 'w) page_action" where
  "set_ip V v w = do {
     ip \<leftarrow> fhemIp (lg (sketch_of w));
     if v \<noteq> ip then do {
       w \<leftarrow> on_sk (on_lg (store_ip 0 (ip_tokens v))) w;
       w \<leftarrow> on_sk (on_lg (\<lambda>l. case eeprom_commit (spi (board (dev V))) (ee l) (flash l) of
               (_, e, f) \<Rightarrow> Some (l\<lparr>ee := e, flash := f\<rparr>))) w;
       ip \<leftarrow> fhemIp (lg (sketch_of w));
       log_sk V (''Neue Controller IP setzen: '' @ ip) w }
     else Some w }"

definition set_port :: "('f, 'w) webdev \<Rightarrow> string \<Rightarrow> ('f, 'w) page_action" where
  "set_port V v w = (let n = of_int (toInt v) in
     if n \<noteq> fhemPort (lg (sketch_of w)) then do {
       w \<leftarrow> on_sk (\<lambda>s. Some (s\<lparr>lg := (lg s)\<lparr>fhemPort := n\<rparr>\<rparr>)) w;
       w \<leftarrow> log_sk V (''Controller Port schreiben: '' @ decimal_int (toInt v)) w;
       store_sk V adresseEepromFhemPort (f32_of_i32 n) w }
     else Some w)"

definition clear_all :: "('f, 'w) webdev \<Rightarrow> ('f, 'w) page_action" where
  "clear_all V w = do {
     w \<leftarrow> log_sk V ''Tageswerte im Flash geloescht'' w;
     w \<leftarrow> on_sk (on_lg (deleteEEPROM (board (dev V)))) w;
     on_sk (on_lg (deleteRAM (board (dev V)))) w }"

definition restart_now :: "('f, 'w) webdev \<Rightarrow> ('f, 'w) page_action" where
  "restart_now V w = do {
     w \<leftarrow> log_sk V ''Restart durch Benutzer'' w;
     on_sk (\<lambda>s. Some (on_world (restart (upd V)) s)) w }"

text \<open>\<open>server.arg(server.argName(i))\<close> is the value of the first argument with that name.\<close>

definition setup_arg :: "('f, 'w) webdev \<Rightarrow> string \<times> string \<Rightarrow> ('f, 'w) page_action" where
  "setup_arg V a w = (let name = fst a; v = arg name (currentArgs w) in
     if snd a = [] then Some w
     else if name = ''generator'' then set_generator V v w
     else if name = ''couterconst'' then set_couterconst V v w
     else if name = ''offset'' then set_offset V v w
     else if name = ''compensation'' then set_compensation V v w
     else if name = ''backup'' then
       Option.bind (log_sk V ''Tageswerte gesichert'' w) (on_sk (backup2file (dev V)))
     else if name = ''clrrom'' then clear_all V w
     else if name = ''ip'' then set_ip V v w
     else if name = ''port'' then set_port V v w
     else if name = ''restart'' then restart_now V w
     else Some w)"

fun setup_args :: "('f, 'w) webdev \<Rightarrow> args \<Rightarrow> ('f, 'w) page_action" where
  "setup_args V [] w = Some w"
| "setup_args V (a # as) w = Option.bind (setup_arg V a w) (setup_args V as)"

definition handleSetup :: "('f, 'w) webdev \<Rightarrow> ('f, 'w) page_action" where
  "handleSetup V w = do {
     w \<leftarrow> setup_args V (currentArgs w) w;
     let s = sketch_of w; let l = lg s; let B = board (dev V);
     ip \<leftarrow> fhemIp l;
     Some (contentOutput (setup_page \<lparr>generatorShown = setting_int (generatorLeistung l), counterShown = setting_int (impulseProKwh l),
       compensationShown = String_float B (compensation l), offsetShown = String_float B (offset l),
       fhemIpShown = ip, fhemPortShown = decimal_int (sint (fhemPort l)),
       localShown = localIP (dev V) (world s), subnetShown = subnetMask V (world s),
       gatewayShown = gatewayIP V (world s)\<rparr>) w) }"

section \<open>Files\<close>

text \<open>\<open>String::replace\<close>: every occurrence, from the left. The search strings are not empty.\<close>

function replace_all :: "string \<Rightarrow> string \<Rightarrow> string \<Rightarrow> string" where
  "replace_all f r s =
     (if s = [] \<or> f = [] then s
      else if take (length f) s = f then r @ replace_all f r (drop (length f) s)
      else hd s # replace_all f r (tl s))"
  by pat_completeness auto
termination
proof (relation "measure (\<lambda>(f, r, s). length s)")
  fix f r s :: string
  assume "\<not> (s = [] \<or> f = [])"
  then show "((f, r, drop (length f) s), f, r, s) \<in> measure (\<lambda>(f, r, s). length s)"
    and "((f, r, tl s), f, r, s) \<in> measure (\<lambda>(f, r, s). length s)"
    by (cases s; cases f; simp)+
qed simp

declare replace_all.simps [simp del]

text \<open>The letters that the file list writes as percent escapes, in UTF-8.\<close>

definition escapes :: "(string \<times> string) list" where
  "escapes = [('' '', ''%20''), ([CHR 0xC3, CHR 0xA4], ''%C3%A4''), ([CHR 0xC3, CHR 0x84], ''%C3%84''),
     ([CHR 0xC3, CHR 0xB6], ''%C3%B6''), ([CHR 0xC3, CHR 0x96], ''%C3%96''), ([CHR 0xC3, CHR 0xBC], ''%C3%BC''),
     ([CHR 0xC3, CHR 0x9C], ''%C3%9C''), ([CHR 0xC3, CHR 0x9F], ''%C3%9F''),
     ([CHR 0xE2, CHR 0x82, CHR 0xAC], ''%E2%82%AC'')]"

definition escape_path :: "string \<Rightarrow> string" where
  "escape_path path = fold (\<lambda>(f, r). replace_all f r) escapes path"

definition see_other :: "string \<Rightarrow> string" where
  "see_other uri = ''HTTP/1.1 303 OK'' @ EOL @ ''Location:'' @ uri @ EOL @ ''Cache-Control: no-cache'' @ EOL @ EOL"

definition delete_file :: "('f, 'w) webdev \<Rightarrow> string \<Rightarrow> ('f, 'w) page_action" where
  "delete_file V name w = do {
     w \<leftarrow> on_sk (\<lambda>s. Some (on_world (fs_remove V name) s)) w;
     w \<leftarrow> log_sk V (''Datei '' @ name @ '' geloescht'') w;
     Some (sendContent (see_other (currentUri w)) w) }"

text \<open>The listing of the directory, each file by its name and the text of its size.\<close>

fun file_rows :: "('f, 'w) webdev \<Rightarrow> (string \<times> nat) list \<Rightarrow> string option" where
  "file_rows V [] = Some []"
| "file_rows V ((name, n) # fs) = do {
     sz \<leftarrow> formatBytes (dev V) n;
     rest \<leftarrow> file_rows V fs;
     Some (file_row name sz @ rest) }"

definition list_files :: "('f, 'w) webdev \<Rightarrow> nat \<times> nat \<Rightarrow> ('f, 'w) page_action" where
  "list_files V info w = do {
     rows \<leftarrow> file_rows V (openDir V (world (sketch_of w)));
     totalBytes \<leftarrow> formatBytes (dev V) (fst info);
     usedBytes \<leftarrow> formatBytes (dev V) (snd info);
     Some (contentOutput (spiffs_page rows totalBytes usedBytes) w) }"

definition handleSpiffs :: "('f, 'w) webdev \<Rightarrow> ('f, 'w) page_action" where
  "handleSpiffs V w = (let info = fs_info V (world (sketch_of w)) in
     if hasArg ''Delete'' (currentArgs w) then
       (case find (\<lambda>(name, n). arg ''file'' (currentArgs w) = escape_path name) (openDir V (world (sketch_of w))) of
          Some (name, n) \<Rightarrow> delete_file V name w
        | None \<Rightarrow> list_files V info w)
     else list_files V info w)"

text \<open>The upload: the file's name is cut to its last 30 characters. \<open>fsUploadFile\<close> holds the name
  of the open file; a new \<open>File\<close> assigned to it closes the one it held.\<close>

definition upload_path :: "string \<Rightarrow> string" where
  "upload_path name =
     (let name = (if length name > 30 then (let x = int (length name) - 30 in substring x (30 + x) name) else name)
      in if startsWith name ''/'' then name else ''/'' @ name)"

definition close_upload :: "('f, 'w) webdev \<Rightarrow> ('f, 'w) page_web \<Rightarrow> ('f, 'w) page_web" where
  "close_upload V w = (case fsUploadFile (app (user w)) of
     None \<Rightarrow> w
   | Some n \<Rightarrow> on_app (\<lambda>p. p\<lparr>sk := on_world (file_close V n) (sk p), fsUploadFile := None\<rparr>) w)"

definition open_upload :: "('f, 'w) webdev \<Rightarrow> string \<Rightarrow> ('f, 'w) page_web \<Rightarrow> ('f, 'w) page_web" where
  "open_upload V name w =
     (case open_w V name (world (sketch_of w)) of (ok, x) \<Rightarrow>
        let w = close_upload V (on_app (\<lambda>p. p\<lparr>sk := (sk p)\<lparr>world := x\<rparr>\<rparr>) w)
        in on_app (\<lambda>p. p\<lparr>fsUploadFile := (if ok then Some name else None)\<rparr>) w)"

definition handleFileUpload :: "('f, 'w) webdev \<Rightarrow> ('f, 'w) page_action" where
  "handleFileUpload V w = (let up = currentUpload w in
     if currentUri w \<noteq> ''/upload'' then Some w
     else if status up = UPLOAD_FILE_START then Some (open_upload V (upload_path (filename up)) w)
     else if status up = UPLOAD_FILE_WRITE then
       Some (case fsUploadFile (app (user w)) of
               None \<Rightarrow> w
             | Some n \<Rightarrow> on_app (\<lambda>p. p\<lparr>sk := on_world (file_append V n (take (currentSize up) (buf up))) (sk p)\<rparr>) w)
     else if status up = UPLOAD_FILE_END then do {
       w \<leftarrow> log_sk V (''Neue Datei gespeichert: '' @ filename up) w;
       handleSpiffs V (close_upload V w) }
     else Some w)"

section \<open>Yields\<close>

text \<open>The condition \<open>server.argName(i) = "m"\<close> assigns to a temporary and holds for every argument, so
  that the last one counts; without arguments the month is a byte of the stack.\<close>

definition requested_month :: "('f, 'w) webdev \<Rightarrow> ('f, 'w) page_web \<Rightarrow> nat" where
  "requested_month V w =
     (if currentArgs w = [] then unat (ucast (stack_word (dev V) (world (sketch_of w))) :: u8)
      else byte_of (toInt (snd (last (currentArgs w)))))"

definition json_list :: "u32 list \<Rightarrow> string" where
  "json_list xs = ''['' @ concat (map (\<lambda>i. decimal (unat (xs ! i)) @ (if i < anzahlTage then '','' else []))
     [0..<length xs]) @ '']''"

definition handleJsonArgs :: "('f, 'w) webdev \<Rightarrow> ('f, 'w) page_action" where
  "handleJsonArgs V w = do {
     w \<leftarrow> log_sk V ''Web Ausgabe JSON fuer sonnenertrag.eu'' w;
     let m = requested_month V w;
     list \<leftarrow> (if 1 \<le> m \<and> m \<le> 12 then
                do { xs \<leftarrow> those (map (\<lambda>i. tc_get (lg (sketch_of w)) (m - 1) i) [0..<anzahlTage + 1]);
                     Some (json_list xs) }
              else Some []);
     Some (contentOutput (contentOutputHeader @ list) w) }"

text \<open>\<open>sprintf\<close> into the five bytes of \<open>zeit\<close> writes the text and its final zero.\<close>

definition sprintf_zeit :: "string \<Rightarrow> string option" where
  "sprintf_zeit x = (if length x < 5 then Some x else None)"

fun graph_rows :: "nat \<Rightarrow> u32 list \<Rightarrow> string option" where
  "graph_rows i [] = Some []"
| "graph_rows i (x # xs) = do {
     row \<leftarrow> (if x > 0 then do {
               zeit \<leftarrow> sprintf_zeit (two_digits (i div 12) @ '':'' @ two_digits ((i mod 12) * 5));
               Some (html ''[`'' @ zeit @ html ''`, '' @ decimal (unat x) @ '']'' @ (if i < 287 then '','' else [])) }
             else Some []);
     rest \<leftarrow> graph_rows (i + 1) xs;
     Some (row @ rest) }"

definition graph :: "'f logger \<Rightarrow> string option" where
  "graph l = map_option (\<lambda>rows. graph_head @ rows @ graph_tail) (graph_rows 0 (fuenfMinutenZaehler l))"

definition monat_names :: "string list" where
  "monat_names = [''Januar'', ''Februar'', ''M&auml;rz'', ''April'', ''Mai'', ''Juni'', ''Juli'', ''August'',
     ''September'', ''Oktober'', ''November'', ''Dezember'']"

text \<open>Each \<open>year()\<close> of the condition for February reads the clock, where the condition needs it.\<close>

definition february_last :: "('f, 'w) device \<Rightarrow> ('f, 'w) sketch \<Rightarrow> (nat \<times> ('f, 'w) sketch) option" where
  "february_last D s = do {
     (y, s) \<leftarrow> ask_clock (year_now (millis D) (timelib_of D)) s;
     (four, s) \<leftarrow> (if y mod 4 = 0 then do {
         (y, s) \<leftarrow> ask_clock (year_now (millis D) (timelib_of D)) s;
         Some (y mod 100 \<noteq> 0, s) } else Some (False, s));
     (leap, s) \<leftarrow> (if four then Some (True, s) else do {
         (y, s) \<leftarrow> ask_clock (year_now (millis D) (timelib_of D)) s;
         Some (y mod 400 = 0, s) });
     Some (if leap then 28 else 27, s) }"

definition shown_month :: "('f, 'w) page_web \<Rightarrow> nat" where
  "shown_month w = (let a = arg ''monat'' (currentArgs w) in
     view_month (date_month (today (lg (sketch_of w)))) (if a = [] then None else Some (toInt a)))"

definition ertrag_row :: "('f, 'w) device \<Rightarrow> 'f logger \<Rightarrow> nat \<Rightarrow> nat \<Rightarrow> string option" where
  "ertrag_row D l j i = do {
     n \<leftarrow> tc_get l j i;
     Some (ertrag_day (j = date_month (today l) \<and> i = date_day (today l))
       (dtostrf (board D) (fp_div f64_round (Fin (of_nat (unat n))) (Fin 1000)) 1 1) i) }"

definition handleViewErtrag :: "('f, 'w) webdev \<Rightarrow> ('f, 'w) page_action" where
  "handleViewErtrag V w = do {
     let j = shown_month w;
     name \<leftarrow> arr_get monat_names j;
     (tmp, w) \<leftarrow> (if j = 1 then ask_sk (february_last (dev V)) w else Some (view_last_day 0 j, w));
     let l = lg (sketch_of w);
     days \<leftarrow> those (map (ertrag_row (dev V) l j) [0..<tmp + 1]);
     chart \<leftarrow> graph l;
     Some (contentOutput (ertrag_head name j @ concat days @ ertrag_tail chart) w) }"

section \<open>Messages in the log\<close>

lemma set_sketch_simps [simp]:
  "sketch_of (set_sketch s w) = s" "set_sketch s' (set_sketch s w) = set_sketch s' w"
  "currentArgs (set_sketch s w) = currentArgs w" "currentUri (set_sketch s w) = currentUri w"
  "currentUpload (set_sketch s w) = currentUpload w" "set_sketch (sketch_of w) w = w"
  "fsUploadFile (app (user (set_sketch s w))) = fsUploadFile (app (user w))"
  by (simp_all add: sketch_of_def set_sketch_def on_app_def)

lemma log_sk_returns:
  obtains c t where "log_sk V x w = Some (set_sketch ((sketch_of w)\<lparr>clk := c,
     world := file_write (dev V) ''/log.txt'' ''a+'' t (world (sketch_of w))\<rparr>) w)"
proof -
  obtain c t where "write2logfile (dev V) x (sketch_of w)
     = Some ((sketch_of w)\<lparr>clk := c, world := file_write (dev V) ''/log.txt'' ''a+'' t (world (sketch_of w))\<rparr>)"
    by (rule write2logfile_returns)
  then show ?thesis by (intro that) (simp add: log_sk_def on_sk_def)
qed

section \<open>Properties\<close>

lemma two_digits_least: "2 \<le> length (two_digits n)"
proof (cases "n < 10")
  case False
  then show ?thesis by (cases "decimal (n div 10)") (simp_all add: two_digits_def decimal.simps [of n])
qed (simp add: two_digits_def decimal.simps)

lemma sprintf_zeit_overflows: "sprintf_zeit (two_digits a @ '':'' @ two_digits b) = None"
  using two_digits_least [of a] two_digits_least [of b] by (simp add: sprintf_zeit_def)

lemma graph_rows_none: "graph_rows i xs = (if \<forall>x \<in> set xs. x = 0 then Some [] else None)"
  by (induction xs arbitrary: i) (auto simp: sprintf_zeit_overflows [simplified] word_greater_zero_iff)

lemma ask_clock_lg: "ask_clock f s = Some (x, s') \<Longrightarrow> lg s' = lg s"
  by (auto simp: ask_clock_def split: option.splits)

lemma february_last_lg: "february_last D s = Some (x, s') \<Longrightarrow> lg s' = lg s"
  by (auto simp: february_last_def bind_eq_Some_conv split: if_splits dest!: ask_clock_lg)

text \<open>C35: the yield page cannot show a day's curve: as soon as one interval of the day has counted a
  pulse, \<open>graph\<close> writes the time of that interval, five characters and a zero, into an array of five
  bytes.\<close>

theorem yield_page_overflow:
  assumes "n \<in> set (fuenfMinutenZaehler (lg (sketch_of w)))" and "n \<noteq> 0"
  shows "handleViewErtrag V w = None"
proof -
  have g: "graph (lg (sketch_of w)) = None" using assms by (auto simp: graph_def graph_rows_none)
  have l: "lg (sketch_of w') = lg (sketch_of w)"
    if "(if shown_month w = 1 then ask_sk (february_last (dev V)) w else Some (view_last_day 0 (shown_month w), w)) = Some (x, w')"
    for x w'
    using that by (auto simp: ask_sk_def split: if_splits dest: february_last_lg)
  show ?thesis
  proof (cases "if shown_month w = 1 then ask_sk (february_last (dev V)) w else Some (view_last_day 0 (shown_month w), w)")
    case None
    then show ?thesis unfolding handleViewErtrag_def Let_def by (simp add: bind_eq_None_conv)
  next
    case (Some r)
    obtain x w' where r: "r = (x, w')" by (cases r)
    have "graph (lg (sketch_of w')) = None" using g l [OF Some [unfolded r]] by simp
    then show ?thesis unfolding handleViewErtrag_def Let_def Some r by (simp add: bind_eq_None_conv)
  qed
qed

text \<open>A web server for the witnesses, on a device whose world is one bit: a file is there or not.\<close>

definition demo_update :: "bool update_platform" where
  "demo_update = \<lparr>hasError = (\<lambda>u. False), update_begin = (\<lambda>n u. (True, u)), update_write = (\<lambda>b u. (length b, u)),
     update_end = (\<lambda>b u. (True, u)), getFreeSketchSpace = (\<lambda>u. 0x10000), restart = (\<lambda>u. u), stopAllUdp = (\<lambda>u. u),
     encode = (\<lambda>s. s)\<rparr>"

definition demo_webdev :: "(nat \<Rightarrow> u8, bool) webdev" where
  "demo_webdev = \<lparr>dev = demo_device, toFloat = (\<lambda>_. 0), getFreeHeap = (\<lambda>_. 20000),
     subnetMask = (\<lambda>_. ''255.255.255.0''), gatewayIP = (\<lambda>_. ''10.0.0.1''),
     openDir = (\<lambda>w. if w then [(''/log.txt'', 7)] else []), fs_remove = (\<lambda>_ _. False), fs_info = (\<lambda>_. (1000, 100)),
     open_w = (\<lambda>_ w. (True, w)), file_append = (\<lambda>_ _ w. w), file_close = (\<lambda>_ w. w), files = no_files,
     upd = demo_update\<rparr>"

definition demo_page :: "(nat \<Rightarrow> u8, bool) page update_app" where
  "demo_page = update_init \<lparr>sk = demo_sketch 300, fsUploadFile = None\<rparr>"

definition demo_web :: "(nat \<Rightarrow> u8, bool) page_web" where
  "demo_web = web_init no_upload demo_page"

lemma yield_page_overflow_witness:
  "handleViewErtrag demo_webdev (set_sketch ((sketch_of demo_web)\<lparr>lg := demo_logger\<lparr>fuenfMinutenZaehler :=
     (replicate 288 0)[120 := 36]\<rparr>\<rparr>) demo_web) = None"
  by (rule yield_page_overflow [of 36]) (simp_all add: set_update_memI)

end
