(* ===== verification/Logger_Settings.thy ===== *)
theory Logger_Settings
  imports Logger_Web
begin

text \<open>
  Settings changed on the setup page (\<open>src/websites.ino\<close>) and read back at the next start
  (\<open>src/setup.ino\<close>): what a commit on a flash chip that does not fail leaves for a restart, the
  dotted address of the controller, and the whole-number settings, which are stored as \<open>float\<close>.
\<close>

section \<open>The controller address\<close>

fun dotted :: "u8 list \<Rightarrow> string" where
  "dotted [] = []"
| "dotted [x] = decimal (unat x)"
| "dotted (x # y # xs) = decimal (unat x) @ CHR ''.'' # dotted (y # xs)"

lemma decimal_plain: "c \<in> set (decimal n) \<Longrightarrow> c \<noteq> CHR ''.'' \<and> c \<noteq> CHR 0x00"
  using decimal_digits [of n] by (auto simp: digit_value_def Let_def)

lemma dotted_plain: "CHR 0x00 \<notin> set (dotted xs)"
  by (induction xs rule: dotted.induct) (auto dest: decimal_plain)

lemma dotted_tokens: "xs \<noteq> [] \<Longrightarrow> split_on (CHR ''.'') (dotted xs) = map (\<lambda>x. decimal (unat x)) xs"
proof (induction xs rule: dotted.induct)
  case (2 x)
  then show ?case by (simp add: split_on_none) (metis decimal_plain split_on_none)
next
  case (3 x y xs)
  have "CHR ''.'' \<notin> set (decimal (unat x))" using decimal_plain by blast
  with 3 show ?case by (simp add: split_on_cons)
qed simp

lemma ip_tokens_dotted:
  assumes "xs \<noteq> []" and "length (dotted xs) \<le> 19"
  shows "ip_tokens (dotted xs) = map (\<lambda>x. decimal (unat x)) xs"
proof -
  have "takeWhile (\<lambda>c. c \<noteq> CHR 0x00) (dotted xs) = dotted xs"
    unfolding takeWhile_eq_all_conv using dotted_plain [of xs] by blast
  moreover have "filter (\<lambda>x. x \<noteq> []) (map (\<lambda>x. decimal (unat x)) xs) = map (\<lambda>x. decimal (unat x)) (xs :: u8 list)"
    by (induction xs) simp_all
  moreover have "take 19 (dotted xs) = dotted xs" using assms(2) by simp
  ultimately show ?thesis unfolding ip_tokens_def by (simp only: dotted_tokens [OF assms(1)])
qed

lemma toInt_byte: "of_int (toInt (decimal (unat (x :: u8)))) = x"
proof -
  have "unat x < 2147483648" by (rule less_le_trans [OF unsigned_less]) simp
  then show ?thesis by (simp add: toInt_decimal)
qed

lemma dotted_inject:
  assumes "dotted xs = dotted ys" and "xs \<noteq> []" and "ys \<noteq> []"
  shows "xs = ys"
proof -
  have "map (\<lambda>x. decimal (unat x)) xs = map (\<lambda>x. decimal (unat x)) ys"
    using assms dotted_tokens by metis
  then have "map (\<lambda>t. of_int (toInt t) :: u8) (map (\<lambda>x. decimal (unat x)) xs)
    = map (\<lambda>t. of_int (toInt t)) (map (\<lambda>x. decimal (unat x)) ys)" by simp
  then show ?thesis by (simp add: comp_def toInt_byte)
qed

lemma fhemIp_dotted: "length (fhemHost l) = 4 \<Longrightarrow> fhemIp l = Some (dotted (fhemHost l))"
proof -
  assume "length (fhemHost l) = 4"
  then obtain a b c d where "fhemHost l = [a, b, c, d]"
    by (auto simp: length_Suc_conv numeral_eq_Suc)
  then show ?thesis by (simp add: fhemIp_def arr_get_def)
qed

text \<open>A byte written to the EEPROM, and the bytes beside it.\<close>

lemma read_write:
  assumes "eeprom_wf e" and "a < bufsize e" and "b < bufsize e"
  shows "eeprom_read (int b) (eeprom_write (int a) v e) = (if a = b then v else eeprom_read (int b) e)"
    "bufsize (eeprom_write (int a) v e) = bufsize e" "sector (eeprom_write (int a) v e) = sector e"
  using assms by (auto simp: eeprom_write_def eeprom_read_def eeprom_wf_def split: option.splits)

lemma store_ip_ok:
  assumes "length (fhemHost l) = 4" and "i + length xs \<le> 4"
    and "eeprom_inv F content (ee l, flash l)" and "1511 \<le> bufsize (ee l)"
  obtains e where "store_ip i (map (\<lambda>x. decimal (unat x)) xs) l
      = Some (l\<lparr>fhemHost := take i (fhemHost l) @ xs @ drop (i + length xs) (fhemHost l), ee := e\<rparr>)"
    "eeprom_inv F content (e, flash l)" "bufsize e = bufsize (ee l)" "sector e = sector (ee l)"
    "\<forall>k < 4. eeprom_read (int (adresseEepromFhemHost + k * 2)) e
       = (if i \<le> k \<and> k < i + length xs then xs ! (k - i) else eeprom_read (int (adresseEepromFhemHost + k * 2)) (ee l))"
  using assms
proof (induction xs arbitrary: i l thesis)
  case Nil
  show ?case by (rule Nil.prems(1) [of "ee l"]) (use Nil.prems in auto)
next
  case (Cons x xs)
  let ?e = "eeprom_write (int (adresseEepromFhemHost + i * 2)) x (ee l)"
  let ?l = "l\<lparr>fhemHost := (fhemHost l)[i := x], ee := ?e\<rparr>"
  have i: "i < 4" using Cons.prems(3) by simp
  have wf: "eeprom_wf (ee l)" using Cons.prems(4) by (simp add: eeprom_inv_def)
  have a: "adresseEepromFhemHost + k * 2 < bufsize (ee l)" if "k < 4" for k
    using that Cons.prems(5) by (simp add: logger_const_defs)
  note rw = read_write [OF wf a [OF i] a]
  have h: "length (fhemHost ?l) = 4" "Suc i + length xs \<le> 4" "eeprom_inv F content (ee ?l, flash ?l)"
    "1511 \<le> bufsize (ee ?l)"
    using Cons.prems rw(2) [OF i, of x] write_inv [OF Cons.prems(4)] by simp_all
  obtain e where e: "store_ip (Suc i) (map (\<lambda>x. decimal (unat x)) xs) ?l
      = Some (?l\<lparr>fhemHost := take (Suc i) (fhemHost ?l) @ xs @ drop (Suc i + length xs) (fhemHost ?l), ee := e\<rparr>)"
    "eeprom_inv F content (e, flash ?l)" "bufsize e = bufsize (ee ?l)" "sector e = sector (ee ?l)"
    "\<forall>k < 4. eeprom_read (int (adresseEepromFhemHost + k * 2)) e
       = (if Suc i \<le> k \<and> k < Suc i + length xs then xs ! (k - Suc i)
          else eeprom_read (int (adresseEepromFhemHost + k * 2)) (ee ?l))"
    by (rule Cons.IH [OF _ h])
  show ?case
  proof (rule Cons.prems(1) [of e])
    have "take (Suc i) (fhemHost ?l) @ xs @ drop (Suc i + length xs) (fhemHost ?l)
        = take i (fhemHost l) @ (x # xs) @ drop (i + length (x # xs)) (fhemHost l)"
      using i Cons.prems(2) by (simp add: take_Suc_conv_app_nth)
    then show "store_ip i (map (\<lambda>x. decimal (unat x)) (x # xs)) l
        = Some (l\<lparr>fhemHost := take i (fhemHost l) @ (x # xs) @ drop (i + length (x # xs)) (fhemHost l), ee := e\<rparr>)"
      using e(1) i Cons.prems(2) by (simp add: arr_set_def toInt_byte Let_def)
    show "\<forall>k < 4. eeprom_read (int (adresseEepromFhemHost + k * 2)) e
       = (if i \<le> k \<and> k < i + length (x # xs) then (x # xs) ! (k - i)
          else eeprom_read (int (adresseEepromFhemHost + k * 2)) (ee l))"
    proof (intro allI impI)
      fix k :: nat
      assume k: "k < 4"
      show "eeprom_read (int (adresseEepromFhemHost + k * 2)) e
       = (if i \<le> k \<and> k < i + length (x # xs) then (x # xs) ! (k - i)
          else eeprom_read (int (adresseEepromFhemHost + k * 2)) (ee l))"
        using e(5) [rule_format, OF k] rw(1) [OF k, of x] by (auto simp: nth_Cons')
    qed
  qed (use e rw(2,3) [OF i, of x] in simp_all)
qed

lemma store_ip_beyond:
  "length (fhemHost l) < i + length ts \<Longrightarrow> i \<le> length (fhemHost l) \<Longrightarrow> store_ip i ts l = None"
proof (induction ts arbitrary: i l)
  case (Cons t ts)
  show ?case
  proof (cases "i < length (fhemHost l)")
    case True
    with Cons show ?thesis by (simp add: arr_set_def Let_def)
  qed (simp add: arr_set_def)
qed simp


section \<open>Restart\<close>


definition flash_reliable :: "'f spi_flash \<Rightarrow> ('f \<Rightarrow> nat \<Rightarrow> u8) \<Rightarrow> bool" where
  "flash_reliable F content \<longleftrightarrow> spi_flash_ok F content \<and> 1520 \<le> SPI_FLASH_SEC_SIZE F
     \<and> (\<forall>s f. fst (spi_flash_erase_sector F s f)) \<and> (\<forall>a bs f. fst (spi_flash_write F a bs f))"

text \<open>After a commit on a chip that does not fail, a restart reads every byte back.\<close>

lemma commit_restart:
  assumes F: "flash_reliable F content" and inv: "eeprom_inv F content (e, f)" and b: "bufsize e = 1520"
  obtains f' where "eeprom_commit F e f = (True, e\<lparr>dirty := False\<rparr>, f')"
    "\<And>a. a < 1520 \<Longrightarrow> eeprom_read (int a) (eeprom_begin F 1520 (EEPROMClass (sector e)) f') = eeprom_read (int a) e"
proof -
  have wf: "eeprom_wf e" using inv by (simp add: eeprom_inv_def)
  obtain d where d: "data e = Some d" "length d = 1520" using wf b by (auto elim: eeprom_wf_cases)
  obtain r e' f' where c: "eeprom_commit F e f = (r, e', f')" by (metis prod_cases3)
  have "r" using F c d(1) b
    by (auto simp: flash_reliable_def eeprom_commit_def split: if_splits prod.splits bool.splits)
      (metis fst_conv)+
  with c have c': "eeprom_commit F e f = (True, e', f')" by simp
  have ok: "spi_flash_ok F content" "1520 \<le> SPI_FLASH_SEC_SIZE F" using F by (simp_all add: flash_reliable_def)
  have s: "e' = e\<lparr>dirty := False\<rparr>" "\<forall>i < length d. content f' (eeprom_base F e + i) = d ! i"
    using commit_stores [OF ok(1) inv c'] d(1) by auto
  have "eeprom_read (int a) (eeprom_begin F 1520 (EEPROMClass (sector e)) f') = eeprom_read (int a) e"
    if "a < 1520" for a
    using that ok(2) s(2) d b
    by (simp add: eeprom_begin_def Let_def eeprom_read_def EEPROMClass_def eeprom_base_def spi_flash_okD(3) [OF ok(1)])
  with c' s(1) show ?thesis by (intro that) simp_all
qed

definition restarted :: "('f, 'w) webdev \<Rightarrow> 'f logger \<Rightarrow> 'f logger \<Rightarrow> bool" where
  "restarted V l l' \<longleftrightarrow> ee l' = eeprom_begin (spi (board (dev V))) 1520 (EEPROMClass (sector (ee l))) (flash l)"

lemma putEepromValue_restart:
  fixes V :: "('f, 'w) webdev"
  assumes F: "flash_reliable (spi (board (dev V))) content"
    and inv: "eeprom_inv (spi (board (dev V))) content (ee l, flash l)" and b: "bufsize (ee l) = 1520"
    and a: "a + 4 \<le> 1520"
  obtains e f where "putEepromValue (board (dev V)) a v l = Some (l\<lparr>ee := e, flash := f\<rparr>)"
    "sector e = sector (ee l)" "\<And>l' tmp. restarted V (l\<lparr>ee := e, flash := f\<rparr>) l' \<Longrightarrow> get_float a tmp l' = Some v"
proof -
  let ?F = "spi (board (dev V))"
  have wf: "eeprom_wf (ee l)" using inv by (simp add: eeprom_inv_def)
  obtain d where d: "data (ee l) = Some d" "length d = 1520" using wf b by (auto elim: eeprom_wf_cases)
  let ?e = "(ee l)\<lparr>data := Some (blit a (le32 v) d), dirty := True\<rparr>"
  have pe: "eeprom_put (int a) (le32 v) (ee l) = Some ?e"
    using d(1) a b by (simp add: eeprom_put_def)
  have inv': "eeprom_inv ?F content (?e, flash l)" by (rule put_inv [OF inv pe])
  have b': "bufsize ?e = 1520" using b by simp
  obtain f' where f': "eeprom_commit ?F ?e (flash l) = (True, ?e\<lparr>dirty := False\<rparr>, f')"
    "\<And>i. i < 1520 \<Longrightarrow> eeprom_read (int i) (eeprom_begin ?F 1520 (EEPROMClass (sector ?e)) f') = eeprom_read (int i) ?e"
    by (rule commit_restart [OF F inv' b']) blast
  have "putEepromValue (board (dev V)) a v l = Some (l\<lparr>ee := ?e\<lparr>dirty := False\<rparr>, flash := f'\<rparr>)"
    using pe f'(1) by (simp add: putEepromValue_def)
  moreover have "get_float a tmp l' = Some v" if r: "restarted V (l\<lparr>ee := ?e\<lparr>dirty := False\<rparr>, flash := f'\<rparr>) l'" for l' tmp
  proof -
    have e: "ee l' = eeprom_begin ?F 1520 (EEPROMClass (sector (ee l))) f'" using r by (simp add: restarted_def)
    have s: "1520 \<le> SPI_FLASH_SEC_SIZE ?F" using F by (simp add: flash_reliable_def)
    obtain x where x: "data (ee l') = Some x" "length x = 1520" "bufsize (ee l') = 1520"
      using s spi_flash_okD(3) [of ?F content] F
      by (simp add: e eeprom_begin_def Let_def EEPROMClass_def flash_reliable_def)
    have n: "x ! i = blit a (le32 v) d ! i" if "i < 1520" for i
      using f'(2) [OF that] that x d b by (simp add: eeprom_read_def e [symmetric])
    have "bytes_at a 4 x = le32 v"
      using x(2) d(2) a n by (intro nth_equalityI) (auto simp: nth_bytes_at length_bytes_at nth_blit)
    then show ?thesis using x a by (simp add: get_float_def eeprom_get_def byte_simps)
  qed
  ultimately show ?thesis
    by (intro that [of f' "?e\<lparr>dirty := False\<rparr>"]) (blast | simp)+
qed



text \<open>Storing a whole number below 2^24, with its message in the log, and reading it back.\<close>

lemma number_stored:
  fixes V :: "('f, 'w) webdev"
  assumes F: "flash_reliable (spi (board (dev V))) content"
    and inv: "eeprom_inv (spi (board (dev V))) content (ee l, flash l)" and b: "bufsize (ee l) = 1520"
    and a: "a + 4 \<le> 1520" and n: "0 < unat n" "unat n < 2 ^ 24"
  obtains w' e f where
    "Option.bind (log_sk V x (set_sketch ((sketch_of w)\<lparr>lg := l\<rparr>) w)) (store_sk V a (f32_of_u32 n)) = Some w'"
    "lg (sketch_of w') = l\<lparr>ee := e, flash := f\<rparr>"
    "\<forall>l' tmp. restarted V (lg (sketch_of w')) l'
       \<longrightarrow> Option.bind (get_float a tmp l') (\<lambda>x. positive_or x u32_of_f32 z) = Some n"
proof -
  obtain e f where s: "putEepromValue (board (dev V)) a (f32_of_u32 n) l = Some (l\<lparr>ee := e, flash := f\<rparr>)"
    "sector e = sector (ee l)"
    "\<And>l' tmp. restarted V (l\<lparr>ee := e, flash := f\<rparr>) l' \<Longrightarrow> get_float a tmp l' = Some (f32_of_u32 n)"
    by (rule putEepromValue_restart [OF F inv b a]) blast
  have i: "is_nat (f32_of_u32 n) (unat n)" by (rule is_nat_of_u32) (use n in simp)
  have p: "positive_or (f32_of_u32 n) u32_of_f32 z = Some n"
    using less_is_nat [OF is_nat_0 i] n(1) u32_of_is_nat [OF i] by (simp add: positive_or_def)
  let ?w = "set_sketch ((sketch_of w)\<lparr>lg := l\<rparr>) w"
  obtain c t where log: "log_sk V x ?w = Some (set_sketch ((sketch_of ?w)\<lparr>clk := c,
            world := file_write (dev V) ''/log.txt'' ''a+'' t (world (sketch_of ?w))\<rparr>) ?w)"
    by (rule log_sk_returns)
  let ?w' = "set_sketch ((sketch_of w)\<lparr>clk := c, world := file_write (dev V) ''/log.txt'' ''a+'' t (world (sketch_of w)),
      lg := l\<lparr>ee := e, flash := f\<rparr>\<rparr>) w"
  show ?thesis
    by (rule that [of ?w' f e])
      (use log s p in \<open>simp_all add: store_sk_def on_sk_def on_lg_def\<close>)
qed

section \<open>Properties\<close>

text \<open>C34: the controller's address set on the setup page survives a restart: an address of four
  numbers is taken over, and on a flash chip that does not fail the next start reads the same four
  numbers back. An address of more than four numbers is written behind the array of the host.\<close>

theorem ip_setting:
  fixes V :: "('f, 'w) webdev"
  assumes "flash_reliable (spi (board (dev V))) content"
    and "eeprom_inv (spi (board (dev V))) content (ee (lg (sketch_of w)), flash (lg (sketch_of w)))"
    and "bufsize (ee (lg (sketch_of w))) = 1520"
    and "length (fhemHost (lg (sketch_of w))) = 4" and "xs \<noteq> fhemHost (lg (sketch_of w))"
    and "xs \<noteq> []" and "length (dotted xs) \<le> 19"
  shows "(length xs = 4 \<longrightarrow> (\<exists>w'. set_ip V (dotted xs) w = Some w' \<and> fhemHost (lg (sketch_of w')) = xs
        \<and> (\<forall>l :: 'f logger. restarted V (lg (sketch_of w')) l \<longrightarrow> fhemHost (restore_hosts l) = xs)))
     \<and> (4 < length xs \<longrightarrow> set_ip V (dotted xs) w = None)"
proof -
  let ?F = "spi (board (dev V))" and ?l = "lg (sketch_of w)"
  have ip: "fhemIp ?l = Some (dotted (fhemHost ?l))" by (rule fhemIp_dotted [OF assms(4)])
  have h: "fhemHost ?l \<noteq> []" using assms(4) by (metis list.size(3) zero_neq_numeral)
  have ne: "dotted xs \<noteq> dotted (fhemHost ?l)" using dotted_inject [OF _ assms(6) h] assms(5) by blast
  note t = ip_tokens_dotted [OF assms(6,7)]
  show ?thesis
  proof (intro conjI impI)
    assume x: "length xs = 4"
    obtain e where e: "store_ip 0 (map (\<lambda>x. decimal (unat x)) xs) ?l = Some (?l\<lparr>fhemHost := xs, ee := e\<rparr>)"
      "eeprom_inv ?F content (e, flash ?l)" "bufsize e = bufsize (ee ?l)" "sector e = sector (ee ?l)"
      "\<forall>k < 4. eeprom_read (int (adresseEepromFhemHost + k * 2)) e = xs ! k"
      by (rule store_ip_ok [of ?l 0 xs ?F content]) (use assms x in simp_all)
    have b: "bufsize e = 1520" using e(3) assms(3) by simp
    obtain f' where f': "eeprom_commit ?F e (flash ?l) = (True, e\<lparr>dirty := False\<rparr>, f')"
      "\<And>a. a < 1520 \<Longrightarrow> eeprom_read (int a) (eeprom_begin ?F 1520 (EEPROMClass (sector e)) f') = eeprom_read (int a) e"
      by (rule commit_restart [OF assms(1) e(2) b]) blast
    let ?w = "set_sketch ((sketch_of w)\<lparr>lg := ?l\<lparr>fhemHost := xs, ee := e\<lparr>dirty := False\<rparr>, flash := f'\<rparr>\<rparr>) w"
    obtain c x' where log: "log_sk V (''Neue Controller IP setzen: '' @ dotted xs) ?w
        = Some (set_sketch ((sketch_of ?w)\<lparr>clk := c,
            world := file_write (dev V) ''/log.txt'' ''a+'' x' (world (sketch_of ?w))\<rparr>) ?w)"
      by (rule log_sk_returns)
    have ip': "fhemIp (lg (sketch_of ?w)) = Some (dotted xs)" using fhemIp_dotted [of "lg (sketch_of ?w)"] x by simp
    have "set_ip V (dotted xs) w = log_sk V (''Neue Controller IP setzen: '' @ dotted xs) ?w"
      using ip ne t e(1) f'(1) ip' by (simp add: set_ip_def on_sk_def on_lg_def)
    moreover have "fhemHost (restore_hosts l) = xs"
      if "ee l = eeprom_begin ?F 1520 (EEPROMClass (sector (ee ?l))) f'" for l :: "'f logger"
    proof -
      have "eeprom_read (int (adresseEepromFhemHost + k * 2)) (ee l) = xs ! k" if "k < 4" for k
        using f'(2) [of "adresseEepromFhemHost + k * 2"] e(4,5) that \<open>ee l = _\<close> by (simp add: adresseEepromFhemHost_def)
      then have "fhemHost (restore_hosts l) = map (\<lambda>k. xs ! k) [0..<4]"
        by (simp add: restore_hosts_def)
      then show ?thesis using x map_nth [of xs] by simp
    qed
    ultimately show "\<exists>w'. set_ip V (dotted xs) w = Some w' \<and> fhemHost (lg (sketch_of w')) = xs
        \<and> (\<forall>l :: 'f logger. restarted V (lg (sketch_of w')) l \<longrightarrow> fhemHost (restore_hosts l) = xs)"
      using log e(4) by (simp add: restarted_def)
  next
    assume "4 < length xs"
    then have "store_ip 0 (map (\<lambda>x. decimal (unat x)) xs) ?l = None"
      by (intro store_ip_beyond) (use assms(4) in simp_all)
    with ip ne t show "set_ip V (dotted xs) w = None" by (simp add: set_ip_def on_sk_def on_lg_def)
  qed
qed

lemma demo_flash_reliable: "flash_reliable nor_flash id"
  using nor_flash_ok by (simp add: flash_reliable_def nor_flash_def)

lemma demo_eeprom_inv: "eeprom_inv nor_flash id (ee demo_logger, flash demo_logger)"
  by (simp add: eeprom_inv_def demo_logger_def eeprom_wf_def nor_flash_def)

lemmas demo_settings = demo_flash_reliable demo_eeprom_inv

lemma demo_web_logger [simp]: "lg (sketch_of demo_web) = demo_logger" "board (dev demo_webdev) = demo_board"
  "spi demo_board = nor_flash"
  by (simp_all add: demo_web_def demo_page_def demo_webdev_def demo_device_def demo_sketch_def sketch_of_def web_init_def
      update_init_def demo_board_def)

lemma ip_setting_witness:
  "(\<exists>w'. set_ip demo_webdev (dotted [10, 0, 0, 9]) demo_web = Some w' \<and> fhemHost (lg (sketch_of w')) = [10, 0, 0, 9])
   \<and> set_ip demo_webdev (dotted [10, 0, 0, 9, 1]) demo_web = None"
  using ip_setting [of demo_webdev id demo_web "[10, 0, 0, 9]"] ip_setting [of demo_webdev id demo_web "[10, 0, 0, 9, 1]"]
    demo_settings
  by (auto simp: demo_logger_def decimal.simps)

text \<open>The generator's power and the meter constant set on the setup page survive a restart: a
  positive number below 2^24 is taken over and, on a flash chip that does not fail, read back
  unchanged, although it is stored as a \<open>float\<close>.\<close>

theorem number_setting:
  fixes V :: "('f, 'w) webdev"
  assumes "flash_reliable (spi (board (dev V))) content"
    and "eeprom_inv (spi (board (dev V))) content (ee (lg (sketch_of w)), flash (lg (sketch_of w)))"
    and "bufsize (ee (lg (sketch_of w))) = 1520" and "0 < n" and "n < 2 ^ 24"
    and "of_nat n \<noteq> generatorLeistung (lg (sketch_of w))" and "of_nat n \<noteq> impulseProKwh (lg (sketch_of w))"
  shows "(\<exists>w'. set_generator V (decimal n) w = Some w' \<and> generatorLeistung (lg (sketch_of w')) = of_nat n
            \<and> (\<forall>l tmp. restarted V (lg (sketch_of w')) l
                 \<longrightarrow> Option.bind (get_float adresseEepromGL tmp l) (\<lambda>x. positive_or x u32_of_f32 0) = Some (of_nat n)))
       \<and> (\<exists>w'. set_couterconst V (decimal n) w = Some w' \<and> impulseProKwh (lg (sketch_of w')) = of_nat n
            \<and> (\<forall>l tmp. restarted V (lg (sketch_of w')) l
                 \<longrightarrow> Option.bind (get_float adresseEepromZK tmp l) (\<lambda>x. positive_or x u32_of_f32 1000) = Some (of_nat n)))"
proof (intro conjI)
  have t: "of_int (toInt (decimal n)) = (of_nat n :: u32)" using assms(5) by (simp add: toInt_decimal)
  have "unat (of_nat n :: u32) = n" using assms(5) by (simp add: unat_of_nat)
  with assms(4,5) have u: "0 < unat (of_nat n :: u32)" "unat (of_nat n :: u32) < 2 ^ 24" by simp_all
  have a: "adresseEepromGL + 4 \<le> 1520" "adresseEepromZK + 4 \<le> 1520" by (simp_all add: logger_const_defs)
  let ?l = "(lg (sketch_of w))\<lparr>generatorLeistung := of_nat n\<rparr>"
  have g: "eeprom_inv (spi (board (dev V))) content (ee ?l, flash ?l)" "bufsize (ee ?l) = 1520"
    using assms(2,3) by simp_all
  obtain w' e f where w': "Option.bind (log_sk V (''Neue Generatorleistung setzen: '' @ setting_int (of_nat n))
        (set_sketch ((sketch_of w)\<lparr>lg := ?l\<rparr>) w)) (store_sk V adresseEepromGL (f32_of_u32 (of_nat n))) = Some w'"
    "lg (sketch_of w') = ?l\<lparr>ee := e, flash := f\<rparr>"
    "\<forall>l' tmp. restarted V (lg (sketch_of w')) l'
       \<longrightarrow> Option.bind (get_float adresseEepromGL tmp l') (\<lambda>x. positive_or x u32_of_f32 0) = Some (of_nat n)"
    by (rule number_stored [OF assms(1) g a(1) u])
  have "set_generator V (decimal n) w = Some w'"
    using w'(1) assms(6) unfolding set_generator_def Let_def t by (simp add: on_sk_def)
  with w'(2,3) show "\<exists>w'. set_generator V (decimal n) w = Some w' \<and> generatorLeistung (lg (sketch_of w')) = of_nat n
            \<and> (\<forall>l tmp. restarted V (lg (sketch_of w')) l
                 \<longrightarrow> Option.bind (get_float adresseEepromGL tmp l) (\<lambda>x. positive_or x u32_of_f32 0) = Some (of_nat n))"
    by (intro exI [of _ w']) simp
  let ?l = "(lg (sketch_of w))\<lparr>impulseProKwh := of_nat n\<rparr>"
  have g: "eeprom_inv (spi (board (dev V))) content (ee ?l, flash ?l)" "bufsize (ee ?l) = 1520"
    using assms(2,3) by simp_all
  obtain w' e f where w': "Option.bind (log_sk V (''Neue Zaehlerkonstante setzen: '' @ setting_int (of_nat n))
        (set_sketch ((sketch_of w)\<lparr>lg := ?l\<rparr>) w)) (store_sk V adresseEepromZK (f32_of_u32 (of_nat n))) = Some w'"
    "lg (sketch_of w') = ?l\<lparr>ee := e, flash := f\<rparr>"
    "\<forall>l' tmp. restarted V (lg (sketch_of w')) l'
       \<longrightarrow> Option.bind (get_float adresseEepromZK tmp l') (\<lambda>x. positive_or x u32_of_f32 1000) = Some (of_nat n)"
    by (rule number_stored [OF assms(1) g a(2) u])
  have "set_couterconst V (decimal n) w = Some w'"
    using w'(1) assms(7) unfolding set_couterconst_def Let_def t by (simp add: on_sk_def)
  with w'(2,3) show "\<exists>w'. set_couterconst V (decimal n) w = Some w' \<and> impulseProKwh (lg (sketch_of w')) = of_nat n
            \<and> (\<forall>l tmp. restarted V (lg (sketch_of w')) l
                 \<longrightarrow> Option.bind (get_float adresseEepromZK tmp l) (\<lambda>x. positive_or x u32_of_f32 1000) = Some (of_nat n))"
    by (intro exI [of _ w']) simp
qed

lemma number_setting_witness:
  "(\<exists>w'. set_generator demo_webdev (decimal 9800) demo_web = Some w' \<and> generatorLeistung (lg (sketch_of w')) = 9800)
   \<and> (\<exists>w'. set_couterconst demo_webdev (decimal 9800) demo_web = Some w' \<and> impulseProKwh (lg (sketch_of w')) = 9800)"
  using number_setting [of demo_webdev id demo_web 9800] demo_settings
  by (auto simp: demo_logger_def)

end
