(* ===== verification/Logger_Boot.thy ===== *)
theory Logger_Boot
  imports Logger_Settings
begin

text \<open>
  The start of the sketch and its main program: \<open>setupFS\<close>, \<open>setupWifi\<close>, \<open>setupNtp\<close> and
  \<open>setupHttpServer\<close> of \<open>src/setup.ino\<close>, \<open>setup\<close> of \<open>src/esplog.ino\<close> and the whole \<open>loop\<close>. The radio
  is a record of the calls that \<open>setupWifi\<close> makes; the mounting of the file system, the wait and the
  time provider are parameters beside it. Both loops, for the network and for the time, may run for
  ever and are partial functions.
\<close>

section \<open>Network\<close>

record 'w radio =
  wifi_persistent :: "bool \<Rightarrow> 'w \<Rightarrow> 'w"
  setOutputPower :: "'w \<Rightarrow> 'w"
  wifi_mode_sta :: "'w \<Rightarrow> 'w"
  waitForConnectResult :: "'w \<Rightarrow> nat \<times> 'w"
  wifi_begin :: "string \<Rightarrow> string \<Rightarrow> 'w \<Rightarrow> 'w"
  wifi_hostname :: "string \<Rightarrow> 'w \<Rightarrow> 'w"
  delay_ms :: "nat \<Rightarrow> 'w \<Rightarrow> 'w"
  fs_begin :: "'w \<Rightarrow> bool \<times> 'w"
  syncProvider :: "'w \<Rightarrow> u32 \<times> 'w"

definition WL_CONNECTED :: nat where "WL_CONNECTED = 3"

definition ssid :: "string list" where "ssid = [''SSID1'', ''SSID2'']"
definition wifi_password :: "string list" where "wifi_password = [''Passwd1'', ''Passwd2'']"

text \<open>The loop over the two networks: it ends with the first that connects.\<close>

function try_networks :: "'w radio \<Rightarrow> nat \<Rightarrow> 'w \<Rightarrow> 'w" where
  "try_networks R i w =
     (if i < 2 then
        (let w = wifi_begin R (ssid ! i) (wifi_password ! i) w;
             w = delay_ms R 5000 w;
             (st, w) = waitForConnectResult R w
         in if st = WL_CONNECTED then w
            else (let i = (if i \<ge> 2 then 0 else i) in try_networks R (i + 1) w))
      else w)"
  by pat_completeness auto
termination by (relation "measure (\<lambda>(R, i, w). 2 - i)") auto

declare try_networks.simps [simp del]

partial_function (option) connect_loop :: "'w radio \<Rightarrow> 'w \<Rightarrow> 'w option" where
  "connect_loop R w = (case waitForConnectResult R w of (st, w) \<Rightarrow>
     if st \<noteq> WL_CONNECTED then connect_loop R (try_networks R 0 w) else Some w)"

definition setupWifi :: "'w radio \<Rightarrow> 'w \<Rightarrow> 'w option" where
  "setupWifi R w =
     (let w = wifi_mode_sta R (setOutputPower R (wifi_persistent R False w))
      in map_option (wifi_hostname R hostname) (connect_loop R w))"

definition setupFS :: "'w radio \<Rightarrow> 'w \<Rightarrow> 'w" where
  "setupFS R w = snd (fs_begin R w)"

section \<open>Time\<close>

partial_function (option) await_time ::
    "('f, 'w) device \<Rightarrow> ('w \<Rightarrow> 'w) \<Rightarrow> ('f, 'w) sketch \<Rightarrow> ('f, 'w) sketch option" where
  "await_time D wait s = Option.bind (ask_clock (timeStatus (millis D)) s) (\<lambda>(st, s).
     if st \<noteq> timeSet then await_time D wait (on_world wait s) else Some s)"

definition set_provider :: "('f, 'w) device \<Rightarrow> ('w \<Rightarrow> u32 \<times> 'w) \<Rightarrow> ('f, 'w) sketch \<Rightarrow> ('f, 'w) sketch option" where
  "set_provider D provider s =
     map_option (\<lambda>(c, w). s\<lparr>clk := c, world := w\<rparr>)
       (setSyncProvider (millis D) (Some provider) (clk s) (world s))"

definition set_interval :: "u32 \<Rightarrow> ('f, 'w) sketch \<Rightarrow> ('f, 'w) sketch" where
  "set_interval n s = s\<lparr>clk := setSyncInterval n (clk s)\<rparr>"

text \<open>The local time is computed as in the loop (\<open>local_time\<close>), and the date from it.\<close>

definition announce :: "('f, 'w) device \<Rightarrow> ('f, 'w) sketch \<Rightarrow> ('f, 'w) sketch option" where
  "announce D s = do {
     (h, s) \<leftarrow> ask_cache printTime (unixtime (lg s)) s;
     s \<leftarrow> write2logfile D (''Current Time ('' @ (if sommerzeit (lg s) then ''MESZ'' else ''MEZ'') @ ''): '' @ h) s;
     (x, s) \<leftarrow> ask_cache (printDate (timelib_of D)) (unixtime (lg s)) s;
     write2logfile D (''Current Date: '' @ x) s }"

definition setupNtp :: "('f, 'w) device \<Rightarrow> 'w radio \<Rightarrow> ('f, 'w) sketch \<Rightarrow> ('f, 'w) sketch option" where
  "setupNtp D R s = do {
     s \<leftarrow> write2logfile D ''Time synchronization ...'' s;
     s \<leftarrow> set_provider D (syncProvider R) s;
     let s = set_interval 5 s;
     s \<leftarrow> await_time D (delay_ms R 5000) s;
     let s = set_interval 21600 s;
     s \<leftarrow> local_time D s;
     (d, s) \<leftarrow> date_of D (unixtime (lg s)) s;
     s \<leftarrow> Some (s\<lparr>lg := (lg s)\<lparr>today := d\<rparr>\<rparr>);
     announce D s }"

section \<open>Web server\<close>

definition www_username :: string where "www_username = ''user''"
definition www_password :: string where "www_password = ''Passwd''"

text \<open>The operations of the file system and of the \<open>Update\<close> object, on the server's application state.\<close>

definition page_world :: "('f, 'w) page update_app \<Rightarrow> 'w" where
  "page_world u = world (sk (app u))"

definition page_files :: "('f, 'w) webdev \<Rightarrow> ('f, 'w) page update_app FS" where
  "page_files V = \<lparr>fs_exists = (\<lambda>u. fs_exists (files V) (page_world u)), fs_open = (\<lambda>u. fs_open (files V) (page_world u))\<rparr>"

definition on_page_world :: "('w \<Rightarrow> 'a \<times> 'w) \<Rightarrow> ('f, 'w) page \<Rightarrow> 'a \<times> ('f, 'w) page" where
  "on_page_world f p = (case f (world (sk p)) of (x, w) \<Rightarrow> (x, p\<lparr>sk := (sk p)\<lparr>world := w\<rparr>\<rparr>))"

definition page_update :: "('f, 'w) webdev \<Rightarrow> ('f, 'w) page update_platform" where
  "page_update V = (let U = upd V; W = (\<lambda>p. world (sk p)) in
     \<lparr>hasError = (\<lambda>p. hasError U (W p)),
      update_begin = (\<lambda>n. on_page_world (update_begin U n)),
      update_write = (\<lambda>b. on_page_world (update_write U b)),
      update_end = (\<lambda>b. on_page_world (update_end U b)),
      getFreeSketchSpace = (\<lambda>p. getFreeSketchSpace U (W p)),
      restart = (\<lambda>p. p\<lparr>sk := on_world (restart U) (sk p)\<rparr>),
      stopAllUdp = (\<lambda>p. p\<lparr>sk := on_world (stopAllUdp U) (sk p)\<rparr>),
      encode = encode U\<rparr>)"

definition secured :: "('f, 'w) webdev \<Rightarrow> ('f, 'w) page_action \<Rightarrow> ('f, 'w) page_action" where
  "secured V f w = do {
     ok \<leftarrow> authenticate (encode (upd V)) www_username www_password w;
     if \<not> ok then Some (requestAuthentication w) else f w }"

definition setupHttpServer ::
    "('f, 'w) webdev \<Rightarrow> ('f, 'w) page update_app \<Rightarrow> ('f, 'w) page update_app handlers
      \<Rightarrow> ('f, 'w) page update_app handlers" where
  "setupHttpServer V u H =
     (let H = on ''/'' (handleRoot V) H;
          H = on ''/V'' (handleJsonArgs V) H;
          H = on ''/ertrag.html'' (handleViewErtrag V) H;
          H = on ''/setup.html'' (secured V (handleSetup V)) H;
          H = on ''/spiffs.html'' (secured V (handleSpiffs V)) H;
          H = on_upload ''/upload'' HTTP_POST Some (Some (handleFileUpload V)) H;
          H = serveStatic ''/screen.css'' (page_files V) u ''/screen.css'' [] H;
          H = serveStatic ''/mobile.css'' (page_files V) u ''/mobile.css'' [] H;
          H = serveStatic ''/backup.csv'' (page_files V) u ''/backup.csv'' [] H
      in serveStatic ''/log.txt'' (page_files V) u ''/log.txt'' [] H)"

section \<open>The program\<close>

text \<open>\<open>setup\<close>: the result is the chain of handlers and the server's state. The built-in LED is switched
  on by \<open>LOW\<close>.\<close>

definition setup_sketch :: "('f, 'w) device \<Rightarrow> 'w radio \<Rightarrow> ('f, 'w) sketch \<Rightarrow> ('f, 'w) sketch option" where
  "setup_sketch D R s = do {
     let s = s\<lparr>led_builtin := False\<rparr>;
     let s = on_world (setupFS R) s;
     w \<leftarrow> setupWifi R (world s);
     s \<leftarrow> Some (s\<lparr>world := w\<rparr>);
     s \<leftarrow> setupNtp D R s;
     s \<leftarrow> setupStructAusgabe D s;
     setupEeprom D s }"

definition sketch_setup ::
    "('f, 'w) webdev \<Rightarrow> 'w radio \<Rightarrow> ('f, 'w) page_web
      \<Rightarrow> (('f, 'w) page update_app handlers \<times> ('f, 'w) page_web) option" where
  "sketch_setup V R w = do {
     w \<leftarrow> on_sk (setup_sketch (dev V) R) w;
     let H = setupHttpServer V (user w) no_handlers;
     w \<leftarrow> log_sk V ''ESPLog gestartet'' w;
     let H = update_setup (page_update V) ''/update'' \<lparr>username = Some www_username, password = Some www_password\<rparr> H;
     Some (H, server_begin w) }"

definition sketch_loop ::
    "('f, 'w) webdev \<Rightarrow> 'w tcp_class \<Rightarrow> ('f, 'w) page update_app handlers \<Rightarrow> (nat \<Rightarrow> string) \<Rightarrow> u32 \<Rightarrow> u32 \<Rightarrow> u32
      \<Rightarrow> ('f, 'w) page_action" where
  "sketch_loop V C H stale t0 t1 t2 w = Option.bind (on_sk (loop_sketch (dev V) C) w) (handleClient H stale t0 t1 t2)"

section \<open>What the handlers allow\<close>

definition esp_handlers :: "('f, 'w) webdev \<Rightarrow> ('f, 'w) page update_app \<Rightarrow> ('f, 'w) page update_app handlers" where
  "esp_handlers V u = update_setup (page_update V) ''/update''
     \<lparr>username = Some www_username, password = Some www_password\<rparr> (setupHttpServer V u no_handlers)"

lemmas registration_defs = esp_handlers_def update_setup_def setupHttpServer_def on_upload_def on_method_def on_def
  serveStatic_def addRequestHandler_def no_handlers_def

lemma esp_found:
  "find_handler 0 (chain (esp_handlers V u)) m ''/setup.html'' = Some 3"
  "find_handler 0 (chain (esp_handlers V u)) m ''/spiffs.html'' = Some 4"
  "find_handler 0 (chain (esp_handlers V u)) HTTP_POST ''/upload'' = Some 5"
  by (simp_all add: registration_defs Let_def)

lemma esp_chain:
  "chain (esp_handlers V u) ! 3 = FunctionRequestHandler (secured V (handleSetup V)) None ''/setup.html'' HTTP_ANY"
  "chain (esp_handlers V u) ! 4 = FunctionRequestHandler (secured V (handleSpiffs V)) None ''/spiffs.html'' HTTP_ANY"
  "chain (esp_handlers V u) ! 5 = FunctionRequestHandler Some (Some (handleFileUpload V)) ''/upload'' HTTP_POST"
  "length (chain (esp_handlers V u)) = 12"
  by (simp_all add: registration_defs Let_def)

lemma send_user: "user (send code ct content w) = user w"
  by (auto simp: send_def sendContent_def prepareHeader_def sendHeader_def setContentLength_def Let_def split: prod.splits)

lemma requestAuthentication_user: "user (requestAuthentication w) = user w"
  by (simp add: requestAuthentication_def send_user sendHeader_def Let_def)

text \<open>\<open>setup\<close> leaves these handlers in the server.\<close>

lemma setup_handlers: "sketch_setup V R w = Some (H, w') \<Longrightarrow> \<exists>u. H = esp_handlers V u"
  by (auto simp: sketch_setup_def esp_handlers_def Let_def bind_eq_Some_conv)

text \<open>What lies between the end of an upload and the page: the message in the log, the file closed.\<close>

definition upload_ended :: "('f, 'w) webdev \<Rightarrow> string \<Rightarrow> ('f, 'w) page_web \<Rightarrow> 'w" where
  "upload_ended V x w = (case fsUploadFile (app (user w)) of None \<Rightarrow> id | Some f \<Rightarrow> file_close V f)
     (file_write (dev V) ''/log.txt'' ''a+'' x (world (sketch_of w)))"

lemma sketch_of_sendContent [simp]: "sketch_of (sendContent x w) = sketch_of w"
  by (auto simp: sendContent_def sketch_of_def)

lemma close_upload_fields:
  "world (sketch_of (close_upload V (set_sketch ((sketch_of w)\<lparr>clk := c, world := y\<rparr>) w)))
     = (case fsUploadFile (app (user w)) of None \<Rightarrow> id | Some f \<Rightarrow> file_close V f) y"
  "currentArgs (close_upload V w) = currentArgs w" "currentUri (close_upload V w) = currentUri w"
  by (auto simp: close_upload_def on_app_def on_world_def sketch_of_def set_sketch_def split: option.splits)

section \<open>The first network and the first time\<close>

definition attempt :: "'w radio \<Rightarrow> nat \<Rightarrow> 'w \<Rightarrow> nat \<times> 'w" where
  "attempt R i w = waitForConnectResult R (delay_ms R 5000 (wifi_begin R (ssid ! i) (wifi_password ! i) w))"

lemma try_networks_step:
  "i < 2 \<Longrightarrow> try_networks R i w
     = (if fst (attempt R i w) = WL_CONNECTED then snd (attempt R i w) else try_networks R (i + 1) (snd (attempt R i w)))"
  by (subst try_networks.simps) (simp add: attempt_def case_prod_beta Let_def)

lemma try_networks_connects:
  assumes "i < 2" and "\<And>w. fst (attempt R i w) = WL_CONNECTED"
  shows "\<exists>j u. attempt R j u = (WL_CONNECTED, try_networks R 0 w)"
proof (cases "fst (attempt R 0 w) = WL_CONNECTED")
  case True
  then show ?thesis by (metis try_networks_step pos2 prod.collapse)
next
  case False
  with assms have "fst (attempt R 1 (snd (attempt R 0 w))) = WL_CONNECTED" by (cases i) (auto simp: less_Suc_eq numeral_2_eq_2)
  with False have "attempt R 1 (snd (attempt R 0 w)) = (WL_CONNECTED, try_networks R 0 w)"
    by (simp add: try_networks_step [of 0] try_networks_step [of "Suc 0"] prod_eq_iff)
  then show ?thesis by blast
qed

text \<open>The time server answers at once, and from its answer on the start takes less than a second:
  the worlds that follow an answer lie in \<open>W\<close>.\<close>

definition swift_sync :: "('f, 'w) device \<Rightarrow> 'w radio \<Rightarrow> 'w set \<Rightarrow> bool" where
  "swift_sync D R W \<longleftrightarrow> millis_steady (millis D)
     \<and> (\<forall>w n w'. syncProvider R w = (n, w') \<longrightarrow> n \<noteq> 0 \<and> unat n < 2 ^ 32 - 21600 \<and> snd (millis D w') \<in> W
          \<and> (\<forall>u \<in> W. fst (millis D u) - fst (millis D w') < 1000))
     \<and> (\<forall>u \<in> W. snd (millis D u) \<in> W \<and> (\<forall>x. file_write D ''/log.txt'' ''a+'' x u \<in> W))"

text \<open>An incoherent cache of another time is filled by the first reading of the clock.\<close>

definition filled :: "('f, 'w) sketch \<Rightarrow> ('f, 'w) sketch" where
  "filled s = s\<lparr>clk := (clk s)\<lparr>tm := the (breakTime (sysTime (clk s))), cacheTime := sysTime (clk s)\<rparr>\<rparr>"

lemma catch_up_below:
  "fst (ms w) - prevMillis c < 1000 \<Longrightarrow> catch_up ms c w = Some (c, snd (ms w))"
  by (subst catch_up.simps) (simp add: case_prod_beta Let_def not_le [symmetric])

lemma first_reading:
  assumes "fst (millis D (world s)) - prevMillis (clk s) < 1000" and "sysTime (clk s) < nextSyncTime (clk s)"
    and "cacheTime (clk s) \<noteq> sysTime (clk s)"
  shows "ask_clock (of_now (millis D) (tm_field g)) s = ask_clock (of_now (millis D) (tm_field g)) (filled s)"
proof -
  obtain e where e: "breakTime (sysTime (clk s)) = Some e" using breakTime_spec by blast
  let ?c = "(clk s)\<lparr>tm := e, cacheTime := sysTime (clk s)\<rparr>"
  have "catch_up (millis D) ?c (world s) = Some (?c, snd (millis D (world s)))"
    by (rule catch_up_below) (use assms(1) in simp)
  then show ?thesis
    using assms(2,3) e catch_up_below [where ms = "millis D", OF assms(1)]
    by (simp add: ask_clock_def of_now_def now_def sync_def not_le [symmetric] filled_def tm_field_def refreshCache_def)
qed

text \<open>The synchronisation at the start, up to the first reading of the calendar.\<close>

lemma synchronised:
  assumes S: "swift_sync D R W" and c: "clk s = clock_init" and t: "unixtime (lg s) = 0"
  obtains s1 s2 s3 n w where "write2logfile D x s = Some s1" "set_provider D (syncProvider R) s1 = Some s2"
    "await_time D (delay_ms R 5000) (set_interval 5 s2) = Some s3"
    "fst (syncProvider R w) = n" "quiet D W (filled (set_interval 21600 s3))" "sysTime (clk s3) = n"
    "cacheTime (clk s3) \<noteq> n" "fst (millis D (world s3)) - prevMillis (clk s3) < 1000"
    "n < nextSyncTime (clk (set_interval 21600 s3))" "lg s3 = lg s"
proof -
  have f: "tm_field g 0 clock_init = Some (g (tm (clock_init :: 'b clock)), clock_init)" for g
    by (simp add: tm_field_def refreshCache_def clock_init_def)
  define h where "h = (\<lambda>y. file_write D ''/log.txt'' ''a+'' y (world s))"
  obtain y where s1: "write2logfile D x s = Some (s\<lparr>clk := clock_init, world := h y\<rparr>)"
    using c t by (intro that) (simp add: write2logfile_def ask_cache_def printDate_def printTime_def day_def month_def year_def
      hour_def minute_def second_def f on_world_def h_def)
  let ?c0 = "(clock_init :: 'b clock)\<lparr>getTimePtr := Some (syncProvider R), nextSyncTime := 0\<rparr>"
  have ms: "millis_steady (millis D)" using S by (simp add: swift_sync_def)
  obtain k w where k: "catch_up (millis D) ?c0 (h y)
      = Some (?c0\<lparr>sysTime := of_nat k, prevMillis := 1000 * of_nat k\<rparr>, w)"
    using catch_up_returns [OF ms, of ?c0 "h y"] by (auto simp: clock_init_def)
  obtain n w2 where n: "syncProvider R w = (n, w2)" by (cases "syncProvider R w")
  obtain m w3 where m: "millis D w2 = (m, w3)" by (cases "millis D w2")
  have b: "n \<noteq> 0" "unat n < 2 ^ 32 - 21600" "w3 \<in> W" "\<forall>u \<in> W. fst (millis D u) - m < 1000"
    "\<forall>u \<in> W. snd (millis D u) \<in> W"
    using S [unfolded swift_sync_def, THEN conjunct2, THEN conjunct1, rule_format, OF n] m
      S [unfolded swift_sync_def, THEN conjunct2, THEN conjunct2] by simp_all
  let ?c = "?c0\<lparr>sysTime := n, nextSyncTime := n + 300, Status := timeSet, prevMillis := m\<rparr>"
  let ?s2 = "s\<lparr>clk := ?c, world := w3\<rparr>"
  have s2: "set_provider D (syncProvider R) (s\<lparr>clk := clock_init, world := h y\<rparr>) = Some ?s2"
    using k n m b(1) c by (simp add: set_provider_def setSyncProvider_def now_def sync_def setTime_def clock_init_def)
  have u: "unat (n + 21600) = unat n + 21600" "unat (n + 5) = unat n + 5"
    using b(2) by (simp_all add: unat_word_ariths)
  have lt: "n < n + 21600" "n < n + 5" using u by (simp_all add: word_less_nat_alt)
  let ?s3 = "?s2\<lparr>clk := ?c\<lparr>syncInterval := 5, nextSyncTime := n + 5\<rparr>, world := snd (millis D w3)\<rparr>"
  have r: "fst (millis D w3) - m < 1000" "snd (millis D w3) \<in> W" "fst (millis D (snd (millis D w3))) - m < 1000"
    using b(3-5) by blast+
  have "ask_clock (timeStatus (millis D)) (set_interval 5 ?s2) = Some (timeSet, ?s3)"
    using r(1) lt(2) catch_up_below [where ms = "millis D" and w = w3 and c = "?c\<lparr>syncInterval := 5, nextSyncTime := n + 5\<rparr>"]
    by (simp add: ask_clock_def timeStatus_def set_interval_def setSyncInterval_def now_def sync_def not_le [symmetric])
  then have s3: "await_time D (delay_ms R 5000) (set_interval 5 ?s2) = Some ?s3"
    by (subst await_time.simps) simp
  have q: "quiet D W (filled (set_interval 21600 ?s3))"
    using r(2) b(4,5) lt(1) breakTime_spec [of n]
    by (auto simp: quiet_def filled_def set_interval_def setSyncInterval_def cache_ok_def)
  have "fst (syncProvider R w) = n" using n by simp
  then show ?thesis
    by (rule that [OF s1 s2 s3 _ q]) (use n b(1) r(3) lt(1) in \<open>simp_all add: clock_init_def set_interval_def setSyncInterval_def\<close>)
qed

text \<open>The two messages that end the synchronisation.\<close>

lemma announced:
  assumes q: "quiet D W s" and L: "\<forall>u \<in> W. \<forall>x. file_write D ''/log.txt'' ''a+'' x u \<in> W"
  obtains s' where "announce D s = Some s'" "calm D W s s'"
proof -
  let ?t = "unixtime (lg s)"
  have w: "cache_ok (clk s)" "world s \<in> W" using q by (simp_all add: quiet_def)
  obtain h c1 where c1: "printTime ?t (clk s) = Some (h, c1)" "recached (clk s) c1"
    by (rule printTime_recached [OF w(1)])
  let ?s1 = "s\<lparr>clk := c1, world := world s\<rparr>"
  have k1: "calm D W s ?s1" by (rule recached_calm [OF q c1(2) w(2)])
  obtain s2 where s2: "write2logfile D (''Current Time ('' @ (if sommerzeit (lg s) then ''MESZ'' else ''MEZ'') @ ''): '' @ h)
      ?s1 = Some s2" "calm D W ?s1 s2"
    by (rule log_calm [OF calm_quiet [OF k1] L])
  have w2: "cache_ok (clk s2)" "world s2 \<in> W" "lg s2 = lg s"
    using calm_quiet [OF s2(2)] calm_fields(1) [OF s2(2)] by (simp_all add: quiet_def)
  obtain d c3 where c3: "printDate (timelib_of D) ?t (clk s2) = Some (d, c3)" "recached (clk s2) c3"
    by (rule printDate_recached [OF w2(1)])
  let ?s3 = "s2\<lparr>clk := c3, world := world s2\<rparr>"
  have k3: "calm D W s2 ?s3" by (rule recached_calm [OF calm_quiet [OF s2(2)] c3(2) w2(2)])
  obtain s4 where s4: "write2logfile D (''Current Date: '' @ d) ?s3 = Some s4" "calm D W ?s3 s4"
    by (rule log_calm [OF calm_quiet [OF k3] L])
  have "announce D s = Some s4"
    using c1(1) s2(1) w2(3) c3(1) s4(1) by (simp add: announce_def ask_cache_def)
  then show ?thesis
    by (rule that [OF _ calm_trans [OF k1 calm_trans [OF s2(2) calm_trans [OF k3 s4(2)]]]])
qed

section \<open>Properties\<close>

text \<open>C31: the settings and the files are behind the password: on \<open>/setup.html\<close> and \<open>/spiffs.html\<close>, whatever
  the method and the arguments, a request whose credentials \<open>authenticate\<close> rejects is answered with
  the demand for a login, and neither the sketch nor the files change.\<close>

theorem settings_secured:
  assumes "currentUri w = ''/setup.html'' \<or> currentUri w = ''/spiffs.html''"
    and "currentHandler w = find_handler 0 (chain (esp_handlers V u)) (currentMethod w) (currentUri w)"
    and "authenticate (encode (upd V)) ''user'' ''Passwd'' w = Some False"
  shows "handleRequest (esp_handlers V u) w = Some ((requestAuthentication w)\<lparr>currentUri := []\<rparr>)
     \<and> user (requestAuthentication w) = user w"
proof -
  have "user (requestAuthentication w) = user w" by (simp add: requestAuthentication_user)
  moreover have "handleRequest (esp_handlers V u) w = Some ((requestAuthentication w)\<lparr>currentUri := []\<rparr>)"
    using assms by (auto simp: handleRequest_def current_handler_def esp_found esp_chain arr_get_def secured_def
      www_username_def www_password_def)
  ultimately show ?thesis by simp
qed

lemma settings_secured_witness:
  "user (requestAuthentication (demo_web\<lparr>currentUri := ''/setup.html'', currentHandler := Some 3,
     currentArgs := [(''port'', ''80'')]\<rparr>)) = demo_page"
  using settings_secured [of "demo_web\<lparr>currentUri := ''/setup.html'', currentHandler := Some 3,
     currentArgs := [(''port'', ''80'')]\<rparr>" demo_webdev demo_page]
  by (simp add: esp_found authenticate_def hasHeader_def demo_web_def web_init_def)

text \<open>C32: an upload deletes files without a password: a POST to \<open>/upload\<close> whose query carries \<open>Delete\<close> and the
  name of a file removes that file when its upload ends. The headers of the request play no part.\<close>

theorem upload_deletes_unauthenticated:
  assumes "currentUri w = ''/upload''" and "currentMethod w = HTTP_POST"
    and "currentHandler w = find_handler 0 (chain (esp_handlers V u)) HTTP_POST ''/upload''"
    and "status (currentUpload w) = UPLOAD_FILE_END"
    and "hasArg ''Delete'' (currentArgs w)"
    and "\<forall>x. find (\<lambda>(name, n). arg ''file'' (currentArgs w) = escape_path name) (openDir V (upload_ended V x w))
               = Some (victim, n)"
  shows "\<exists>w' x x'. call_upload (esp_handlers V u) w = Some w'
     \<and> world (sketch_of w') = file_write (dev V) ''/log.txt'' ''a+'' x' (fs_remove V victim (upload_ended V x w))"
proof -
  obtain c x where l: "log_sk V (''Neue Datei gespeichert: '' @ filename (currentUpload w)) w
      = Some (set_sketch ((sketch_of w)\<lparr>clk := c, world := file_write (dev V) ''/log.txt'' ''a+'' x (world (sketch_of w))\<rparr>) w)"
    by (rule log_sk_returns)
  define w1 where "w1 = close_upload V (set_sketch ((sketch_of w)\<lparr>clk := c,
      world := file_write (dev V) ''/log.txt'' ''a+'' x (world (sketch_of w))\<rparr>) w)"
  have w1: "world (sketch_of w1) = upload_ended V x w" "currentArgs w1 = currentArgs w" "currentUri w1 = currentUri w"
    by (simp_all add: w1_def close_upload_fields upload_ended_def)
  have run: "call_upload (esp_handlers V u) w = handleSpiffs V w1"
    using assms(1-4) l by (simp add: call_upload_def current_handler_def esp_found esp_chain arr_get_def
      handleFileUpload_def Let_def w1_def)
  have del: "handleSpiffs V w1 = delete_file V victim w1"
    using assms(5) assms(6) [rule_format, of x] by (simp add: handleSpiffs_def w1)
  define w2 where "w2 = set_sketch (on_world (fs_remove V victim) (sketch_of w1)) w1"
  obtain c' x' where l': "log_sk V (''Datei '' @ victim @ '' geloescht'') w2
      = Some (set_sketch ((sketch_of w2)\<lparr>clk := c', world := file_write (dev V) ''/log.txt'' ''a+'' x' (world (sketch_of w2))\<rparr>) w2)"
    by (rule log_sk_returns)
  have "on_sk (\<lambda>s. Some (on_world (fs_remove V victim) s)) w1 = Some w2"
    by (simp add: on_sk_def w2_def)
  with l' have "\<exists>w'. delete_file V victim w1 = Some w'
      \<and> world (sketch_of w') = file_write (dev V) ''/log.txt'' ''a+'' x' (world (sketch_of w2))"
    by (simp add: delete_file_def)
  moreover have "world (sketch_of w2) = fs_remove V victim (upload_ended V x w)"
    by (simp add: w2_def on_world_def w1(1))
  ultimately show ?thesis unfolding run del by fastforce
qed

lemma upload_deletes_unauthenticated_witness:
  "\<exists>w'. call_upload (esp_handlers demo_webdev demo_page) (demo_web\<lparr>currentUri := ''/upload'', currentMethod := HTTP_POST,
       currentHandler := Some 5, currentArgs := [(''Delete'', ''X''), (''file'', ''/log.txt'')]\<rparr>) = Some w'
     \<and> world (sketch_of w') = False"
proof -
  have e: "escape_path ''/log.txt'' = ''/log.txt''" by (simp add: escape_path_def escapes_def replace_all.simps)
  let ?w = "demo_web\<lparr>currentUri := ''/upload'', currentMethod := HTTP_POST,
       currentHandler := Some 5, currentArgs := [(''Delete'', ''X''), (''file'', ''/log.txt'')]\<rparr>"
  have "upload_ended demo_webdev x ?w" for x
    by (simp add: upload_ended_def demo_web_def web_init_def demo_page_def update_init_def demo_webdev_def
        demo_device_def demo_sketch_def sketch_of_def)
  then have "\<forall>x. find (\<lambda>(name, n). arg ''file'' (currentArgs ?w) = escape_path name)
      (openDir demo_webdev (upload_ended demo_webdev x ?w)) = Some (''/log.txt'', 7)"
    using e by (simp add: arg_def) (simp add: demo_webdev_def)
  from upload_deletes_unauthenticated [OF _ _ _ _ _ this, of demo_page]
  have "\<exists>w' x x'. call_upload (esp_handlers demo_webdev demo_page) ?w = Some w'
     \<and> world (sketch_of w') = file_write (dev demo_webdev) ''/log.txt'' ''a+'' x'
         (fs_remove demo_webdev ''/log.txt'' (upload_ended demo_webdev x ?w))"
    by (simp add: esp_found hasArg_def demo_web_def web_init_def no_upload_def)
  then show ?thesis by (simp add: demo_webdev_def demo_device_def)
qed

text \<open>The start waits for a network: when one of the two configured networks lets the station in
  and a connection found stays until the next look, \<open>setupWifi\<close> returns, with the station
  connected, and then names the station.\<close>

theorem network_joined:
  assumes "i < 2" and "\<And>w. fst (attempt R i w) = WL_CONNECTED"
    and "\<And>w w'. waitForConnectResult R w = (WL_CONNECTED, w') \<Longrightarrow> fst (waitForConnectResult R w') = WL_CONNECTED"
  shows "\<exists>u v. setupWifi R w = Some (wifi_hostname R hostname v) \<and> waitForConnectResult R u = (WL_CONNECTED, v)"
proof -
  have "\<exists>u v. connect_loop R w = Some v \<and> waitForConnectResult R u = (WL_CONNECTED, v)" for w
  proof (cases "fst (waitForConnectResult R w) = WL_CONNECTED")
    case True
    then obtain v where v: "waitForConnectResult R w = (WL_CONNECTED, v)" by (metis prod.collapse)
    then have "connect_loop R w = Some v" by (subst connect_loop.simps) simp
    with v show ?thesis by blast
  next
    case False
    let ?w = "try_networks R 0 (snd (waitForConnectResult R w))"
    obtain j u where "attempt R j u = (WL_CONNECTED, ?w)"
      using try_networks_connects [OF assms(1,2)] by blast
    then have "fst (waitForConnectResult R ?w) = WL_CONNECTED" using assms(3) unfolding attempt_def by blast
    then obtain v where v: "waitForConnectResult R ?w = (WL_CONNECTED, v)" by (metis prod.collapse)
    have "connect_loop R w = connect_loop R ?w"
      by (subst connect_loop.simps) (use False in \<open>simp add: case_prod_beta\<close>)
    moreover have "connect_loop R ?w = Some v" by (subst connect_loop.simps) (use v in simp)
    ultimately show ?thesis using v by metis
  qed
  then show ?thesis by (fastforce simp: setupWifi_def)
qed

definition demo_radio :: "bool radio" where
  "demo_radio = \<lparr>wifi_persistent = (\<lambda>_ w. w), setOutputPower = (\<lambda>w. w), wifi_mode_sta = (\<lambda>w. False),
     waitForConnectResult = (\<lambda>w. (if w then 3 else 6, w)), wifi_begin = (\<lambda>s p w. s = ''SSID2''),
     wifi_hostname = (\<lambda>_ w. w), delay_ms = (\<lambda>_ w. w), fs_begin = (\<lambda>w. (True, w)),
     syncProvider = (\<lambda>w. (300, w))\<rparr>"

lemma network_joined_witness: "setupWifi demo_radio False = Some True"
proof -
  have "fst (attempt demo_radio 1 w) = WL_CONNECTED" for w
    by (simp add: attempt_def demo_radio_def ssid_def WL_CONNECTED_def)
  moreover have "waitForConnectResult demo_radio w = (WL_CONNECTED, w')
      \<Longrightarrow> fst (waitForConnectResult demo_radio w') = WL_CONNECTED" for w w'
    by (auto simp: demo_radio_def WL_CONNECTED_def split: if_splits)
  ultimately have "\<exists>u v. setupWifi demo_radio False = Some (wifi_hostname demo_radio hostname v)
      \<and> waitForConnectResult demo_radio u = (WL_CONNECTED, v)"
    by (intro network_joined [of 1]) simp_all
  then show ?thesis by (auto simp: demo_radio_def WL_CONNECTED_def split: if_splits)
qed



end
