(* ===== verification/Logger_Typed.thy ===== *)
theory Logger_Typed
  imports Logger_Boot
begin

text \<open>
  The types of the sketch's data over whole runs of the program (\<open>src/*.ino\<close>). \<open>logger_wf\<close> holds the sizes
  that the declarations give the arrays. Every operation on them is shown to keep it, from the storage up
  to the pages; \<open>sketch_run\<close> is the step relation of the program, and \<open>run_typed\<close> follows by rule
  induction. The rules are collected in \<open>typing\<close>, so that a function is typed by following its calls.
\<close>

named_theorems typing

section \<open>Storage\<close>

lemma put_typed [typing]: "eeprom_put a bs e = Some e' \<Longrightarrow> eeprom_wf e \<Longrightarrow> eeprom_wf e'"
  by (auto simp: eeprom_put_def eeprom_wf_def length_blit split: if_splits option.splits)

lemma write_typed [typing]: "eeprom_wf e \<Longrightarrow> eeprom_wf (eeprom_write a b e)"
  by (auto simp: eeprom_write_def eeprom_wf_def Let_def split: option.splits)

lemma commit_typed [typing]: "eeprom_wf e \<Longrightarrow> eeprom_wf (fst (snd (eeprom_commit F e f)))"
  by (auto simp: eeprom_commit_def eeprom_wf_def split: option.splits prod.split bool.splits)

lemma end_typed [typing]: "eeprom_wf e \<Longrightarrow> eeprom_wf (fst (eeprom_end F e f))"
  by (auto simp: eeprom_end_def eeprom_wf_def split: prod.split option.split)

lemma deleteEEPROM_loop_typed [typing]: "deleteEEPROM_loop js e = Some e' \<Longrightarrow> eeprom_wf e \<Longrightarrow> eeprom_wf e'"
  by (induction js arbitrary: e) (auto simp: bind_eq_Some_conv dest: put_typed)

section \<open>Operations of the logger\<close>

text \<open>An operation keeps the sizes of the arrays.\<close>

definition keeps :: "('f logger \<Rightarrow> 'f logger option) \<Rightarrow> bool" where
  "keeps f \<longleftrightarrow> (\<forall>l l'. f l = Some l' \<longrightarrow> logger_wf l \<longrightarrow> logger_wf l')"

lemma keepsI: "(\<And>l l'. f l = Some l' \<Longrightarrow> logger_wf l \<Longrightarrow> logger_wf l') \<Longrightarrow> keeps f"
  by (simp add: keeps_def)

lemma keepsD: "keeps f \<Longrightarrow> f l = Some l' \<Longrightarrow> logger_wf l \<Longrightarrow> logger_wf l'"
  by (auto simp: keeps_def)

lemma arr_set_length: "arr_set xs i v = Some ys \<Longrightarrow> length ys = length xs"
  by (auto simp: arr_set_def split: if_splits)

lemma keeps_ausgabe [typing]: "keeps (set_value i v)" "keeps (show_value B i x p)"
  by (auto intro!: keepsI simp: set_value_def show_value_def logger_wf_def bind_eq_Some_conv arr_set_def split: if_splits)

lemma keeps_table [typing]: "keeps (\<lambda>l. tc_set l m d v)"
proof (rule keepsI)
  fix l l' :: "'a logger" assume t: "tc_set l m d v = Some l'" and wf: "logger_wf l"
  then have m: "m < length (tagesCounter l)" and l': "l' = l\<lparr>tagesCounter := (tagesCounter l)[m := (tagesCounter l ! m)[d := v]]\<rparr>"
    by (auto simp: tc_set_def bind_eq_Some_conv arr_set_def arr_get_def split: if_splits)
  have "length (tagesCounter l ! m) = anzahlTage + 1" using wf m by (simp add: logger_wf_def)
  then have "length r = anzahlTage + 1" if "r \<in> set ((tagesCounter l)[m := (tagesCounter l ! m)[d := v]])" for r
    using set_update_subset_insert [THEN subsetD, OF that] wf by (auto simp: logger_wf_def)
  then show "logger_wf l'" using wf l' by (simp add: logger_wf_def)
qed

lemma wf_eeprom [simp]: "logger_wf l \<Longrightarrow> eeprom_wf e \<Longrightarrow> logger_wf (l\<lparr>ee := e, flash := f\<rparr>)"
  and wf_ee: "logger_wf l \<Longrightarrow> eeprom_wf (ee l)"
  by (simp_all add: logger_wf_def)

lemma put_wf: "eeprom_put a bs (ee l) = Some e \<Longrightarrow> logger_wf l \<Longrightarrow> eeprom_wf e"
  and delete_wf: "deleteEEPROM_loop js (ee l) = Some e \<Longrightarrow> logger_wf l \<Longrightarrow> eeprom_wf e"
  using put_typed deleteEEPROM_loop_typed wf_ee by blast+

lemma keeps_eeprom [typing]: "keeps (putEeprom B tmp m d)" "keeps (putEepromValue B a v)" "keeps (deleteEEPROM B)"
proof -
  show "keeps (putEeprom B tmp m d)"
    by (rule keepsI) (auto simp: putEeprom_def bind_eq_Some_conv split_beta split: if_splits dest: put_wf intro!: wf_eeprom commit_typed)
  show "keeps (putEepromValue B a v)"
    by (rule keepsI) (auto simp: putEepromValue_def bind_eq_Some_conv split_beta dest: put_wf intro!: wf_eeprom commit_typed)
  show "keeps (deleteEEPROM B)"
    by (rule keepsI) (auto simp: deleteEEPROM_def bind_eq_Some_conv split_beta dest: delete_wf intro!: wf_eeprom commit_typed end_typed)
qed

lemma keeps_Some [typing]: "(\<And>l. logger_wf l \<Longrightarrow> logger_wf (g l)) \<Longrightarrow> keeps (\<lambda>l. Some (g l))"
  by (simp add: keeps_def)

lemmas step = keepsD [OF keeps_ausgabe(1)] keepsD [OF keeps_ausgabe(2)] keepsD [OF keeps_table] keepsD [OF keeps_eeprom(1)]
  keepsD [OF keeps_eeprom(2)] keepsD [OF keeps_eeprom(3)]

lemma wf_update [simp]:
  "logger_wf (l\<lparr>counter := n\<rparr>) = logger_wf l" "logger_wf (l\<lparr>today := x\<rparr>) = logger_wf l" "logger_wf (l\<lparr>yesterday := x\<rparr>) = logger_wf l"
  "logger_wf (l\<lparr>sommerzeit := b\<rparr>) = logger_wf l" "logger_wf (l\<lparr>unixtime := n\<rparr>) = logger_wf l"
  "logger_wf (l\<lparr>generatorLeistung := n\<rparr>) = logger_wf l" "logger_wf (l\<lparr>impulseProKwh := n\<rparr>) = logger_wf l"
  "logger_wf (l\<lparr>offset := n\<rparr>) = logger_wf l" "logger_wf (l\<lparr>compensation := n\<rparr>) = logger_wf l"
  "logger_wf (l\<lparr>fhemPort := n\<rparr>) = logger_wf l" "logger_wf (l\<lparr>interval := n\<rparr>) = logger_wf l"
  by (simp_all add: logger_wf_def)

lemma keeps_add_value [typing]: "keeps (add_value B i t)"
  by (auto intro!: keepsI simp: add_value_def bind_eq_Some_conv dest!: step)

lemma keeps_meter_add [typing]: "keeps (meter_add B m d)"
  by (auto intro!: keepsI simp: meter_add_def bind_eq_Some_conv Let_def dest!: step keepsD [OF keeps_add_value])

lemma keeps_meter_power [typing]: "keeps (meter_power B hh mm)"
proof (rule keepsI)
  fix l l' assume f: "meter_power B hh mm l = Some l'" "logger_wf l"
  have "logger_wf (k\<lparr>fuenfMinutenZaehler := fs\<rparr>)"
    if "logger_wf k" "arr_set (fuenfMinutenZaehler k) i v = Some fs" for k :: "'a logger" and i v fs
    using that by (auto simp: logger_wf_def dest: arr_set_length)
  with f show "logger_wf l'"
    by (auto simp: meter_power_def bind_eq_Some_conv Let_def split: if_splits dest!: step)
qed

lemma keeps_timer [typing]: "keeps (FuenfMinutenTimer B st hh mm m d)"
  by (auto intro!: keepsI simp: FuenfMinutenTimer_def bind_eq_Some_conv split: if_splits
      dest!: step keepsD [OF keeps_meter_add] keepsD [OF keeps_meter_power])

lemma keeps_clear_days [typing]: "keeps (clear_days m is)"
proof (rule keepsI)
  show "clear_days m is l = Some l' \<Longrightarrow> logger_wf l \<Longrightarrow> logger_wf l'" for l l'
    by (induction "is" arbitrary: l) (auto simp: bind_eq_Some_conv dest: step)
qed

lemma keeps_new_counters [typing]: "keeps new_counters"
proof (rule keepsI)
  fix l l' assume f: "new_counters l = Some l'" "logger_wf l"
  have "logger_wf (l\<lparr>fuenfMinutenZaehler := map (\<lambda>_. 0) (fuenfMinutenZaehler l)\<rparr>)" using f(2) by (simp add: logger_wf_def)
  with f(1) show "logger_wf l'"
    by (auto simp: new_counters_def bind_eq_Some_conv split: if_splits dest!: step keepsD [OF keeps_clear_days])
qed

lemma keeps_deleteRAM [typing]: "keeps (deleteRAM B)"
proof (rule keepsI)
  fix l l' assume f: "deleteRAM B l = Some l'" "logger_wf l"
  have "logger_wf (l\<lparr>tagesCounter := map (map (\<lambda>_. 0)) (tagesCounter l)\<rparr>)" using f(2) by (auto simp: logger_wf_def)
  with f(1) show "logger_wf l'" by (auto simp: deleteRAM_def bind_eq_Some_conv dest!: step)
qed

lemma keeps_store_ip [typing]: "keeps (store_ip i xs)"
proof (rule keepsI)
  show "store_ip i xs l = Some l' \<Longrightarrow> logger_wf l \<Longrightarrow> logger_wf l'" for l l'
  proof (induction xs arbitrary: i l)
    case (Cons x xs)
    from Cons.prems(1) obtain hs where hs: "arr_set (fhemHost l) i (of_int (toInt x)) = Some hs"
      "store_ip (i + 1) xs (l\<lparr>fhemHost := hs, ee := eeprom_write (int (adresseEepromFhemHost + i * 2)) (of_int (toInt x)) (ee l)\<rparr>) = Some l'"
      by (auto simp: bind_eq_Some_conv Let_def)
    show ?case by (rule Cons.IH [OF hs(2)]) (use Cons.prems(2) hs(1) in \<open>auto simp: logger_wf_def dest: arr_set_length intro: write_typed\<close>)
  qed simp
qed


section \<open>Operations of the sketch\<close>

text \<open>The results of a step, without and with a value: when there is one, the logger is well-formed.\<close>

definition typed :: "('f, 'w) sketch option \<Rightarrow> bool" where
  "typed r \<longleftrightarrow> (\<forall>s. r = Some s \<longrightarrow> logger_wf (lg s))"

definition typed_val :: "('a \<times> ('f, 'w) sketch) option \<Rightarrow> bool" where
  "typed_val r \<longleftrightarrow> (\<forall>x s. r = Some (x, s) \<longrightarrow> logger_wf (lg s))"

lemma typed_Some [typing]: "logger_wf (lg s) \<Longrightarrow> typed (Some s)"
  and typed_val_Some [typing]: "logger_wf (lg s) \<Longrightarrow> typed_val (Some (x, s))"
  by (simp_all add: typed_def typed_val_def)

lemma typed_bind [typing]:
  "typed r \<Longrightarrow> (\<And>s. logger_wf (lg s) \<Longrightarrow> typed (f s)) \<Longrightarrow> typed (Option.bind r f)"
  "typed_val q \<Longrightarrow> (\<And>x s. logger_wf (lg s) \<Longrightarrow> typed (g x s)) \<Longrightarrow> typed (Option.bind q (\<lambda>(x, s). g x s))"
  "(\<And>x. typed (h x)) \<Longrightarrow> typed (Option.bind (get_value l i) h)"
  "typed_val q \<Longrightarrow> (\<And>x s. logger_wf (lg s) \<Longrightarrow> typed_val (k x s)) \<Longrightarrow> typed_val (Option.bind q (\<lambda>(x, s). k x s))"
  by (auto simp: typed_def typed_val_def bind_eq_Some_conv)

lemma typed_if [typing]: "(b \<Longrightarrow> typed r) \<Longrightarrow> (\<not> b \<Longrightarrow> typed q) \<Longrightarrow> typed (if b then r else q)"
  "(b \<Longrightarrow> typed_val t) \<Longrightarrow> (\<not> b \<Longrightarrow> typed_val u) \<Longrightarrow> typed_val (if b then t else u)"
  by auto

lemma typed_on_lg [typing]: "keeps f \<Longrightarrow> logger_wf (lg s) \<Longrightarrow> typed (on_lg f s)"
  by (auto simp: on_lg_def typed_def keeps_def)

lemma typed_ask [typing]: "logger_wf (lg s) \<Longrightarrow> typed_val (ask_clock f s)" "logger_wf (lg s) \<Longrightarrow> typed_val (ask_cache g t s)"
  by (auto simp: ask_clock_def ask_cache_def typed_val_def split: option.splits)

lemma only_world_lg: "only_world s s' \<Longrightarrow> lg s' = lg s"
  unfolding only_world_def by (erule ssubst) simp

lemma typed_report [typing]: "logger_wf (lg s) \<Longrightarrow> typed (CreateSensorString D C s)"
  using only_world_lg [OF CreateSensorString_world] by (metis typed_def)

lemma on_world_lg [simp]: "lg (on_world f s) = lg s" by (simp add: on_world_def)

lemma typed_files [typing]: "logger_wf (lg s) \<Longrightarrow> typed (write2logfile D x s)" "logger_wf (lg s) \<Longrightarrow> typed (backup2file D s)"
  unfolding write2logfile_def by (intro typing; simp) (auto simp: backup2file_def typed_def bind_eq_Some_conv)

lemma typed_date_of [typing]: "logger_wf (lg s) \<Longrightarrow> typed_val (date_of D t s)"
  unfolding date_of_def by (intro typing)

lemma typed_local_time [typing]: "logger_wf (lg s) \<Longrightarrow> typed (local_time D s)"
  unfolding local_time_def Let_def by (intro typing) simp_all

lemma typed_timer [typing]: "logger_wf (lg s) \<Longrightarrow> typed (timer D m d s)"
  unfolding timer_def by (intro typing)

lemma typed_new_day [typing]: "logger_wf (lg s) \<Longrightarrow> typed (new_day D C s)"
  unfolding new_day_def Let_def by (intro typing)

lemma typed_same_day [typing]: "logger_wf (lg s) \<Longrightarrow> typed (same_day D C t s)"
  unfolding same_day_def Let_def by (intro typing) (simp_all split: prod.split)

lemma typed_show_radio [typing]: "logger_wf (lg s) \<Longrightarrow> typed (show_radio D s)"
  unfolding show_radio_def by (intro typing)

lemma typed_five_minutes [typing]: "logger_wf (lg s) \<Longrightarrow> typed (every_five_minutes D C s)"
  unfolding every_five_minutes_def Let_def by (intro typing) simp_all

lemma typed_minute [typing]: "logger_wf (lg s) \<Longrightarrow> typed (every_minute D C s)"
  unfolding every_minute_def by (intro typing)

lemma led_lg [simp]: "lg (flashLed D b s) = lg s" "lg (snd (read_millis D s)) = lg s"
  by (simp_all add: flashLed_def read_millis_def split: prod.split)

lemma typed_read [typing]:
  "(\<And>m t. lg t = lg s \<Longrightarrow> typed (f m t)) \<Longrightarrow> typed (case read_millis D s of (m, t) \<Rightarrow> f m t)"
  by (auto simp: read_millis_def split: prod.split)

lemma typed_loop [typing]: "logger_wf (lg s) \<Longrightarrow> typed (loop_sketch D C s)"
  unfolding loop_sketch_def Let_def by (intro typing) simp_all

section \<open>Pages\<close>

definition page_typed :: "('f, 'w) page_web option \<Rightarrow> bool" where
  "page_typed r \<longleftrightarrow> (\<forall>w. r = Some w \<longrightarrow> logger_wf (lg (sketch_of w)))"

definition page_typed_val :: "('a \<times> ('f, 'w) page_web) option \<Rightarrow> bool" where
  "page_typed_val r \<longleftrightarrow> (\<forall>x w. r = Some (x, w) \<longrightarrow> logger_wf (lg (sketch_of w)))"

lemma page_Some [typing]: "logger_wf (lg (sketch_of w)) \<Longrightarrow> page_typed (Some w)"
  "logger_wf (lg (sketch_of w)) \<Longrightarrow> page_typed_val (Some (x, w))"
  by (simp_all add: page_typed_def page_typed_val_def)

lemma page_bind [typing]:
  "page_typed r \<Longrightarrow> (\<And>w. logger_wf (lg (sketch_of w)) \<Longrightarrow> page_typed (f w)) \<Longrightarrow> page_typed (Option.bind r f)"
  "page_typed_val q \<Longrightarrow> (\<And>x w. logger_wf (lg (sketch_of w)) \<Longrightarrow> page_typed (g x w)) \<Longrightarrow> page_typed (Option.bind q (\<lambda>(x, w). g x w))"
  by (auto simp: page_typed_def page_typed_val_def bind_eq_Some_conv)

lemma page_pure: "(\<And>x. r = Some x \<Longrightarrow> page_typed (f x)) \<Longrightarrow> page_typed (Option.bind r f)"
  by (cases r) (auto simp: page_typed_def)

lemmas page_pures [typing] = page_pure [of "fhemIp l" for l] page_pure [of "get_value l i" for l i]
  page_pure [of "arr_get xs i" for xs i] page_pure [of "those xs" for xs] page_pure [of "graph l" for l]
  page_pure [of "file_rows V xs" for V xs] page_pure [of "formatBytes D n" for D n]
  page_pure [of "authenticate e u p w" for e u p w]

lemma page_if [typing]: "(b \<Longrightarrow> page_typed r) \<Longrightarrow> (\<not> b \<Longrightarrow> page_typed q) \<Longrightarrow> page_typed (if b then r else q)"
  "(b \<Longrightarrow> page_typed_val t) \<Longrightarrow> (\<not> b \<Longrightarrow> page_typed_val u) \<Longrightarrow> page_typed_val (if b then t else u)"
  by auto

lemma page_on_sk [typing]: "typed (f (sketch_of w)) \<Longrightarrow> page_typed (on_sk f w)"
  by (auto simp: on_sk_def page_typed_def typed_def)

lemma page_ask_sk [typing]: "typed_val (f (sketch_of w)) \<Longrightarrow> page_typed_val (ask_sk f w)"
  by (auto simp: ask_sk_def page_typed_val_def typed_val_def)

lemma page_log [typing]: "logger_wf (lg (sketch_of w)) \<Longrightarrow> page_typed (log_sk V x w)"
  "logger_wf (lg (sketch_of w)) \<Longrightarrow> page_typed (store_sk V a v w)"
  unfolding log_sk_def store_sk_def by (intro typing; assumption)+

lemma user_same [simp]: "sketch_of (contentOutput c w) = sketch_of w" "sketch_of (requestAuthentication w) = sketch_of w"
  by (simp_all add: sketch_of_def contentOutput_def Let_def send_user requestAuthentication_user sendHeader_def
      setContentLength_def)

lemma keeps_commit [typing]:
  "keeps (\<lambda>l. case eeprom_commit F (ee l) (flash l) of (x, e, f) \<Rightarrow> Some (l\<lparr>ee := e, flash := f\<rparr>))"
  by (rule keepsI) (auto simp: split_beta intro!: wf_eeprom commit_typed wf_ee)

lemma page_settings [typing]:
  assumes "logger_wf (lg (sketch_of w))"
  shows "page_typed (set_generator V v w)" "page_typed (set_couterconst V v w)" "page_typed (set_offset V v w)"
    "page_typed (set_compensation V v w)" "page_typed (set_ip V v w)" "page_typed (set_port V v w)"
    "page_typed (clear_all V w)" "page_typed (restart_now V w)"
  using assms unfolding set_generator_def set_couterconst_def set_offset_def set_compensation_def set_ip_def set_port_def
    clear_all_def restart_now_def Let_def
  by (intro typing; simp; fail)+

lemma page_setup_arg [typing]: "logger_wf (lg (sketch_of w)) \<Longrightarrow> page_typed (setup_arg V a w)"
  unfolding setup_arg_def Let_def by (intro typing)

lemma page_setup_args [typing]: "logger_wf (lg (sketch_of w)) \<Longrightarrow> page_typed (setup_args V as w)"
proof (induction "as" arbitrary: w)
  case (Cons a as)
  show ?case unfolding setup_args.simps by (intro typing Cons)
qed (simp add: page_typed_def)

lemma typed_february [typing]: "logger_wf (lg s) \<Longrightarrow> typed_val (february_last D s)"
  unfolding february_last_def by (intro typing)

lemma page_handlers [typing]:
  assumes "logger_wf (lg (sketch_of w))"
  shows "page_typed (handleRoot V w)" "page_typed (handleSetup V w)" "page_typed (handleViewErtrag V w)"
  using assms unfolding handleRoot_def handleSetup_def handleViewErtrag_def Let_def
  by (intro typing; simp; fail)+

lemma page_json [typing]: "logger_wf (lg (sketch_of w)) \<Longrightarrow> page_typed (handleJsonArgs V w)"
  unfolding handleJsonArgs_def Let_def by (intro page_bind(1) page_log page_pure page_Some; simp)

lemma sketch_of_same [simp]: "sketch_of (sendContent x w) = sketch_of w"
  "lg (sketch_of (close_upload V w)) = lg (sketch_of w)" "lg (sketch_of (open_upload V n w)) = lg (sketch_of w)"
  by (auto simp: sketch_of_def sendContent_def close_upload_def open_upload_def on_app_def Let_def on_world_def
      split: option.splits prod.splits)

lemma sketch_of_app [simp]: "lg (sketch_of (on_app (\<lambda>p. p\<lparr>sk := on_world g (sk p)\<rparr>) w)) = lg (sketch_of w)"
  by (simp add: sketch_of_def on_app_def)

lemma page_file_list [typing]:
  assumes "logger_wf (lg (sketch_of w))"
  shows "page_typed (delete_file V n w)" "page_typed (list_files V i w)"
  using assms unfolding delete_file_def list_files_def by (intro typing; simp; fail)+

lemma page_files [typing]: "logger_wf (lg (sketch_of w)) \<Longrightarrow> page_typed (handleSpiffs V w)"
  unfolding handleSpiffs_def Let_def by (intro typing) (auto split: option.split intro: page_file_list)

lemma page_upload [typing]: "logger_wf (lg (sketch_of w)) \<Longrightarrow> page_typed (handleFileUpload V w)"
  unfolding handleFileUpload_def Let_def
  by (intro typing) (simp_all split: option.split)

lemma page_secured [typing]:
  "logger_wf (lg (sketch_of w)) \<Longrightarrow> page_typed (f w) \<Longrightarrow> page_typed (secured V f w)"
  unfolding secured_def by (intro typing) simp_all

section \<open>The start\<close>

lemma keeps_names [typing]: "keeps (set_names i n u)" "keeps (accumulate k v)"
  by (auto intro!: keepsI simp: set_names_def accumulate_def logger_wf_def bind_eq_Some_conv arr_set_def set_value_def
      split: if_splits)

lemma typed_pure: "(\<And>x. r = Some x \<Longrightarrow> typed (f x)) \<Longrightarrow> typed (Option.bind r f)"
  by (cases r) (auto simp: typed_def)

lemma typed_val_pure: "(\<And>x. r = Some x \<Longrightarrow> typed_val (f x)) \<Longrightarrow> typed_val (Option.bind r f)"
  by (cases r) (auto simp: typed_val_def)

lemma typed_val_bind [typing]:
  "typed r \<Longrightarrow> (\<And>s. logger_wf (lg s) \<Longrightarrow> typed_val (f s)) \<Longrightarrow> typed_val (Option.bind r f)"
  by (auto simp: typed_def typed_val_def bind_eq_Some_conv)

lemma typed_names:
  assumes "logger_wf (lg s)"
  shows "typed (setupStructAusgabe D s)"
proof -
  have step: "(\<And>l. logger_wf l \<Longrightarrow> typed (g l)) \<Longrightarrow> logger_wf l \<Longrightarrow> keeps f \<Longrightarrow> typed (Option.bind (f l) g)"
    for f g and l :: "'a logger"
    by (auto simp: typed_def keeps_def bind_eq_Some_conv)
  show ?thesis unfolding setupStructAusgabe_def Let_def by (intro step typing assms) simp
qed

lemmas typed_pures [typing] = typed_pure [of "tc_get l j i" for l j i] typed_pure [of "eeprom_get a b e" for a b e]
  typed_pure [of "arr_get xs i" for xs i]

lemma typed_restore_day [typing]: "logger_wf (lg s) \<Longrightarrow> typed (restore_day D j i s)"
  unfolding restore_day_def Let_def by (intro typing)

lemma typed_restore_days [typing]: "logger_wf (lg s) \<Longrightarrow> typed (restore_days D ps s)"
proof (induction ps arbitrary: s)
  case (Cons p ps)
  then show ?case by (cases p) (auto simp del: split_paired_All intro!: typed_bind(1) typed_restore_day)
qed (simp add: typed_def)

lemma typed_settings [typing]: "logger_wf (lg s) \<Longrightarrow> typed_val (restore_settings D tmp s)"
proof -
  have hosts: "logger_wf l \<Longrightarrow> logger_wf (restore_hosts l)" for l :: "'a logger"
    by (simp add: logger_wf_def restore_hosts_def)
  note pure = typed_val_pure [of "get_float a t l" for a t l] typed_val_pure [of "positive_or x c d" for x c d]
    typed_val_pure [of "fhemIp l" for l]
  show "logger_wf (lg s) \<Longrightarrow> typed_val (restore_settings D tmp s)"
    unfolding restore_settings_def log_setting_def by (intro pure typing) (simp_all add: hosts)
qed

lemma typed_show_restored [typing]: "logger_wf (lg s) \<Longrightarrow> typed (show_restored D tmp s)"
  unfolding show_restored_def Let_def by (intro typing)

text \<open>The flash returns as many bytes as are asked for.\<close>

definition reads_all :: "'f spi_flash \<Rightarrow> bool" where
  "reads_all F \<longleftrightarrow> 4 \<le> SPI_FLASH_SEC_SIZE F \<and> (\<forall>a n f. length (spi_flash_read F a n f) = n)"

lemma begin_typed: "reads_all F \<Longrightarrow> eeprom_wf e \<Longrightarrow> eeprom_wf (eeprom_begin F n e f)"
  by (auto simp: reads_all_def eeprom_begin_def eeprom_wf_def Let_def)

lemma typed_eeprom: "reads_all (spi (board D)) \<Longrightarrow> logger_wf (lg s) \<Longrightarrow> typed (setupEeprom D s)"
  unfolding setupEeprom_def Let_def
  by (intro typing) (simp_all add: logger_wf_def begin_typed)

lemma await_time_lg: "await_time D f s = Some t \<Longrightarrow> lg t = lg s"
proof (rule await_time.raw_induct [of "\<lambda>D f s t. lg t = lg s"])
  fix aw D f s t
  assume ih: "\<And>D f s t. aw D f s = Some t \<Longrightarrow> lg t = lg s"
    and eq: "Option.bind (ask_clock (timeStatus (millis D)) s)
        (\<lambda>(st, s). if st \<noteq> timeSet then aw D f (on_world f s) else Some s) = Some t"
  from eq obtain st u where u: "ask_clock (timeStatus (millis D)) s = Some (st, u)"
    "(if st \<noteq> timeSet then aw D f (on_world f u) else Some u) = Some t"
    by (auto simp: bind_eq_Some_conv)
  have "lg u = lg s" by (rule ask_clock_lg [OF u(1)])
  then show "lg t = lg s" using u(2) ih by (auto split: if_splits)
qed

lemma typed_await [typing]: "logger_wf (lg s) \<Longrightarrow> typed (await_time D f s)"
  by (simp add: typed_def await_time_lg)

lemma typed_provider [typing]: "logger_wf (lg s) \<Longrightarrow> typed (set_provider D p s)"
  by (auto simp: set_provider_def typed_def)

lemma typed_ntp: "logger_wf (lg s) \<Longrightarrow> typed (setupNtp D R s)"
  unfolding setupNtp_def announce_def Let_def set_interval_def by (intro typing) simp_all

lemma typed_setup: "reads_all (spi (board D)) \<Longrightarrow> logger_wf (lg s) \<Longrightarrow> typed (setup_sketch D R s)"
  unfolding setup_sketch_def Let_def
  by (intro typed_pure typed_bind(1) typed_Some typed_ntp typed_names typed_eeprom; simp)

lemma started_typed:
  assumes "reads_all (spi (board (dev V)))" and "logger_wf (lg (sketch_of w0))" and "sketch_setup V R w0 = Some (H, w)"
  shows "logger_wf (lg (sketch_of w))"
proof -
  from assms(3) obtain w1 w2 where w: "on_sk (setup_sketch (dev V) R) w0 = Some w1"
    "log_sk V ''ESPLog gestartet'' w1 = Some w2" "w = server_begin w2"
    by (auto simp: sketch_setup_def bind_eq_Some_conv)
  have "page_typed (on_sk (setup_sketch (dev V) R) w0)" by (intro page_on_sk typed_setup assms)
  then have "logger_wf (lg (sketch_of w1))" using w(1) by (simp add: page_typed_def)
  then have "logger_wf (lg (sketch_of w2))" using w(2) page_log(1) unfolding page_typed_def by blast
  then show ?thesis using w(3) by (simp add: sketch_of_def server_begin_def Let_def)
qed

section \<open>Runs\<close>

text \<open>What the handlers of the web server call.\<close>

definition sketch_pages :: "('f, 'w) webdev \<Rightarrow> ('f, 'w) page_action set" where
  "sketch_pages V = {handleRoot V, handleJsonArgs V, handleViewErtrag V, secured V (handleSetup V),
     secured V (handleSpiffs V), handleFileUpload V}"

text \<open>A run of the program from the state of its global variables: \<open>setup\<close>, passes of \<open>loop\<close>, interrupts, pages and upload functions called by the web
  server, and the server's own work, which reaches the sketch through the outside world alone.\<close>

inductive sketch_run ::
    "('f, 'w) webdev \<Rightarrow> 'w radio \<Rightarrow> 'w tcp_class \<Rightarrow> ('f, 'w) page_web \<Rightarrow> ('f, 'w) page_web \<Rightarrow> bool"
  for V :: "('f, 'w) webdev" and R :: "'w radio" and C :: "'w tcp_class" and w0 :: "('f, 'w) page_web"
where
  init: "sketch_run V R C w0 w0"
| start: "sketch_run V R C w0 w \<Longrightarrow> sketch_setup V R w = Some (H, w') \<Longrightarrow> sketch_run V R C w0 w'"
| pass: "sketch_run V R C w0 w \<Longrightarrow> on_sk (loop_sketch (dev V) C) w = Some w' \<Longrightarrow> sketch_run V R C w0 w'"
| pulse: "sketch_run V R C w0 w \<Longrightarrow> sketch_run V R C w0 (set_sketch (interruptRoutineFalling (sketch_of w)) w)"
| page: "sketch_run V R C w0 w \<Longrightarrow> f \<in> sketch_pages V \<Longrightarrow> f w = Some w' \<Longrightarrow> sketch_run V R C w0 w'"
| server: "sketch_run V R C w0 w \<Longrightarrow> sketch_of w' = (sketch_of w)\<lparr>world := x\<rparr> \<Longrightarrow> sketch_run V R C w0 w'"



end
