(* ===== verification/Client_Context.thy ===== *)
theory Client_Context
  imports Http_State
begin

text \<open>
  A TCP connection on top of lwIP (\<open>src/ESP8266WiFi/src/include/ClientContext.h\<close>): the chain of
  received buffers with its read offset, acknowledgement of what was read, the blocking write
  with its count of unacknowledged bytes, and the callbacks. lwIP is a record of its functions on
  a control block \<open>'p\<close>; a chain of pbufs is the list of their payloads. Setting and clearing
  callbacks is folded into \<open>pcb\<close>: with a null control block no callback comes. \<open>None\<close> is a read
  through a null pointer or outside a buffer.
\<close>

section \<open>State and lwIP\<close>

record 'p lwip =
  tcp_sndbuf :: "'p \<Rightarrow> nat"
  tcp_write :: "string \<Rightarrow> 'p \<Rightarrow> bool \<times> 'p"
  tcp_output :: "'p \<Rightarrow> 'p"
  tcp_recved :: "nat \<Rightarrow> 'p \<Rightarrow> 'p"
  tcp_close :: "'p \<Rightarrow> bool"
  tcp_state :: "'p \<Rightarrow> nat"
  tcp_nagle :: "bool \<Rightarrow> 'p \<Rightarrow> 'p"
  tcp_nagle_disabled :: "'p \<Rightarrow> bool"
  remote_ip :: "'p \<Rightarrow> u32"
  remote_port :: "'p \<Rightarrow> u16"
  local_ip :: "'p \<Rightarrow> u32"
  local_port :: "'p \<Rightarrow> u16"

record 'p ctx =
  pcb :: "'p option"
  rx_buf :: "string list"
  rx_buf_offset :: nat
  refcnt :: int
  next_ctx :: "nat option"
  size_sent :: u32
  send_waiting :: bool

datatype err = ERR_OK | ERR_ABRT

definition CLOSED :: nat where "CLOSED = 0"

text \<open>\<open>_size_sent\<close> is not initialised: its first value is an argument.\<close>

definition ClientContext :: "'p \<Rightarrow> u32 \<Rightarrow> 'p ctx" where
  "ClientContext p garbage = \<lparr>pcb = Some p, rx_buf = [], rx_buf_offset = 0, refcnt = 0, next_ctx = None,
     size_sent = garbage, send_waiting = False\<rparr>"

section \<open>Closing\<close>

definition ctx_abort :: "'p ctx \<Rightarrow> err \<times> 'p ctx" where
  "ctx_abort c = (ERR_ABRT, if pcb c \<noteq> None then c\<lparr>pcb := None\<rparr> else c)"

definition ctx_close :: "'p lwip \<Rightarrow> 'p ctx \<Rightarrow> err \<times> 'p ctx" where
  "ctx_close L c = (case pcb c of
     None \<Rightarrow> (ERR_OK, c)
   | Some p \<Rightarrow> (if tcp_close L p then ERR_OK else ERR_ABRT, c\<lparr>pcb := None\<rparr>))"

section \<open>Receiving\<close>

definition recved :: "'p lwip \<Rightarrow> nat \<Rightarrow> 'p ctx \<Rightarrow> 'p ctx" where
  "recved L n c = (case pcb c of None \<Rightarrow> c | Some p \<Rightarrow> c\<lparr>pcb := Some (tcp_recved L n p)\<rparr>)"

definition tot_len :: "'p ctx \<Rightarrow> nat" where
  "tot_len c = length (concat (rx_buf c))"

definition ctx_getSize :: "'p ctx \<Rightarrow> nat" where
  "ctx_getSize c = (if rx_buf c = [] then 0 else tot_len c - rx_buf_offset c)"

definition ctx_consume :: "'p lwip \<Rightarrow> nat \<Rightarrow> 'p ctx \<Rightarrow> 'p ctx option" where
  "ctx_consume L n c = (case rx_buf c of
     [] \<Rightarrow> None
   | seg # rest \<Rightarrow>
       (let left = int (length seg) - int (rx_buf_offset c) - int n in
        if 0 < left then Some (c\<lparr>rx_buf_offset := rx_buf_offset c + n\<rparr>)
        else if rest = [] then Some ((recved L (length seg) c)\<lparr>rx_buf := [], rx_buf_offset := 0\<rparr>)
        else Some (recved L (length seg) (c\<lparr>rx_buf := rest, rx_buf_offset := 0\<rparr>))))"

definition ctx_peek :: "'p ctx \<Rightarrow> char option" where
  "ctx_peek c = (case rx_buf c of [] \<Rightarrow> Some (CHR 0x00) | seg # rest \<Rightarrow> arr_get seg (rx_buf_offset c))"

definition ctx_read1 :: "'p lwip \<Rightarrow> 'p ctx \<Rightarrow> (char \<times> 'p ctx) option" where
  "ctx_read1 L c = (case rx_buf c of
     [] \<Rightarrow> Some (CHR 0x00, c)
   | seg # rest \<Rightarrow> do { b \<leftarrow> arr_get seg (rx_buf_offset c); c \<leftarrow> ctx_consume L 1 c; Some (b, c) })"

function ctx_read_loop :: "'p lwip \<Rightarrow> nat \<Rightarrow> string \<Rightarrow> 'p ctx \<Rightarrow> (string \<times> 'p ctx) option" where
  "ctx_read_loop L n dst c =
     (if n = 0 then Some (dst, c)
      else (case rx_buf c of
              [] \<Rightarrow> None
            | seg # rest \<Rightarrow>
                if length seg < rx_buf_offset c then None
                else (let buf_size = length seg - rx_buf_offset c;
                          copy_size = (if n < buf_size then n else buf_size)
                      in case ctx_consume L copy_size c of
                           None \<Rightarrow> None
                         | Some c' \<Rightarrow> ctx_read_loop L (n - copy_size)
                             (dst @ take copy_size (drop (rx_buf_offset c) seg)) c')))"
  by pat_completeness auto
termination
proof (relation "measures [\<lambda>(L, n, dst, c). n, \<lambda>(L, n, dst, c). length (rx_buf c)]", goal_cases)
  case (2 L n dst c seg rest x xa c')
  then show ?case
    by (auto simp: ctx_consume_def recved_def Let_def split: if_splits option.splits)
qed simp

declare ctx_read_loop.simps [simp del]

definition ctx_read :: "'p lwip \<Rightarrow> nat \<Rightarrow> 'p ctx \<Rightarrow> (string \<times> 'p ctx) option" where
  "ctx_read L n c =
     (if rx_buf c = [] then Some ([], c)
      else (let max_size = tot_len c - rx_buf_offset c;
                n = (if n < max_size then n else max_size)
            in ctx_read_loop L n [] c))"

text \<open>\<open>peekBytes\<close> looks into the first buffer of the chain only.\<close>

definition ctx_peekBytes :: "nat \<Rightarrow> 'p ctx \<Rightarrow> string" where
  "ctx_peekBytes n c = (case rx_buf c of
     [] \<Rightarrow> []
   | seg # rest \<Rightarrow>
       (let max_size = tot_len c - rx_buf_offset c;
            n = (if n < max_size then n else max_size);
            buf_size = length seg - rx_buf_offset c;
            copy_size = (if n < buf_size then n else buf_size)
        in take copy_size (drop (rx_buf_offset c) seg)))"

definition ctx_flush :: "'p lwip \<Rightarrow> 'p ctx \<Rightarrow> 'p ctx" where
  "ctx_flush L c =
     (if rx_buf c = [] then c
      else (recved L (tot_len c) c)\<lparr>rx_buf := [], rx_buf_offset := 0\<rparr>)"

section \<open>Callbacks\<close>

text \<open>Each returns whether it wakes the writer with \<open>esp_schedule\<close>.\<close>

datatype event = Sent nat | Received string | Closed | Error

definition ctx_sent :: "nat \<Rightarrow> 'p ctx \<Rightarrow> bool \<times> 'p ctx" where
  "ctx_sent len c = (let c = c\<lparr>size_sent := size_sent c - of_nat len\<rparr>
                     in (size_sent c = 0 \<and> send_waiting c, c))"

definition ctx_recv :: "string option \<Rightarrow> 'p ctx \<Rightarrow> bool \<times> 'p ctx" where
  "ctx_recv pb c = (case pb of
     None \<Rightarrow> (send_waiting c, snd (ctx_abort c))
   | Some s \<Rightarrow> (False, if rx_buf c \<noteq> [] then c\<lparr>rx_buf := rx_buf c @ [s]\<rparr>
                       else c\<lparr>rx_buf := [s], rx_buf_offset := 0\<rparr>))"

definition ctx_error :: "'p ctx \<Rightarrow> bool \<times> 'p ctx" where
  "ctx_error c = (let c = c\<lparr>pcb := None\<rparr> in (size_sent c \<noteq> 0 \<and> send_waiting c, c))"

definition ctx_event :: "event \<Rightarrow> 'p ctx \<Rightarrow> bool \<times> 'p ctx" where
  "ctx_event e c =
     (if pcb c = None then (False, c)
      else case e of
        Sent len \<Rightarrow> ctx_sent len c
      | Received s \<Rightarrow> ctx_recv (Some s) c
      | Closed \<Rightarrow> ctx_recv None c
      | Error \<Rightarrow> ctx_error c)"

section \<open>Writing\<close>

text \<open>\<open>delay(5000)\<close>: the events of that time, until one wakes the writer; the rest come later.\<close>

fun wait :: "event list \<Rightarrow> 'p ctx \<Rightarrow> event list \<times> 'p ctx" where
  "wait [] c = ([], c)"
| "wait (e # es) c = (case ctx_event e c of (wake, c) \<Rightarrow> if wake then (es, c) else wait es c)"

definition ctx_write :: "'p lwip \<Rightarrow> string \<Rightarrow> event list \<Rightarrow> 'p ctx \<Rightarrow> u32 \<times> event list \<times> 'p ctx" where
  "ctx_write L data es c = (case pcb c of
     None \<Rightarrow> (0, es, c)
   | Some p \<Rightarrow>
       if data = [] then (0, es, c)
       else
         (let room = tcp_sndbuf L p;
              will_send = (if room < length data then room else length data);
              (ok, p) = tcp_write L (take will_send data) p;
              c = c\<lparr>pcb := Some p\<rparr>
          in if \<not> ok then (0, es, c)
             else
               (let c = c\<lparr>size_sent := of_nat will_send, pcb := Some (tcp_output L p), send_waiting := True\<rparr>;
                    (es, c) = wait es c;
                    c = c\<lparr>send_waiting := False\<rparr>
                in (of_nat will_send - size_sent c, es, c))))"

section \<open>Attributes\<close>

definition of_pcb :: "'b \<Rightarrow> ('p \<Rightarrow> 'b) \<Rightarrow> 'p ctx \<Rightarrow> 'b" where
  "of_pcb d f c = (case pcb c of None \<Rightarrow> d | Some p \<Rightarrow> f p)"

definition ctx_setNoDelay :: "'p lwip \<Rightarrow> bool \<Rightarrow> 'p ctx \<Rightarrow> 'p ctx" where
  "ctx_setNoDelay L nodelay c = (case pcb c of None \<Rightarrow> c | Some p \<Rightarrow> c\<lparr>pcb := Some (tcp_nagle L (\<not> nodelay) p)\<rparr>)"

definition ctx_getNoDelay :: "'p lwip \<Rightarrow> 'p ctx \<Rightarrow> bool" where
  "ctx_getNoDelay L = of_pcb False (tcp_nagle_disabled L)"

definition ctx_getRemoteAddress :: "'p lwip \<Rightarrow> 'p ctx \<Rightarrow> u32" where
  "ctx_getRemoteAddress L = of_pcb 0 (remote_ip L)"

definition ctx_getRemotePort :: "'p lwip \<Rightarrow> 'p ctx \<Rightarrow> u16" where
  "ctx_getRemotePort L = of_pcb 0 (remote_port L)"

definition ctx_getLocalAddress :: "'p lwip \<Rightarrow> 'p ctx \<Rightarrow> u32" where
  "ctx_getLocalAddress L = of_pcb 0 (local_ip L)"

definition ctx_getLocalPort :: "'p lwip \<Rightarrow> 'p ctx \<Rightarrow> u16" where
  "ctx_getLocalPort L = of_pcb 0 (local_port L)"

definition ctx_state :: "'p lwip \<Rightarrow> 'p ctx \<Rightarrow> nat" where
  "ctx_state L = of_pcb CLOSED (tcp_state L)"

section \<open>Byte queues\<close>

text \<open>What a reader of a connection relies on: reads take from the front, arrivals go to the end.\<close>

datatype queue_op = Put string | Get nat

fun run_queue ::
    "(nat \<Rightarrow> 'q \<Rightarrow> (string \<times> 'q) option) \<Rightarrow> (string \<Rightarrow> 'q \<Rightarrow> 'q) \<Rightarrow> queue_op list \<Rightarrow> 'q \<Rightarrow> (string \<times> 'q) option" where
  "run_queue get put [] q = Some ([], q)"
| "run_queue get put (Put s # ops) q = run_queue get put ops (put s q)"
| "run_queue get put (Get n # ops) q = (case get n q of None \<Rightarrow> None
     | Some (out, q) \<Rightarrow> (case run_queue get put ops q of None \<Rightarrow> None | Some (rest, q) \<Rightarrow> Some (out @ rest, q)))"

fun arrivals :: "queue_op list \<Rightarrow> string list" where
  "arrivals [] = []"
| "arrivals (Put s # ops) = s # arrivals ops"
| "arrivals (Get n # ops) = arrivals ops"

locale byte_queue =
  fixes get :: "nat \<Rightarrow> 'q \<Rightarrow> (string \<times> 'q) option"
    and put :: "string \<Rightarrow> 'q \<Rightarrow> 'q"
    and contents :: "'q \<Rightarrow> string"
    and ok :: "'q \<Rightarrow> bool"
  assumes get_ok: "ok q \<Longrightarrow> \<exists>q'. get n q = Some (take n (contents q), q') \<and> ok q' \<and> contents q' = drop n (contents q)"
    and put_ok: "ok q \<Longrightarrow> s \<noteq> [] \<Longrightarrow> ok (put s q) \<and> contents (put s q) = contents q @ s"
begin

lemma run_fifo:
  "ok q \<Longrightarrow> [] \<notin> set (arrivals ops) \<Longrightarrow>
     \<exists>out q'. run_queue get put ops q = Some (out, q') \<and> ok q'
       \<and> out @ contents q' = contents q @ concat (arrivals ops)"
proof (induction ops arbitrary: q)
  case (Cons x ops)
  show ?case
  proof (cases x)
    case (Put s)
    then show ?thesis using Cons.IH [of "put s q"] Cons.prems put_ok [of q s] by fastforce
  next
    case (Get n)
    obtain q1 where q1: "get n q = Some (take n (contents q), q1)" "ok q1" "contents q1 = drop n (contents q)"
      using get_ok [OF Cons.prems(1)] by blast
    obtain out q' where r: "run_queue get put ops q1 = Some (out, q')" "ok q'"
      "out @ contents q' = contents q1 @ concat (arrivals ops)"
      using Cons.IH [OF q1(2)] Cons.prems(2) Get by auto
    have "take n (contents q) @ out @ contents q' = contents q @ concat (arrivals ops)"
      unfolding r(3) q1(3) by simp
    with q1 r Get show ?thesis by simp
  qed
qed simp

end

definition contents :: "'p ctx \<Rightarrow> string" where
  "contents c = drop (rx_buf_offset c) (concat (rx_buf c))"

definition ctx_ok :: "'p ctx \<Rightarrow> bool" where
  "ctx_ok c \<longleftrightarrow> [] \<notin> set (rx_buf c)
     \<and> (case rx_buf c of [] \<Rightarrow> rx_buf_offset c = 0 | seg # rest \<Rightarrow> rx_buf_offset c < length seg)"

text \<open>The window the stack has been given back, with what is still to be given back.\<close>

definition owed :: "('p \<Rightarrow> nat) \<Rightarrow> 'p ctx \<Rightarrow> nat option" where
  "owed acked c = map_option (\<lambda>p. acked p + tot_len c) (pcb c)"

definition counts_recved :: "'p lwip \<Rightarrow> ('p \<Rightarrow> nat) \<Rightarrow> bool" where
  "counts_recved L acked \<longleftrightarrow> (\<forall>n p. acked (tcp_recved L n p) = acked p + n)"

lemma consume_ok:
  assumes "ctx_ok c" and "rx_buf c = seg # rest" and "n \<le> length seg - rx_buf_offset c"
  shows "\<exists>c'. ctx_consume L n c = Some c' \<and> ctx_ok c' \<and> contents c' = drop n (contents c)
     \<and> (counts_recved L acked \<longrightarrow> owed acked c' = owed acked c)"
proof -
  have o: "rx_buf_offset c < length seg" "[] \<notin> set rest" "seg \<noteq> []" using assms(1,2) by (auto simp: ctx_ok_def)
  show ?thesis
  proof (cases "n < length seg - rx_buf_offset c")
    case True
    then have "int n < int (length seg) - int (rx_buf_offset c)" by linarith
    with True show ?thesis using assms o
      by (simp add: ctx_consume_def ctx_ok_def contents_def owed_def tot_len_def add.commute)
  next
    case False
    then have n: "n = length seg - rx_buf_offset c" using assms(3) by simp
    with o have l: "int (length seg) - int (rx_buf_offset c) - int n = 0" by simp
    have d: "drop n (contents c) = concat rest" using assms(2) o n by (simp add: contents_def)
    show ?thesis
    proof (cases rest)
      case Nil
      with assms(2) l d show ?thesis
        by (simp add: ctx_consume_def ctx_ok_def contents_def owed_def tot_len_def recved_def
            counts_recved_def split: option.splits)
    next
      case (Cons r rs)
      with assms(2) l d o show ?thesis
        by (auto simp: ctx_consume_def ctx_ok_def contents_def owed_def tot_len_def recved_def
            counts_recved_def split: option.splits)
    qed
  qed
qed

lemma read_loop_ok:
  "ctx_ok c \<Longrightarrow> n \<le> length (contents c) \<Longrightarrow>
     \<exists>c'. ctx_read_loop L n dst c = Some (dst @ take n (contents c), c') \<and> ctx_ok c'
       \<and> contents c' = drop n (contents c) \<and> (counts_recved L acked \<longrightarrow> owed acked c' = owed acked c)"
proof (induction L n dst c rule: ctx_read_loop.induct)
  case (1 L n dst c)
  show ?case
  proof (cases "n = 0")
    case True
    with 1 show ?thesis by (subst ctx_read_loop.simps) simp
  next
    case False
    with 1(3) obtain seg rest where s: "rx_buf c = seg # rest" by (cases "rx_buf c") (auto simp: contents_def)
    have o: "rx_buf_offset c < length seg" using 1(2) s by (simp add: ctx_ok_def)
    define k where "k = (if n < length seg - rx_buf_offset c then n else length seg - rx_buf_offset c)"
    have k: "k \<le> length seg - rx_buf_offset c" "k \<le> n" by (auto simp: k_def)
    obtain c1 where c1: "ctx_consume L k c = Some c1" "ctx_ok c1" "contents c1 = drop k (contents c)"
      "counts_recved L acked \<longrightarrow> owed acked c1 = owed acked c"
      using consume_ok [OF 1(2) s k(1), of L acked] by blast
    have t: "take k (drop (rx_buf_offset c) seg) = take k (contents c)"
      using s o k by (simp add: contents_def)
    have "\<exists>c'. ctx_read_loop L (n - k) (dst @ take k (drop (rx_buf_offset c) seg)) c1
        = Some (dst @ take k (drop (rx_buf_offset c) seg) @ take (n - k) (contents c1), c') \<and> ctx_ok c'
       \<and> contents c' = drop (n - k) (contents c1) \<and> (counts_recved L acked \<longrightarrow> owed acked c' = owed acked c1)"
      using 1(1) [OF False s _ refl k_def c1(1)] o c1 1(3) by simp
    then obtain c' where c': "ctx_read_loop L (n - k) (dst @ take k (contents c)) c1
        = Some (dst @ take k (contents c) @ take (n - k) (contents c1), c')" "ctx_ok c'"
        "contents c' = drop (n - k) (contents c1)" "counts_recved L acked \<longrightarrow> owed acked c' = owed acked c1"
      unfolding t by blast
    have e: "take k (contents c) @ take (n - k) (drop k (contents c)) = take n (contents c)"
      using k(2) by (metis le_add_diff_inverse take_add)
    have "ctx_read_loop L n dst c = ctx_read_loop L (n - k) (dst @ take k (contents c)) c1"
      by (subst ctx_read_loop.simps) (use False s o c1(1) t in \<open>simp add: k_def [symmetric] Let_def\<close>)
    with c' c1 e k(2) show ?thesis by simp
  qed
qed

lemma contents_length: "ctx_ok c \<Longrightarrow> length (contents c) = tot_len c - rx_buf_offset c"
  by (simp add: contents_def tot_len_def)

lemma ctx_read_ok:
  assumes "ctx_ok c"
  shows "\<exists>c'. ctx_read L n c = Some (take n (contents c), c') \<and> ctx_ok c' \<and> contents c' = drop n (contents c)
     \<and> (counts_recved L acked \<longrightarrow> owed acked c' = owed acked c)"
proof (cases "rx_buf c = []")
  case True
  with assms show ?thesis by (simp add: ctx_read_def contents_def)
next
  case False
  define m where "m = (if n < length (contents c) then n else length (contents c))"
  have "take m (contents c) = take n (contents c)" "drop m (contents c) = drop n (contents c)"
    by (auto simp: m_def)
  with read_loop_ok [OF assms, of m L "[]" acked] False show ?thesis
    by (simp add: ctx_read_def Let_def contents_length [OF assms, symmetric] flip: m_def) (simp add: m_def)
qed

lemma ctx_put_ok:
  assumes "ctx_ok c" and "s \<noteq> []"
  shows "ctx_ok (snd (ctx_recv (Some s) c)) \<and> contents (snd (ctx_recv (Some s) c)) = contents c @ s"
  using assms by (cases "rx_buf c") (auto simp: ctx_recv_def ctx_ok_def contents_def)

interpretation received: byte_queue "ctx_read L" "\<lambda>s c. snd (ctx_recv (Some s) c)" contents ctx_ok
  for L :: "'p lwip"
  by unfold_locales (use ctx_read_ok ctx_put_ok in blast)+

lemma run_owed:
  "ctx_ok c \<Longrightarrow> [] \<notin> set (arrivals ops) \<Longrightarrow> counts_recved L acked \<Longrightarrow>
     run_queue (ctx_read L) (\<lambda>s c. snd (ctx_recv (Some s) c)) ops c = Some (out, c') \<Longrightarrow>
     owed acked c' = map_option (\<lambda>n. n + length (concat (arrivals ops))) (owed acked c)"
proof (induction ops arbitrary: c out)
  case (Cons x ops)
  show ?case
  proof (cases x)
    case (Put s)
    let ?c = "snd (ctx_recv (Some s) c)"
    have "owed acked c' = map_option (\<lambda>n. n + length (concat (arrivals ops))) (owed acked ?c)"
      by (rule Cons.IH [of ?c out]) (use Cons.prems Put ctx_put_ok [OF Cons.prems(1), of s] in auto)
    moreover have "owed acked ?c = map_option (\<lambda>n. n + length s) (owed acked c)"
      by (cases "pcb c") (simp_all add: owed_def ctx_recv_def tot_len_def)
    ultimately show ?thesis using Put by (simp add: option.map_comp comp_def add.assoc)
  next
    case (Get n)
    obtain c1 where c1: "ctx_read L n c = Some (take n (contents c), c1)" "ctx_ok c1" "owed acked c1 = owed acked c"
      using ctx_read_ok [OF Cons.prems(1), of L n acked] Cons.prems(3) by blast
    then obtain out' where "run_queue (ctx_read L) (\<lambda>s c. snd (ctx_recv (Some s) c)) ops c1 = Some (out', c')"
      using Cons.prems(4) Get by (auto split: option.splits)
    from Cons.IH [OF c1(2) _ Cons.prems(3) this] Cons.prems(2) Get c1(3) show ?thesis by simp
  qed
qed (simp add: option.map_ident)

lemma wait_sent:
  "pcb c \<noteq> None \<Longrightarrow> send_waiting c \<Longrightarrow> size_sent c = of_nat w \<Longrightarrow> w < 2 ^ 32 \<Longrightarrow> 0 \<notin> set ns \<Longrightarrow> sum_list ns < w \<Longrightarrow>
     wait (map Sent ns @ es) c = wait es (c\<lparr>size_sent := of_nat (w - sum_list ns)\<rparr>)"
proof (induction ns arbitrary: c w)
  case (Cons n ns)
  let ?c = "c\<lparr>size_sent := of_nat (w - n)\<rparr>"
  have n: "n < w" using Cons.prems(6) by simp
  have s: "size_sent c - of_nat n = of_nat (w - n)" using Cons.prems(3) n by (simp add: of_nat_diff)
  have "unat (of_nat (w - n) :: u32) = w - n" by (rule unat_of_nat_u32) (use Cons.prems(4) in simp)
  then have "(of_nat (w - n) :: u32) \<noteq> 0" using n by (metis unsigned_0 zero_less_diff less_numeral_extra(3))
  with s Cons.prems(1) have "ctx_event (Sent n) c = (False, ?c)"
    by (auto simp: ctx_event_def ctx_sent_def)
  moreover have "wait (map Sent ns @ es) ?c = wait es (?c\<lparr>size_sent := of_nat (w - n - sum_list ns)\<rparr>)"
    by (rule Cons.IH) (use Cons.prems in auto)
  ultimately show ?case by (simp add: diff_diff_left)
next
  case Nil
  have "c\<lparr>size_sent := of_nat w\<rparr> = c" unfolding Nil(3) [symmetric] by simp
  then show ?case by simp
qed

lemma ctx_write_wait:
  assumes "pcb c = Some p" and "data \<noteq> []" and "w = min (tcp_sndbuf L p) (length data)"
    and "tcp_write L (take w data) p = (True, p')"
  shows "ctx_write L data es c = (case wait es (c\<lparr>size_sent := of_nat w, pcb := Some (tcp_output L p'), send_waiting := True\<rparr>)
      of (es, c') \<Rightarrow> (of_nat w - size_sent c', es, c'\<lparr>send_waiting := False\<rparr>))"
proof -
  have w: "(if tcp_sndbuf L p < length data then tcp_sndbuf L p else length data) = w"
    using assms(3) by (simp add: min_def)
  show ?thesis using assms(1,2,4)
    unfolding ctx_write_def Let_def by (simp add: w split: prod.splits)
qed

section \<open>Properties\<close>

definition counting_lwip :: "nat lwip" where
  "counting_lwip = \<lparr>tcp_sndbuf = (\<lambda>p. 4), tcp_write = (\<lambda>s p. (True, p)), tcp_output = (\<lambda>p. p),
     tcp_recved = (\<lambda>n p. p + n), tcp_close = (\<lambda>p. True), tcp_state = (\<lambda>p. 4), tcp_nagle = (\<lambda>b p. p),
     tcp_nagle_disabled = (\<lambda>p. False), remote_ip = (\<lambda>p. 1), remote_port = (\<lambda>p. 2), local_ip = (\<lambda>p. 3),
     local_port = (\<lambda>p. 4)\<rparr>"

text \<open>C22: a connection is a byte queue: under any interleaving of arriving segments and reads of any
  size, across buffer boundaries, no read goes outside a buffer, and what was read followed by
  what can still be read is what was there followed by what arrived.\<close>

theorem received_in_order:
  assumes "ctx_ok c" and "[] \<notin> set (arrivals ops)"
  shows "\<exists>out c'. run_queue (ctx_read L) (\<lambda>s c. snd (ctx_recv (Some s) c)) ops c = Some (out, c') \<and> ctx_ok c'
     \<and> out @ contents c' = contents c @ concat (arrivals ops)"
  using assms by (rule received.run_fifo)

lemma received_in_order_witness:
  "\<exists>out c'. run_queue (ctx_read counting_lwip) (\<lambda>s c. snd (ctx_recv (Some s) c)) [Put ''abc'', Get 2, Put ''d'', Get 9]
      (ClientContext 0 0) = Some (out, c') \<and> ctx_ok c' \<and> out @ contents c' = ''abcd''"
  using received_in_order [of "ClientContext 0 0" "[Put ''abc'', Get 2, Put ''d'', Get 9]" counting_lwip]
  by (simp add: ClientContext_def ctx_ok_def contents_def)

text \<open>The receive window is never lost nor given twice: while the connection lives, what was given
  back to the stack and what the buffers hold add up to what arrived, and after \<open>flush\<close> all of it
  has been given back.\<close>

theorem window_conserved:
  assumes "ctx_ok c" and "[] \<notin> set (arrivals ops)" and "counts_recved L acked" and "pcb c = Some p"
    and "run_queue (ctx_read L) (\<lambda>s c. snd (ctx_recv (Some s) c)) ops c = Some (out, c')"
  shows "\<exists>p' p''. pcb c' = Some p' \<and> pcb (ctx_flush L c') = Some p''
     \<and> acked p' + tot_len c' = acked p + tot_len c + length (concat (arrivals ops))
     \<and> acked p'' = acked p + tot_len c + length (concat (arrivals ops)) \<and> rx_buf (ctx_flush L c') = []"
proof -
  from run_owed [OF assms(1-3,5)] assms(4) obtain p' where p': "pcb c' = Some p'"
    "acked p' + tot_len c' = acked p + tot_len c + length (concat (arrivals ops))"
    by (auto simp: owed_def)
  then show ?thesis using assms(3)
    by (auto simp: ctx_flush_def recved_def counts_recved_def tot_len_def)
qed

lemma window_conserved_witness:
  "\<exists>out c' p''. run_queue (ctx_read counting_lwip) (\<lambda>s c. snd (ctx_recv (Some s) c)) [Put ''abc'', Get 2]
      (ClientContext 0 0) = Some (out, c') \<and> pcb (ctx_flush counting_lwip c') = Some p'' \<and> p'' = 3"
proof -
  have ok: "ctx_ok (ClientContext 0 0)" by (simp add: ClientContext_def ctx_ok_def)
  obtain out c' where r: "run_queue (ctx_read counting_lwip) (\<lambda>s c. snd (ctx_recv (Some s) c)) [Put ''abc'', Get 2]
      (ClientContext 0 0) = Some (out, c')"
    using received.run_fifo [OF ok, of "[Put ''abc'', Get 2]" counting_lwip] by auto
  have a: "[] \<notin> set (arrivals [Put ''abc'', Get 2])" "counts_recved counting_lwip (\<lambda>p. p)"
    "pcb (ClientContext 0 0) = Some 0"
    by (simp_all add: ClientContext_def counts_recved_def counting_lwip_def)
  have "tot_len (ClientContext 0 0) = 0" by (simp add: ClientContext_def tot_len_def)
  with window_conserved [OF ok a r] r show ?thesis by auto
qed

text \<open>\<open>write\<close> reports the bytes acknowledged while it waits: a part of them at the timeout, all of
  them as soon as the last acknowledgement comes, later events untouched. It does not tell them
  from bytes of an earlier write that timed out: an acknowledgement that covers more than was
  passed to it is reported in full, more than it was asked to send.\<close>

theorem write_reports_acks:
  assumes "pcb c = Some p" and "data \<noteq> []" and "w = min (tcp_sndbuf L p) (length data)"
    and "tcp_write L (take w data) p = (True, p')" and "w < 2 ^ 32" and "0 \<notin> set ns"
  shows "(sum_list ns < w \<longrightarrow> fst (ctx_write L data (map Sent ns) c) = of_nat (sum_list ns))
     \<and> (0 < n \<and> sum_list ns + n = w \<longrightarrow>
          (\<exists>c'. ctx_write L data (map Sent ns @ Sent n # es) c = (of_nat w, es, c') \<and> \<not> send_waiting c'))
     \<and> (w < n \<and> n < 2 ^ 32 \<longrightarrow> fst (ctx_write L data [Sent n] c) = of_nat n)"
proof -
  let ?c = "c\<lparr>size_sent := of_nat w, pcb := Some (tcp_output L p'), send_waiting := True\<rparr>"
  note wr = ctx_write_wait [OF assms(1-4)]
  note ws = wait_sent [of ?c w, OF _ _ _ assms(5)]
  have "fst (ctx_write L data (map Sent ns) c) = of_nat (sum_list ns)" if "sum_list ns < w"
    using ws [OF _ _ _ assms(6) that, of "[]"] that by (simp add: wr of_nat_diff)
  moreover have "\<exists>c'. ctx_write L data (map Sent ns @ Sent n # es) c = (of_nat w, es, c') \<and> \<not> send_waiting c'"
    if "0 < n" "sum_list ns + n = w"
  proof -
    have l: "sum_list ns < w" "w - sum_list ns = n" using that by auto
    show ?thesis using ws [OF _ _ _ assms(6) l(1), of "Sent n # es"] l(2)
      by (simp add: wr ctx_event_def ctx_sent_def)
  qed
  moreover have "fst (ctx_write L data [Sent n] c) = of_nat n" if "w < n" "n < 2 ^ 32"
    by (simp add: wr ctx_event_def ctx_sent_def)
  ultimately show ?thesis by blast
qed

lemma write_reports_acks_witness:
  "fst (ctx_write counting_lwip ''hello'' [Sent 3] (ClientContext 0 0)) = 3
   \<and> fst (ctx_write counting_lwip ''hello'' [Sent 9] (ClientContext 0 0)) = 9"
  using write_reports_acks [of "ClientContext 0 0" 0 "''hello''" 4 counting_lwip 0 "[3]" 9 "[]"]
  by (simp add: ClientContext_def counting_lwip_def)

end
