(* ===== verification/Slist.thy ===== *)
theory Slist
  imports Main "HOL-Library.Monad_Syntax"
begin

text \<open>
  Intrusive linked lists (\<open>src/ESP8266WiFi/src/include/slist.h\<close>): objects are addresses, \<open>_next\<close>
  is a map on them, \<open>_s_first\<close> the head. \<open>slist_ok\<close> relates the pointers to the list of objects
  they represent. A null pointer dereferenced is \<open>None\<close>, and so is a loop that does not end.
\<close>

section \<open>Operations\<close>

record slist =
  s_first :: "nat option"
  nxt :: "nat \<Rightarrow> nat option"

definition slist_empty :: slist where
  "slist_empty = \<lparr>s_first = None, nxt = (\<lambda>_. None)\<rparr>"

definition slist_add :: "nat \<Rightarrow> slist \<Rightarrow> slist" where
  "slist_add self s = \<lparr>s_first = Some self, nxt = (nxt s)(self := s_first s)\<rparr>"

partial_function (option) remove_loop ::
    "nat \<Rightarrow> nat \<Rightarrow> (nat \<Rightarrow> nat option) \<Rightarrow> (nat \<Rightarrow> nat option) option" where
  "remove_loop self prev nx =
     (case nx prev of
        None \<Rightarrow> Some nx
      | Some p \<Rightarrow> if p = self then Some (nx(prev := nx self, self := None)) else remove_loop self p nx)"

definition slist_remove :: "nat \<Rightarrow> slist \<Rightarrow> slist option" where
  "slist_remove self s =
     (if s_first s = Some self then Some \<lparr>s_first = nxt s self, nxt = (nxt s)(self := None)\<rparr>
      else (case s_first s of
              None \<Rightarrow> None
            | Some prev \<Rightarrow> map_option (\<lambda>nx. s\<lparr>nxt := nx\<rparr>) (remove_loop self prev (nxt s))))"

text \<open>\<open>for (T* it = _s_first; it; it = it->_next) f(it)\<close>\<close>

partial_function (option) slist_each ::
    "(nat \<Rightarrow> 's \<Rightarrow> 's option) \<Rightarrow> (nat \<Rightarrow> nat option) \<Rightarrow> nat option \<Rightarrow> 's \<Rightarrow> 's option" where
  "slist_each f nx it s = (case it of
     None \<Rightarrow> Some s
   | Some i \<Rightarrow> Option.bind (f i s) (slist_each f nx (nx i)))"

section \<open>The list represented\<close>

fun chain_of :: "(nat \<Rightarrow> nat option) \<Rightarrow> nat option \<Rightarrow> nat list \<Rightarrow> bool" where
  "chain_of nx p [] \<longleftrightarrow> p = None"
| "chain_of nx p (x # xs) \<longleftrightarrow> p = Some x \<and> chain_of nx (nx x) xs"

definition slist_ok :: "slist \<Rightarrow> nat list \<Rightarrow> bool" where
  "slist_ok s xs \<longleftrightarrow> chain_of (nxt s) (s_first s) xs \<and> distinct xs"

lemma chain_of_fun_upd [simp]: "x \<notin> set xs \<Longrightarrow> chain_of (nx(x := v)) p xs = chain_of nx p xs"
  by (induction xs arbitrary: p) auto

lemma slist_ok_empty [simp]: "slist_ok slist_empty []"
  by (simp add: slist_ok_def slist_empty_def)

lemma slist_add_ok: "slist_ok s xs \<Longrightarrow> x \<notin> set xs \<Longrightarrow> slist_ok (slist_add x s) (x # xs)"
  by (simp add: slist_ok_def slist_add_def)

lemma remove_loop_ok:
  "chain_of nx (Some prev) (prev # xs) \<Longrightarrow> distinct (prev # xs) \<Longrightarrow> x \<in> set xs \<Longrightarrow>
     \<exists>nx'. remove_loop x prev nx = Some nx' \<and> chain_of nx' (Some prev) (prev # remove1 x xs)
       \<and> (\<forall>y. y \<notin> set (prev # xs) \<longrightarrow> nx' y = nx y)"
proof (induction xs arbitrary: prev)
  case (Cons y ys)
  show ?case
  proof (cases "y = x")
    case True
    with Cons.prems show ?thesis by (subst remove_loop.simps) auto
  next
    case False
    obtain nx' where n: "remove_loop x y nx = Some nx'" "chain_of nx' (Some y) (y # remove1 x ys)"
      "\<forall>z. z \<notin> set (y # ys) \<longrightarrow> nx' z = nx z"
      using Cons.IH [of y] Cons.prems False by auto
    moreover have "nx' prev = Some y" using n(3) Cons.prems by auto
    ultimately show ?thesis
      using Cons.prems False by (subst remove_loop.simps) auto
  qed
qed simp

lemma slist_remove_ok:
  assumes "slist_ok s xs" and "x \<in> set xs"
  shows "\<exists>s'. slist_remove x s = Some s' \<and> slist_ok s' (remove1 x xs)"
proof (cases xs)
  case Nil
  with assms(2) show ?thesis by simp
next
  case (Cons y ys)
  show ?thesis
  proof (cases "y = x")
    case True
    with Cons assms show ?thesis by (auto simp: slist_ok_def slist_remove_def)
  next
    case False
    obtain nx' where "remove_loop x y (nxt s) = Some nx'" "chain_of nx' (Some y) (y # remove1 x ys)"
      using remove_loop_ok [of "nxt s" y ys x] assms Cons False by (auto simp: slist_ok_def)
    with assms Cons False show ?thesis
      by (auto simp: slist_ok_def slist_remove_def distinct_remove1 dest: notin_set_remove1)
  qed
qed

lemma slist_each_list:
  "chain_of nx it xs \<Longrightarrow>
     slist_each f nx it s = fold (\<lambda>i r. Option.bind r (f i)) xs (Some s)"
proof (induction xs arbitrary: it s)
  case Nil
  then show ?case by (simp add: slist_each.simps)
next
  case (Cons x xs)
  have n: "fold (\<lambda>i r. Option.bind r (f i)) ys None = None" for ys by (induction ys) auto
  from Cons show ?case
    by (subst slist_each.simps) (cases "f x s"; auto simp: n)
qed

text \<open>Adding and removing objects, as their constructors and destructors do.\<close>

datatype slist_op = Add nat | Remove nat

fun run_slist :: "slist_op list \<Rightarrow> slist \<Rightarrow> slist option" where
  "run_slist [] s = Some s"
| "run_slist (Add x # ops) s = run_slist ops (slist_add x s)"
| "run_slist (Remove x # ops) s = Option.bind (slist_remove x s) (run_slist ops)"

text \<open>The objects alive after a sequence, when each is constructed once and destroyed while alive.\<close>

fun alive :: "slist_op list \<Rightarrow> nat list \<Rightarrow> nat list option" where
  "alive [] xs = Some xs"
| "alive (Add x # ops) xs = (if x \<in> set xs then None else alive ops (x # xs))"
| "alive (Remove x # ops) xs = (if x \<in> set xs then alive ops (remove1 x xs) else None)"

lemma run_slist_ok:
  "slist_ok s xs \<Longrightarrow> alive ops xs = Some ys \<Longrightarrow> \<exists>s'. run_slist ops s = Some s' \<and> slist_ok s' ys"
proof (induction ops arbitrary: s xs)
  case (Cons x ops)
  show ?case
  proof (cases x)
    case (Add i)
    with Cons.prems have "slist_ok (slist_add i s) (i # xs)" "alive ops (i # xs) = Some ys"
      by (auto intro: slist_add_ok split: if_splits)
    from Cons.IH [OF this] Add show ?thesis by simp
  next
    case (Remove i)
    with Cons.prems obtain s1 where "slist_remove i s = Some s1" "slist_ok s1 (remove1 i xs)"
      "alive ops (remove1 i xs) = Some ys"
      using slist_remove_ok [OF Cons.prems(1), of i] by (auto split: if_splits)
    from this(1) Cons.IH [OF this(2,3)] Remove show ?thesis by simp
  qed
qed simp

section \<open>Properties\<close>

text \<open>The registry of objects refines a list: from the empty registry, any sequence of
  constructions and destructions of distinct live objects runs without a null pointer, and a
  traversal then visits exactly the live objects, each once, the youngest first.\<close>

theorem slist_refines_list:
  assumes "alive ops [] = Some ys"
  shows "\<exists>s. run_slist ops slist_empty = Some s \<and> distinct ys
     \<and> slist_each (\<lambda>i seen. Some (seen @ [i])) (nxt s) (s_first s) [] = Some ys"
proof -
  obtain s where s: "run_slist ops slist_empty = Some s" "slist_ok s ys"
    using run_slist_ok [OF slist_ok_empty assms] by blast
  have "fold (\<lambda>i r. Option.bind r (\<lambda>seen. Some (seen @ [i]))) ys (Some zs) = Some (zs @ ys)" for zs
    by (induction ys arbitrary: zs) auto
  with s show ?thesis
    using slist_each_list [of "nxt s" "s_first s" ys "\<lambda>i seen. Some (seen @ [i])"]
    by (simp add: slist_ok_def)
qed

lemma slist_refines_list_witness:
  "\<exists>s. run_slist [Add 1, Add 2, Add 3, Remove 2] slist_empty = Some s
     \<and> slist_each (\<lambda>i seen. Some (seen @ [i])) (nxt s) (s_first s) [] = Some [3, 1]"
  using slist_refines_list [of "[Add 1, Add 2, Add 3, Remove 2]"] by simp

end
