(* ===== verification/Refcount.thy ===== *)
theory Refcount
  imports Main
begin

text \<open>
  Reference counting, shared by the TCP and UDP objects: a heap of counted objects and handles
  that point to them. \<open>counted\<close> says that every handle points to an object of the heap and that
  each object's count is the number of its handles; the lemmas say that constructing, copying
  and releasing handles, as the classes do it, keep this. \<open>covered\<close> is the weaker form for a class
  that loses handles.
\<close>

locale refcounted =
  fixes cnt :: "'o \<Rightarrow> int"
    and set_cnt :: "int \<Rightarrow> 'o \<Rightarrow> 'o"
  assumes cnt_set_cnt [simp]: "cnt (set_cnt n x) = n"
begin

definition holders :: "(nat \<Rightarrow> nat option option) \<Rightarrow> nat \<Rightarrow> nat set" where
  "holders H a = {i. H i = Some (Some a)}"

definition counted :: "(nat \<Rightarrow> 'o option) \<Rightarrow> (nat \<Rightarrow> nat option option) \<Rightarrow> bool" where
  "counted h H \<longleftrightarrow> finite (dom H) \<and> (\<forall>a x. h a = Some x \<longrightarrow> cnt x = int (card (holders H a)))
     \<and> (\<forall>i a. H i = Some (Some a) \<longrightarrow> h a \<noteq> None)"

lemma finite_holders: "finite (dom H) \<Longrightarrow> finite (holders H a)"
  by (rule finite_subset [of _ "dom H"]) (auto simp: holders_def)

lemma holders_upd:
  "holders (H(i \<mapsto> None)) a = holders H a - {i}" "holders (H(i := None)) a = holders H a - {i}"
  "holders (H(i \<mapsto> Some b)) a = (if a = b then insert i (holders H a) else holders H a - {i})"
  by (auto simp: holders_def)

lemma not_holder: "H i \<noteq> Some (Some a) \<Longrightarrow> i \<notin> holders H a"
  by (simp add: holders_def)

lemma counted_live: "counted h H \<Longrightarrow> H i = Some (Some a) \<Longrightarrow> \<exists>x. h a = Some x"
  by (auto simp: counted_def)

lemma counted_pos: "counted h H \<Longrightarrow> H i = Some (Some a) \<Longrightarrow> h a = Some x \<Longrightarrow> 0 < cnt x"
  using finite_holders [of H a] by (auto simp: counted_def card_gt_0_iff holders_def)

lemma counted_count: "counted h H \<Longrightarrow> h a = Some x \<Longrightarrow> cnt x = int (card (holders H a))"
  by (auto simp: counted_def)

text \<open>A handle that points nowhere appears or disappears.\<close>

lemma counted_null:
  assumes "counted h H" and "H i = None \<or> H i = Some None"
  shows "counted h (H(i \<mapsto> None))" "counted h (H(i := None))"
proof -
  have "holders H a - {i} = holders H a" for a using assms(2) by (auto simp: holders_def)
  then show "counted h (H(i \<mapsto> None))" "counted h (H(i := None))"
    using assms by (auto simp: counted_def holders_upd)
qed

text \<open>A handle that points nowhere takes hold of an object.\<close>

lemma counted_acquire:
  assumes "counted h H" and "H i = None \<or> H i = Some None" and "h a = Some x"
    and "cnt y = cnt x + 1"
  shows "counted (h(a \<mapsto> y)) (H(i \<mapsto> Some a))"
proof -
  have n: "i \<notin> holders H b" for b using assms(2) by (auto simp: holders_def)
  have "finite (holders H a)" using assms(1) finite_holders by (auto simp: counted_def)
  then have "cnt y = int (card (holders (H(i \<mapsto> Some a)) a))"
    using counted_count [OF assms(1,3)] assms(4) n by (simp add: holders_upd)
  moreover have "holders (H(i \<mapsto> Some a)) b = holders H b" if "b \<noteq> a" for b
    using that n [of b] by (simp add: holders_upd)
  ultimately show ?thesis using assms(1) by (auto simp: counted_def)
qed

text \<open>A handle lets go: the object stays while others hold it, and goes with the last.\<close>

lemma counted_release:
  assumes "counted h H" and "H i = Some (Some a)" and "h a = Some x" and "cnt y = cnt x - 1"
  shows "counted (if cnt y = 0 then h(a := None) else h(a \<mapsto> y)) (H(i \<mapsto> None))"
proof -
  have i: "i \<in> holders H a" and f: "finite (holders H a)"
    using assms(1,2) finite_holders by (auto simp: holders_def counted_def)
  have c: "cnt y = int (card (holders (H(i \<mapsto> None)) a))"
    using counted_count [OF assms(1,3)] assms(4) i f card_Suc_Diff1 [OF f i] by (simp add: holders_upd)
  have o: "holders (H(i \<mapsto> None)) b = holders H b" if "b \<noteq> a" for b
    using that assms(2) by (auto simp: holders_upd holders_def)
  have z: "cnt y = 0 \<Longrightarrow> holders (H(i \<mapsto> None)) a = {}"
    using c f by (simp add: holders_upd)
  have "h b \<noteq> None" if "(H(i \<mapsto> None)) j = Some (Some b)" for j b
    using that assms(1) by (auto simp: counted_def split: if_splits)
  moreover have "b \<noteq> a" if "(H(i \<mapsto> None)) j = Some (Some b)" "cnt y = 0" for j b
    using that z by (auto simp: holders_def)
  ultimately show ?thesis using assms(1) c o by (auto simp: counted_def)
qed

text \<open>An object changes otherwise, or is made.\<close>

lemma counted_update: "counted h H \<Longrightarrow> h a = Some x \<Longrightarrow> cnt y = cnt x \<Longrightarrow> counted (h(a \<mapsto> y)) H"
  by (auto simp: counted_def)

lemma counted_new:
  assumes "counted h H" and "h a = None" and "cnt x = 0"
  shows "counted (h(a \<mapsto> x)) H"
proof -
  have "H i \<noteq> Some (Some a)" for i using assms(1,2) by (fastforce simp: counted_def)
  then have "holders H a = {}" by (simp add: holders_def)
  with assms show ?thesis by (auto simp: counted_def)
qed

lemma counted_empty: "counted (\<lambda>_. None) (\<lambda>_. None)"
  by (simp add: counted_def)

section \<open>Counts that may be too high\<close>

text \<open>
  \<open>covered\<close> is what is left of \<open>counted\<close> when a class forgets to release an object: no count is lower
  than the number of handles, so that no handle points to a deleted object.
\<close>

definition covered :: "(nat \<Rightarrow> 'o option) \<Rightarrow> (nat \<Rightarrow> nat option option) \<Rightarrow> bool" where
  "covered h H \<longleftrightarrow> finite (dom H) \<and> (\<forall>a x. h a = Some x \<longrightarrow> int (card (holders H a)) \<le> cnt x)
     \<and> (\<forall>i a. H i = Some (Some a) \<longrightarrow> h a \<noteq> None)"

lemma covered_count: "covered h H \<Longrightarrow> h a = Some x \<Longrightarrow> int (card (holders H a)) \<le> cnt x"
  by (simp add: covered_def)

lemma covered_live: "covered h H \<Longrightarrow> H i = Some (Some a) \<Longrightarrow> \<exists>x. h a = Some x"
  by (auto simp: covered_def)

text \<open>A handle forgets its object, or goes.\<close>

lemma covered_forget:
  assumes "covered h H"
  shows "covered h (H(i \<mapsto> None))" "covered h (H(i := None))"
proof -
  have f: "finite (holders H a)" for a using assms finite_holders by (auto simp: covered_def)
  have "int (card (holders H a - {i})) \<le> cnt x" if "h a = Some x" for a x
    using covered_count [OF assms that] card_Diff1_le [of "holders H a" i] by linarith
  then show "covered h (H(i \<mapsto> None))" "covered h (H(i := None))"
    using assms by (auto simp: covered_def holders_upd)
qed

lemma covered_acquire:
  assumes "covered h H" and "h a = Some x" and "cnt y = cnt x + 1"
  shows "covered (h(a \<mapsto> y)) (H(i \<mapsto> Some a))"
proof -
  have f: "finite (holders H b)" for b using assms(1) finite_holders by (auto simp: covered_def)
  have "int (card (holders (H(i \<mapsto> Some a)) a)) \<le> cnt y"
    using covered_count [OF assms(1,2)] assms(3) card_insert_le_m1 [of "card (holders H a) + 1" "holders H a" i]
    by (simp add: holders_upd)
  moreover have "int (card (holders (H(i \<mapsto> Some a)) b)) \<le> cnt z" if "b \<noteq> a" "h b = Some z" for b z
    using covered_count [OF assms(1) that(2)] card_Diff1_le [of "holders H b" i] that(1) by (simp add: holders_upd)
  ultimately show ?thesis using assms(1) by (auto simp: covered_def)
qed

lemma covered_release:
  assumes "covered h H" and "H i = Some (Some a)" and "h a = Some x" and "cnt y = cnt x - 1"
  shows "covered (if cnt y = 0 then h(a := None) else h(a \<mapsto> y)) (H(i \<mapsto> None))"
proof -
  have i: "i \<in> holders H a" and f: "finite (holders H a)"
    using assms(1,2) finite_holders by (auto simp: holders_def covered_def)
  have c: "int (card (holders (H(i \<mapsto> None)) a)) \<le> cnt y"
    using covered_count [OF assms(1,3)] assms(4) i f card_Suc_Diff1 [OF f i] by (simp add: holders_upd)
  have o: "holders (H(i \<mapsto> None)) b = holders H b" if "b \<noteq> a" for b
    using that assms(2) by (auto simp: holders_upd holders_def)
  have z: "cnt y = 0 \<Longrightarrow> holders (H(i \<mapsto> None)) a = {}"
    using c f by (simp add: holders_upd)
  have "h b \<noteq> None" if "(H(i \<mapsto> None)) j = Some (Some b)" for j b
    using that assms(1) by (auto simp: covered_def split: if_splits)
  moreover have "b \<noteq> a" if "(H(i \<mapsto> None)) j = Some (Some b)" "cnt y = 0" for j b
    using that z by (auto simp: holders_def)
  ultimately show ?thesis using assms(1) c o by (auto simp: covered_def)
qed

lemma covered_update: "covered h H \<Longrightarrow> h a = Some x \<Longrightarrow> cnt y = cnt x \<Longrightarrow> covered (h(a \<mapsto> y)) H"
  by (auto simp: covered_def)

lemma covered_new:
  assumes "covered h H" and "h a = None" and "0 \<le> cnt x"
  shows "covered (h(a \<mapsto> x)) H"
proof -
  have "H i \<noteq> Some (Some a)" for i using assms(1,2) by (fastforce simp: covered_def)
  then have "holders H a = {}" by (simp add: holders_def)
  with assms show ?thesis by (auto simp: covered_def)
qed

lemma covered_empty: "covered (\<lambda>_. None) (\<lambda>_. None)"
  by (simp add: covered_def)

end

end
