(* ===== verification/Wifi_Client.thy ===== *)
theory Wifi_Client
  imports Client_Context Slist Refcount
begin

text \<open>
  Client objects (\<open>src/ESP8266WiFi/src/WiFiClient.cpp\<close>, \<open>WiFiClient.h\<close>) and the reference count
  of \<open>ClientContext\<close>: a heap of contexts, the live client objects with their \<open>_client\<close> pointers,
  and the registry of clients. Reading or writing a freed context, or a client object that is not
  alive, is \<open>None\<close>. The sequence of events that a blocking call lets in is an argument. The addresses
  of new objects come from a counter.
\<close>

section \<open>State\<close>

record 'p net =
  ctxs :: "nat \<Rightarrow> 'p ctx option"
  clients :: "nat \<Rightarrow> nat option option"
  registry :: slist
  fresh :: nat
  localPort :: u16
  closed :: "'p ctx list"

definition net_init :: "'p net" where
  "net_init = \<lparr>ctxs = (\<lambda>_. None), clients = (\<lambda>_. None), registry = slist_empty, fresh = 0,
     localPort = 0, closed = []\<rparr>"

definition WIFICLIENT_MAX_PACKET_SIZE :: nat where "WIFICLIENT_MAX_PACKET_SIZE = 1460"

section \<open>Reference counts\<close>

definition ctx_ref :: "nat \<Rightarrow> 'p net \<Rightarrow> 'p net option" where
  "ctx_ref a n = (case ctxs n a of None \<Rightarrow> None
     | Some c \<Rightarrow> Some (n\<lparr>ctxs := (ctxs n)(a \<mapsto> c\<lparr>refcnt := refcnt c + 1\<rparr>)\<rparr>))"

text \<open>\<open>closed\<close> collects the contexts as they are when their connection has been closed and they are
  deleted.\<close>

definition ctx_unref :: "'p lwip \<Rightarrow> nat \<Rightarrow> 'p net \<Rightarrow> 'p net option" where
  "ctx_unref L a n = (case ctxs n a of None \<Rightarrow> None
     | Some c \<Rightarrow>
         (let c = c\<lparr>refcnt := refcnt c - 1\<rparr> in
          if refcnt c = 0 then
            (let c = ctx_flush L c; c = snd (ctx_close L c)
             in Some (n\<lparr>ctxs := (ctxs n)(a := None), closed := closed n @ [c]\<rparr>))
          else Some (n\<lparr>ctxs := (ctxs n)(a \<mapsto> c)\<rparr>)))"

section \<open>Construction and assignment\<close>

definition client_new :: "nat \<Rightarrow> 'p net \<Rightarrow> 'p net" where
  "client_new i n = n\<lparr>clients := (clients n)(i \<mapsto> None), registry := slist_add i (registry n)\<rparr>"

definition client_from :: "nat \<Rightarrow> nat \<Rightarrow> 'p net \<Rightarrow> 'p net option" where
  "client_from i a n = do {
     n \<leftarrow> ctx_ref a n;
     Some (n\<lparr>clients := (clients n)(i \<mapsto> Some a), registry := slist_add i (registry n)\<rparr>) }"

definition client_copy :: "nat \<Rightarrow> nat \<Rightarrow> 'p net \<Rightarrow> 'p net option" where
  "client_copy i other n = do {
     c \<leftarrow> clients n other;
     n \<leftarrow> (case c of None \<Rightarrow> Some n | Some a \<Rightarrow> ctx_ref a n);
     Some (n\<lparr>clients := (clients n)(i \<mapsto> c), registry := slist_add i (registry n)\<rparr>) }"

definition client_destroy :: "'p lwip \<Rightarrow> nat \<Rightarrow> 'p net \<Rightarrow> 'p net option" where
  "client_destroy L i n = do {
     c \<leftarrow> clients n i;
     r \<leftarrow> slist_remove i (registry n);
     let n = n\<lparr>registry := r\<rparr>;
     n \<leftarrow> (case c of None \<Rightarrow> Some n | Some a \<Rightarrow> ctx_unref L a n);
     Some (n\<lparr>clients := (clients n)(i := None)\<rparr>) }"

definition client_assign :: "'p lwip \<Rightarrow> nat \<Rightarrow> nat \<Rightarrow> 'p net \<Rightarrow> 'p net option" where
  "client_assign L i other n = do {
     old \<leftarrow> clients n i;
     n \<leftarrow> (case old of None \<Rightarrow> Some n | Some a \<Rightarrow> ctx_unref L a n);
     c \<leftarrow> clients n other;
     let n = n\<lparr>clients := (clients n)(i \<mapsto> c)\<rparr>;
     case c of None \<Rightarrow> Some n | Some a \<Rightarrow> ctx_ref a n }"

definition client_stop :: "'p lwip \<Rightarrow> nat \<Rightarrow> 'p net \<Rightarrow> 'p net option" where
  "client_stop L i n = do {
     c \<leftarrow> clients n i;
     (case c of
        None \<Rightarrow> Some n
      | Some a \<Rightarrow> do {
          n \<leftarrow> ctx_unref L a n;
          Some (n\<lparr>clients := (clients n)(i \<mapsto> None)\<rparr>) }) }"

definition client_stopAll :: "'p lwip \<Rightarrow> 'p net \<Rightarrow> 'p net option" where
  "client_stopAll L n = slist_each (client_stop L) (nxt (registry n)) (s_first (registry n)) n"

definition client_stopAllExcept :: "'p lwip \<Rightarrow> nat \<Rightarrow> 'p net \<Rightarrow> 'p net option" where
  "client_stopAllExcept L e n =
     slist_each (\<lambda>i n. if i \<noteq> e then client_stop L i n else Some n)
       (nxt (registry n)) (s_first (registry n)) n"

section \<open>Connecting\<close>

definition new_ctx :: "'p ctx \<Rightarrow> 'p net \<Rightarrow> nat \<times> 'p net" where
  "new_ctx c n = (fresh n, n\<lparr>ctxs := (ctxs n)(fresh n \<mapsto> c), fresh := fresh n + 1\<rparr>)"

text \<open>The callback for an established connection.\<close>

definition client_connected_cb :: "nat \<Rightarrow> 'p \<Rightarrow> u32 \<Rightarrow> 'p net \<Rightarrow> 'p net option" where
  "client_connected_cb i p garbage n =
     (case new_ctx (ClientContext p garbage) n of (a, n) \<Rightarrow>
        ctx_ref a (n\<lparr>clients := (clients n)(i \<mapsto> Some a)\<rparr>))"

text \<open>\<open>route\<close>: an interface is up; \<open>pcb_new\<close>: what \<open>tcp_new\<close> gives; \<open>established\<close>: the control block of
  the connection, unless the attempt ends with an error.\<close>

definition client_connect ::
    "'p lwip \<Rightarrow> nat \<Rightarrow> bool \<Rightarrow> bool \<Rightarrow> 'p option \<Rightarrow> u32 \<Rightarrow> 'p net \<Rightarrow> (int \<times> 'p net) option" where
  "client_connect L i route pcb_new established garbage n = do {
     c \<leftarrow> clients n i;
     n \<leftarrow> (if c \<noteq> None then client_stop L i n else Some n);
     if \<not> route then Some (0, n)
     else if \<not> pcb_new then Some (0, n)
     else do {
       let n = (if 0 < localPort n then n\<lparr>localPort := localPort n + 1\<rparr> else n);
       n \<leftarrow> (case established of None \<Rightarrow> Some n | Some p \<Rightarrow> client_connected_cb i p garbage n);
       c \<leftarrow> clients n i;
       Some (if c \<noteq> None then 1 else 0, n) } }"

definition client_connect_host ::
    "'p lwip \<Rightarrow> nat \<Rightarrow> u32 option \<Rightarrow> (u32 \<Rightarrow> bool) \<Rightarrow> bool \<Rightarrow> 'p option \<Rightarrow> u32 \<Rightarrow> 'p net \<Rightarrow> (int \<times> 'p net) option" where
  "client_connect_host L i resolved route pcb_new established garbage n =
     (case resolved of None \<Rightarrow> Some (0, n)
      | Some addr \<Rightarrow> client_connect L i (route addr) pcb_new established garbage n)"

definition setLocalPortStart :: "u16 \<Rightarrow> 'p net \<Rightarrow> 'p net" where
  "setLocalPortStart port n = n\<lparr>localPort := port\<rparr>"

section \<open>Data\<close>

text \<open>\<open>d\<close> is the result without a context, \<open>f\<close> acts on the context.\<close>

definition at_ctx :: "nat \<Rightarrow> 'r \<Rightarrow> ('p ctx \<Rightarrow> ('r \<times> 'p ctx) option) \<Rightarrow> 'p net \<Rightarrow> ('r \<times> 'p net) option" where
  "at_ctx i d f n = do {
     c \<leftarrow> clients n i;
     case c of
       None \<Rightarrow> Some (d, n)
     | Some a \<Rightarrow> do { x \<leftarrow> ctxs n a; (r, x) \<leftarrow> f x; Some (r, n\<lparr>ctxs := (ctxs n)(a \<mapsto> x)\<rparr>) } }"

definition client_write :: "'p lwip \<Rightarrow> nat \<Rightarrow> string \<Rightarrow> event list \<Rightarrow> 'p net \<Rightarrow> (u32 \<times> 'p net) option" where
  "client_write L i data es n =
     (if data = [] then map_option (\<lambda>_. (0, n)) (clients n i)
      else at_ctx i 0 (\<lambda>c. case ctx_write L data es c of (r, es, c) \<Rightarrow> Some (r, c)) n)"

function write_chunks :: "'p lwip \<Rightarrow> string \<Rightarrow> event list \<Rightarrow> 'p ctx \<Rightarrow> 'p ctx" where
  "write_chunks L data es c =
     (if data = [] then c
      else (let chunkUnitLen = (if length data < WIFICLIENT_MAX_PACKET_SIZE then length data else WIFICLIENT_MAX_PACKET_SIZE)
            in case ctx_write L (take chunkUnitLen data) es c of (r, es, c) \<Rightarrow>
                 write_chunks L (drop chunkUnitLen data) es c))"
  by pat_completeness auto
termination
  by (relation "measure (\<lambda>(L, data, es, c). length data)") (auto simp: WIFICLIENT_MAX_PACKET_SIZE_def)

declare write_chunks.simps [simp del]

definition client_write_P :: "'p lwip \<Rightarrow> nat \<Rightarrow> string \<Rightarrow> event list \<Rightarrow> 'p net \<Rightarrow> (nat \<times> 'p net) option" where
  "client_write_P L i data es n =
     (if data = [] then map_option (\<lambda>_. (0, n)) (clients n i)
      else at_ctx i 0 (\<lambda>c. Some (length data, write_chunks L data es c)) n)"

text \<open>\<open>write(T &src)\<close>: packets while more than one is left, then the rest, its length in 16 bits.\<close>

function write_stream :: "'p lwip \<Rightarrow> string \<Rightarrow> nat \<Rightarrow> event list \<Rightarrow> 'p ctx \<Rightarrow> nat \<times> 'p ctx" where
  "write_stream L src doneLen es c =
     (if WIFICLIENT_MAX_PACKET_SIZE < length src then
        (case ctx_write L (take WIFICLIENT_MAX_PACKET_SIZE src) es c of (sentLen, es, c) \<Rightarrow>
           if unat sentLen \<noteq> WIFICLIENT_MAX_PACKET_SIZE then (doneLen + unat sentLen, c)
           else write_stream L (drop WIFICLIENT_MAX_PACKET_SIZE src) (doneLen + unat sentLen) es c)
      else (case ctx_write L src es c of (sentLen, es, c) \<Rightarrow> (doneLen + unat sentLen, c)))"
  by pat_completeness auto
termination
  by (relation "measure (\<lambda>(L, src, d, es, c). length src)") (auto simp: WIFICLIENT_MAX_PACKET_SIZE_def)

declare write_stream.simps [simp del]

definition client_write_stream :: "'p lwip \<Rightarrow> nat \<Rightarrow> string \<Rightarrow> event list \<Rightarrow> 'p net \<Rightarrow> (nat \<times> 'p net) option" where
  "client_write_stream L i src es n = at_ctx i 0 (\<lambda>c. Some (write_stream L src 0 es c)) n"

definition client_available :: "nat \<Rightarrow> 'p net \<Rightarrow> (nat \<times> 'p net) option" where
  "client_available i = at_ctx i 0 (\<lambda>c. Some (ctx_getSize c, c))"

definition client_read1 :: "'p lwip \<Rightarrow> nat \<Rightarrow> 'p net \<Rightarrow> (int \<times> 'p net) option" where
  "client_read1 L i = at_ctx i (- 1) (\<lambda>c.
     if ctx_getSize c = 0 then Some (- 1, c)
     else do { (b, c) \<leftarrow> ctx_read1 L c; Some (int (of_char b), c) })"

text \<open>\<open>read(buf, size)\<close> does not look at the pointer: without a context there is no result.\<close>

definition client_read :: "'p lwip \<Rightarrow> nat \<Rightarrow> nat \<Rightarrow> 'p net \<Rightarrow> (string \<times> 'p net) option" where
  "client_read L i sz n =
     (if clients n i = Some None then None else at_ctx i [] (ctx_read L sz) n)"

definition client_peek :: "nat \<Rightarrow> 'p net \<Rightarrow> (int \<times> 'p net) option" where
  "client_peek i = at_ctx i (- 1) (\<lambda>c.
     if ctx_getSize c = 0 then Some (- 1, c)
     else do { b \<leftarrow> ctx_peek c; Some (int (of_char b), c) })"

text \<open>The events until enough has arrived or the timeout, then a look into the first buffer.\<close>

fun wait_available :: "nat \<Rightarrow> event list \<Rightarrow> 'p ctx \<Rightarrow> 'p ctx" where
  "wait_available len [] c = c"
| "wait_available len (e # es) c =
     (if ctx_getSize c < len then wait_available len es (snd (ctx_event e c)) else c)"

definition client_peekBytes :: "nat \<Rightarrow> nat \<Rightarrow> event list \<Rightarrow> 'p net \<Rightarrow> (string \<times> 'p net) option" where
  "client_peekBytes i len es = at_ctx i [] (\<lambda>c.
     let c = wait_available len es c;
         n = (if ctx_getSize c < len then ctx_getSize c else len)
     in Some (ctx_peekBytes n c, c))"

definition client_flush :: "'p lwip \<Rightarrow> nat \<Rightarrow> 'p net \<Rightarrow> (unit \<times> 'p net) option" where
  "client_flush L i = at_ctx i () (\<lambda>c. Some ((), ctx_flush L c))"

definition ESTABLISHED :: nat where "ESTABLISHED = 4"

definition client_connected :: "'p lwip \<Rightarrow> nat \<Rightarrow> 'p net \<Rightarrow> (bool \<times> 'p net) option" where
  "client_connected L i = at_ctx i False (\<lambda>c. Some (ctx_state L c = ESTABLISHED \<or> ctx_getSize c \<noteq> 0, c))"

definition client_status :: "'p lwip \<Rightarrow> nat \<Rightarrow> 'p net \<Rightarrow> (nat \<times> 'p net) option" where
  "client_status L i = at_ctx i CLOSED (\<lambda>c. Some (ctx_state L c, c))"

definition client_bool :: "nat \<Rightarrow> 'p net \<Rightarrow> bool option" where
  "client_bool i n = map_option (\<lambda>c. c \<noteq> None) (clients n i)"

definition client_setNoDelay :: "'p lwip \<Rightarrow> nat \<Rightarrow> bool \<Rightarrow> 'p net \<Rightarrow> (unit \<times> 'p net) option" where
  "client_setNoDelay L i nodelay = at_ctx i () (\<lambda>c. Some ((), ctx_setNoDelay L nodelay c))"

definition client_getNoDelay :: "'p lwip \<Rightarrow> nat \<Rightarrow> 'p net \<Rightarrow> (bool \<times> 'p net) option" where
  "client_getNoDelay L i = at_ctx i False (\<lambda>c. Some (ctx_getNoDelay L c, c))"

definition client_remoteIP :: "'p lwip \<Rightarrow> nat \<Rightarrow> 'p net \<Rightarrow> (u32 \<times> 'p net) option" where
  "client_remoteIP L i = at_ctx i 0 (\<lambda>c. Some (ctx_getRemoteAddress L c, c))"

definition client_remotePort :: "'p lwip \<Rightarrow> nat \<Rightarrow> 'p net \<Rightarrow> (u16 \<times> 'p net) option" where
  "client_remotePort L i = at_ctx i 0 (\<lambda>c. Some (ctx_getRemotePort L c, c))"

definition client_localIP :: "'p lwip \<Rightarrow> nat \<Rightarrow> 'p net \<Rightarrow> (u32 \<times> 'p net) option" where
  "client_localIP L i = at_ctx i 0 (\<lambda>c. Some (ctx_getLocalAddress L c, c))"

definition client_localPort :: "'p lwip \<Rightarrow> nat \<Rightarrow> 'p net \<Rightarrow> (u16 \<times> 'p net) option" where
  "client_localPort L i = at_ctx i 0 (\<lambda>c. Some (ctx_getLocalPort L c, c))"

interpretation tcp: refcounted refcnt "\<lambda>n c. c\<lparr>refcnt := n\<rparr>"
  by unfold_locales simp

section \<open>Memory safety\<close>

text \<open>The state invariant: exact counts, the registry holds the live clients, new addresses are new.\<close>

definition net_ok :: "'p net \<Rightarrow> bool" where
  "net_ok n \<longleftrightarrow> tcp.counted (ctxs n) (clients n)
     \<and> (\<exists>xs. slist_ok (registry n) xs \<and> set xs = dom (clients n)) \<and> (\<forall>a \<ge> fresh n. ctxs n a = None)"

lemma net_okI:
  assumes "tcp.counted (ctxs n) (clients n)" "slist_ok (registry n) xs" "set xs = dom (clients n)"
    "\<And>a. fresh n \<le> a \<Longrightarrow> ctxs n a = None"
  shows "net_ok n"
  using assms by (auto simp: net_ok_def)

lemma net_ok_init: "net_ok net_init"
  by (rule net_okI [where xs = "[]"]) (simp_all add: net_init_def tcp.counted_empty)

lemma ref_acquire:
  assumes "tcp.counted (ctxs n) H" "H i = None \<or> H i = Some None" "ctxs n a = Some c"
  shows "\<exists>h. ctx_ref a n = Some (n\<lparr>ctxs := h\<rparr>) \<and> tcp.counted h (H(i \<mapsto> Some a))
     \<and> (\<forall>b. h b = None \<longleftrightarrow> ctxs n b = None)"
  using tcp.counted_acquire [OF assms, of "c\<lparr>refcnt := refcnt c + 1\<rparr>"] assms(3)
  by (intro exI [of _ "(ctxs n)(a \<mapsto> c\<lparr>refcnt := refcnt c + 1\<rparr>)"]) (auto simp: ctx_ref_def)

lemma refcnt_flush [simp]: "refcnt (ctx_flush L c) = refcnt c" "refcnt (snd (ctx_close L c)) = refcnt c"
  by (simp_all add: ctx_flush_def recved_def ctx_close_def split: option.splits)

lemma unref_release:
  assumes "tcp.counted (ctxs n) H" "H i = Some (Some a)"
  shows "\<exists>h z. ctx_unref L a n = Some (n\<lparr>ctxs := h, closed := z\<rparr>) \<and> tcp.counted h (H(i \<mapsto> None))
     \<and> (\<forall>b. ctxs n b = None \<longrightarrow> h b = None)"
proof -
  obtain c where c: "ctxs n a = Some c" using tcp.counted_live [OF assms] by blast
  let ?d = "c\<lparr>refcnt := refcnt c - 1\<rparr>"
  have r: "tcp.counted (if refcnt ?d = 0 then (ctxs n)(a := None) else (ctxs n)(a \<mapsto> ?d)) (H(i \<mapsto> None))"
    by (rule tcp.counted_release [OF assms c]) simp
  show ?thesis
  proof (cases "refcnt ?d = 0")
    case True
    with r c show ?thesis
      by (intro exI [of _ "(ctxs n)(a := None)"]
            exI [of _ "closed n @ [snd (ctx_close L (ctx_flush L ?d))]"]) (simp add: ctx_unref_def Let_def)
  next
    case False
    with r c show ?thesis
      by (intro exI [of _ "(ctxs n)(a \<mapsto> ?d)"] exI [of _ "closed n"]) (auto simp: ctx_unref_def Let_def)
  qed
qed

datatype 'p client_op =
    New nat | From nat nat | Copy nat nat | Assign nat nat | Stop nat | Destroy nat
  | Connect nat bool bool "'p option" u32 | Write nat string "event list" | Read nat | Flush nat

fun client_step :: "'p lwip \<Rightarrow> 'p client_op \<Rightarrow> 'p net \<Rightarrow> 'p net option" where
  "client_step L (New i) n = Some (client_new i n)"
| "client_step L (From i a) n = client_from i a n"
| "client_step L (Copy i j) n = client_copy i j n"
| "client_step L (Assign i j) n = client_assign L i j n"
| "client_step L (Stop i) n = client_stop L i n"
| "client_step L (Destroy i) n = client_destroy L i n"
| "client_step L (Connect i route pcb_new p g) n = map_option snd (client_connect L i route pcb_new p g n)"
| "client_step L (Write i data es) n = map_option snd (client_write L i data es n)"
| "client_step L (Read i) n = map_option snd (client_read1 L i n)"
| "client_step L (Flush i) n = map_option snd (client_flush L i n)"

text \<open>Objects are constructed at addresses that are not in use and used while alive; no object is
  assigned to itself; contexts are well-formed when read.\<close>

fun legal :: "'p client_op \<Rightarrow> 'p net \<Rightarrow> bool" where
  "legal (New i) n \<longleftrightarrow> clients n i = None"
| "legal (From i a) n \<longleftrightarrow> clients n i = None \<and> ctxs n a \<noteq> None"
| "legal (Copy i j) n \<longleftrightarrow> clients n i = None \<and> clients n j \<noteq> None"
| "legal (Assign i j) n \<longleftrightarrow> clients n i \<noteq> None \<and> clients n j \<noteq> None \<and> i \<noteq> j"
| "legal (Stop i) n \<longleftrightarrow> clients n i \<noteq> None"
| "legal (Destroy i) n \<longleftrightarrow> clients n i \<noteq> None"
| "legal (Connect i route pcb_new p g) n \<longleftrightarrow> clients n i \<noteq> None"
| "legal (Write i data es) n \<longleftrightarrow> clients n i \<noteq> None"
| "legal (Read i) n \<longleftrightarrow> clients n i \<noteq> None \<and> (\<forall>a c. ctxs n a = Some c \<longrightarrow> ctx_ok c)"
| "legal (Flush i) n \<longleftrightarrow> clients n i \<noteq> None"

lemma stop_ok:
  assumes "net_ok n" "clients n i = Some c"
  shows "\<exists>n'. client_stop L i n = Some n' \<and> net_ok n' \<and> clients n' = (clients n)(i \<mapsto> None)"
proof (cases c)
  case None
  have "(clients n)(i \<mapsto> None) = clients n" using assms(2) None by auto
  with None assms show ?thesis by (simp add: client_stop_def)
next
  case (Some a)
  obtain xs where n: "tcp.counted (ctxs n) (clients n)" "slist_ok (registry n) xs" "set xs = dom (clients n)"
    "\<forall>a \<ge> fresh n. ctxs n a = None" using assms(1) by (auto simp: net_ok_def)
  obtain h z where u: "ctx_unref L a n = Some (n\<lparr>ctxs := h, closed := z\<rparr>)"
    "tcp.counted h ((clients n)(i \<mapsto> None))" "\<forall>b. ctxs n b = None \<longrightarrow> h b = None"
    using unref_release [OF n(1), of i a L] assms(2) Some by auto
  have "net_ok (n\<lparr>ctxs := h, closed := z, clients := (clients n)(i \<mapsto> None)\<rparr>)"
    by (rule net_okI [where xs = xs]) (use n u assms(2) in \<open>auto simp: insert_absorb domI\<close>)
  with u(1) assms(2) Some show ?thesis by (simp add: client_stop_def)
qed

lemma new_ok: "net_ok n \<Longrightarrow> clients n i = None \<Longrightarrow> net_ok (client_new i n)"
proof -
  assume a: "net_ok n" "clients n i = None"
  then obtain xs where n: "tcp.counted (ctxs n) (clients n)" "slist_ok (registry n) xs" "set xs = dom (clients n)"
    "\<forall>a \<ge> fresh n. ctxs n a = None" by (auto simp: net_ok_def)
  have "i \<notin> set xs" using n(3) a(2) by auto
  then show ?thesis
    by (intro net_okI [where xs = "i # xs"])
      (use n a(2) slist_add_ok [OF n(2)] tcp.counted_null(1) [OF n(1)] in \<open>auto simp: client_new_def\<close>)
qed

lemma from_ok:
  assumes "net_ok n" "clients n i = None" "ctxs n a \<noteq> None"
  shows "\<exists>n'. client_from i a n = Some n' \<and> net_ok n'"
proof -
  obtain xs where n: "tcp.counted (ctxs n) (clients n)" "slist_ok (registry n) xs" "set xs = dom (clients n)"
    "\<forall>a \<ge> fresh n. ctxs n a = None" using assms(1) by (auto simp: net_ok_def)
  obtain h where r: "ctx_ref a n = Some (n\<lparr>ctxs := h\<rparr>)" "tcp.counted h ((clients n)(i \<mapsto> Some a))"
    "\<forall>b. h b = None \<longleftrightarrow> ctxs n b = None"
    using ref_acquire [OF n(1), of i a] assms(2,3) by auto
  have "i \<notin> set xs" using n(3) assms(2) by auto
  then have "net_ok (n\<lparr>ctxs := h, clients := (clients n)(i \<mapsto> Some a), registry := slist_add i (registry n)\<rparr>)"
    by (intro net_okI [where xs = "i # xs"]) (use n r slist_add_ok [OF n(2)] in auto)
  with r(1) show ?thesis by (simp add: client_from_def)
qed

lemma copy_is: "clients n j = Some c \<Longrightarrow> client_copy i j n
    = (case c of None \<Rightarrow> Some (client_new i n) | Some a \<Rightarrow> client_from i a n)"
  by (cases c) (simp_all add: client_copy_def client_from_def client_new_def)

lemma destroy_ok:
  assumes "net_ok n" "clients n i = Some c"
  shows "\<exists>n'. client_destroy L i n = Some n' \<and> net_ok n'"
proof -
  obtain xs where n: "tcp.counted (ctxs n) (clients n)" "slist_ok (registry n) xs" "set xs = dom (clients n)"
    "\<forall>a \<ge> fresh n. ctxs n a = None" using assms(1) by (auto simp: net_ok_def)
  have "i \<in> set xs" using n(3) assms(2) by auto
  then obtain r where r: "slist_remove i (registry n) = Some r" "slist_ok r (remove1 i xs)"
    using slist_remove_ok [OF n(2)] by blast
  have d: "set (remove1 i xs) = dom ((clients n)(i := None))"
    using n(2,3) by (simp add: slist_ok_def)
  show ?thesis
  proof (cases c)
    case None
    have "net_ok (n\<lparr>registry := r, clients := (clients n)(i := None)\<rparr>)"
      by (rule net_okI [where xs = "remove1 i xs"])
        (use n r d assms(2) None tcp.counted_null(2) [OF n(1), of i] in auto)
    with None r assms(2) show ?thesis by (simp add: client_destroy_def)
  next
    case (Some a)
    let ?n = "n\<lparr>registry := r\<rparr>"
    obtain h z where u: "ctx_unref L a ?n = Some (?n\<lparr>ctxs := h, closed := z\<rparr>)"
      "tcp.counted h ((clients n)(i \<mapsto> None))" "\<forall>b. ctxs n b = None \<longrightarrow> h b = None"
      using unref_release [of ?n "clients n" i a L] n(1) assms(2) Some by auto
    have "tcp.counted h ((clients n)(i := None))"
      using tcp.counted_null(2) [OF u(2), of i] by simp
    then have "net_ok (?n\<lparr>ctxs := h, closed := z, clients := (clients n)(i := None)\<rparr>)"
      by (intro net_okI [where xs = "remove1 i xs"]) (use n r d u in auto)
    with u(1) r assms(2) Some show ?thesis by (simp add: client_destroy_def)
  qed
qed

lemma assign_ok:
  assumes "net_ok n" "clients n i \<noteq> None" "clients n j \<noteq> None" "i \<noteq> j"
  shows "\<exists>n'. client_assign L i j n = Some n' \<and> net_ok n'"
proof -
  obtain old c where oc: "clients n i = Some old" "clients n j = Some c" using assms(2,3) by blast
  obtain n1 where n1: "client_stop L i n = Some n1" "net_ok n1" "clients n1 = (clients n)(i \<mapsto> None)"
    using stop_ok [OF assms(1) oc(1), of L] by blast
  obtain xs where x: "tcp.counted (ctxs n1) (clients n1)" "slist_ok (registry n1) xs" "set xs = dom (clients n1)"
    "\<forall>a \<ge> fresh n1. ctxs n1 a = None" using n1(2) by (auto simp: net_ok_def)
  have cj: "clients n1 j = Some c" "clients n1 i = Some None" using n1(3) oc(2) assms(4) by auto
  have as: "client_assign L i j n = (case c of None \<Rightarrow> Some n1
      | Some a \<Rightarrow> ctx_ref a (n1\<lparr>clients := (clients n1)(i \<mapsto> Some a)\<rparr>))"
  proof (cases old)
    case None
    then have "n1 = n" using n1(1) oc(1) by (simp add: client_stop_def)
    moreover have "n\<lparr>clients := (clients n)(i \<mapsto> None)\<rparr> = n" using oc(1) None by (cases n) auto
    ultimately show ?thesis using None oc cj by (cases c) (auto simp: client_assign_def)
  next
    case (Some a)
    then obtain m where m: "ctx_unref L a n = Some m" "n1 = m\<lparr>clients := (clients m)(i \<mapsto> None)\<rparr>"
      using n1(1) oc(1) by (auto simp: client_stop_def bind_eq_Some_conv)
    have "clients m = clients n" using m(1) by (auto simp: ctx_unref_def Let_def split: option.splits if_splits)
    then have "clients m i = clients n i" "clients m j = clients n j" by simp_all
    with Some m oc cj assms(4) show ?thesis by (cases c) (auto simp: client_assign_def)
  qed
  show ?thesis
  proof (cases c)
    case None
    with as n1(2) show ?thesis by simp
  next
    case (Some b)
    let ?n = "n1\<lparr>clients := (clients n1)(i \<mapsto> Some b)\<rparr>"
    obtain y where y: "ctxs n1 b = Some y" using tcp.counted_live [OF x(1), of j b] cj(1) Some by blast
    obtain h where h: "ctx_ref b ?n = Some (?n\<lparr>ctxs := h\<rparr>)" "tcp.counted h ((clients n1)(i \<mapsto> Some b))"
      "\<forall>b. h b = None \<longleftrightarrow> ctxs n1 b = None"
      using ref_acquire [of ?n "clients n1" i b y] x(1) cj(2) y by auto
    have "net_ok (?n\<lparr>ctxs := h\<rparr>)"
      by (rule net_okI [where xs = xs]) (use x h cj(2) in \<open>auto simp: insert_absorb domI\<close>)
    with as h Some show ?thesis by simp
  qed
qed

lemma connect_ok:
  assumes "net_ok n" "clients n i \<noteq> None"
  shows "\<exists>r n'. client_connect L i route pcb_new p g n = Some (r, n') \<and> net_ok n'"
proof -
  obtain c where c: "clients n i = Some c" using assms(2) by blast
  obtain n1 where n1: "client_stop L i n = Some n1" "net_ok n1" "clients n1 i = Some None"
    using stop_ok [OF assms(1) c, of L] by auto
  have n: "(if c \<noteq> None then client_stop L i n else Some n) = Some n1"
    using n1(1) c by (cases c) (simp_all add: client_stop_def)
  let ?m = "if 0 < localPort n1 then n1\<lparr>localPort := localPort n1 + 1\<rparr> else n1"
  obtain xs where m: "tcp.counted (ctxs ?m) (clients ?m)" "slist_ok (registry ?m) xs" "set xs = dom (clients ?m)"
    "\<forall>a \<ge> fresh ?m. ctxs ?m a = None" and mi: "clients ?m i = Some None"
    using n1(2,3) by (auto simp: net_ok_def)
  show ?thesis
  proof (cases "route \<and> pcb_new \<and> p \<noteq> None")
    case False
    have "net_ok ?m" using m by (intro net_okI) auto
    with False n n1(2,3) c show ?thesis by (auto simp: client_connect_def Let_def)
  next
    case True
    then obtain q where q: "p = Some q" by blast
    let ?a = "fresh ?m" and ?x = "ClientContext q g"
    let ?m1 = "?m\<lparr>ctxs := (ctxs ?m)(?a \<mapsto> ?x), fresh := ?a + 1, clients := (clients ?m)(i \<mapsto> Some ?a)\<rparr>"
    have a: "ctxs ?m ?a = None" using m(4) by blast
    have "tcp.counted (ctxs ?m1) (clients ?m)"
      using tcp.counted_new [OF m(1) a, of ?x] by (simp add: ClientContext_def)
    then obtain h where h: "ctx_ref ?a ?m1 = Some (?m1\<lparr>ctxs := h\<rparr>)" "tcp.counted h ((clients ?m)(i \<mapsto> Some ?a))"
      "\<forall>b. h b = None \<longleftrightarrow> ctxs ?m1 b = None"
      using ref_acquire [of ?m1 "clients ?m" i ?a ?x] mi by auto
    have "net_ok (?m1\<lparr>ctxs := h\<rparr>)"
      by (rule net_okI [where xs = xs]) (use m h mi in \<open>auto simp: insert_absorb domI\<close>)
    moreover have "client_connected_cb i q g ?m = Some (?m1\<lparr>ctxs := h\<rparr>)"
      using h(1) by (simp add: client_connected_cb_def new_ctx_def)
    ultimately show ?thesis using True q n c by (simp add: client_connect_def Let_def)
  qed
qed

lemma at_ctx_ok:
  assumes "net_ok n" "clients n i \<noteq> None"
    and "\<And>a c. ctxs n a = Some c \<Longrightarrow> \<exists>r c'. f c = Some (r, c') \<and> refcnt c' = refcnt c"
  shows "\<exists>r n'. at_ctx i d f n = Some (r, n') \<and> net_ok n'"
proof -
  obtain c where c: "clients n i = Some c" using assms(2) by blast
  obtain xs where n: "tcp.counted (ctxs n) (clients n)" "slist_ok (registry n) xs" "set xs = dom (clients n)"
    "\<forall>a \<ge> fresh n. ctxs n a = None" using assms(1) by (auto simp: net_ok_def)
  show ?thesis
  proof (cases c)
    case None
    with c assms(1) show ?thesis by (simp add: at_ctx_def)
  next
    case (Some a)
    obtain x where x: "ctxs n a = Some x" using tcp.counted_live [OF n(1), of i a] c Some by blast
    obtain r y where y: "f x = Some (r, y)" "refcnt y = refcnt x" using assms(3) [OF x] by blast
    have "net_ok (n\<lparr>ctxs := (ctxs n)(a \<mapsto> y)\<rparr>)"
      by (rule net_okI [where xs = xs])
        (use n x tcp.counted_update [OF n(1) x y(2)] in \<open>auto simp: not_less_eq_eq\<close>)
    with c Some x y show ?thesis by (simp add: at_ctx_def)
  qed
qed

lemma refcnt_event [simp]: "refcnt (snd (ctx_event e c)) = refcnt c"
  by (cases e) (simp_all add: ctx_event_def ctx_sent_def ctx_recv_def ctx_error_def ctx_abort_def Let_def)

lemma refcnt_wait [simp]: "refcnt (snd (wait es c)) = refcnt c"
proof (induction es arbitrary: c)
  case (Cons e es)
  show ?case using Cons.IH [of "snd (ctx_event e c)"] by (auto simp: split_beta)
qed simp

lemma refcnt_write: "refcnt (snd (snd (ctx_write L data es c))) = refcnt c"
  by (simp add: ctx_write_def Let_def split_beta split: option.splits)

lemma ctx_read1_ok:
  assumes "ctx_ok c" "ctx_getSize c \<noteq> 0"
  shows "\<exists>b c'. ctx_read1 L c = Some (b, c') \<and> refcnt c' = refcnt c"
proof -
  obtain seg rest where s: "rx_buf c = seg # rest"
    using assms(2) by (cases "rx_buf c") (auto simp: ctx_getSize_def)
  have o: "rx_buf_offset c < length seg" using assms(1) s by (simp add: ctx_ok_def)
  then have "\<exists>c'. ctx_consume L 1 c = Some c' \<and> refcnt c' = refcnt c"
    using s by (simp add: ctx_consume_def Let_def recved_def split: option.splits)
  with s o show ?thesis by (auto simp: ctx_read1_def)
qed

lemma step_ok:
  assumes "net_ok n" "legal op n"
  shows "\<exists>n'. client_step L op n = Some n' \<and> net_ok n'"
proof (cases op)
  case (New i)
  with assms new_ok show ?thesis by simp
next
  case (From i a)
  with assms from_ok [of n i a] show ?thesis by auto
next
  case (Copy i j)
  then obtain c where c: "clients n j = Some c" "clients n i = None" using assms(2) by auto
  have "\<exists>x. ctxs n a = Some x" if "c = Some a" for a
    using assms(1) c(1) that tcp.counted_live by (auto simp: net_ok_def)
  moreover have "client_step L op n = (case c of None \<Rightarrow> Some (client_new i n) | Some a \<Rightarrow> client_from i a n)"
    using Copy copy_is [OF c(1)] by simp
  ultimately show ?thesis using new_ok [OF assms(1) c(2)] from_ok [OF assms(1) c(2)] by (cases c) auto
next
  case (Assign i j)
  with assms assign_ok [of n i j L] show ?thesis by auto
next
  case (Stop i)
  with assms stop_ok [of n i _ L] show ?thesis by auto
next
  case (Destroy i)
  with assms destroy_ok [of n i _ L] show ?thesis by auto
next
  case (Connect i route pcb_new p g)
  with assms connect_ok [of n i L route pcb_new p g] show ?thesis by auto
next
  case (Write i data es)
  have "\<exists>r c'. (case ctx_write L data es c of (r, es, c) \<Rightarrow> Some (r, c)) = Some (r, c') \<and> refcnt c' = refcnt c" for c
    using refcnt_write [of L data es c] by (cases "ctx_write L data es c") auto
  then have "\<exists>r n'. at_ctx i 0 (\<lambda>c. case ctx_write L data es c of (r, es, c) \<Rightarrow> Some (r, c)) n = Some (r, n') \<and> net_ok n'"
    using Write assms by (intro at_ctx_ok) auto
  with Write assms show ?thesis by (auto simp: client_write_def)
next
  case (Read i)
  have "\<exists>r c'. (if ctx_getSize c = 0 then Some (- 1, c)
      else do { (b, c) \<leftarrow> ctx_read1 L c; Some (int (of_char b), c) }) = Some (r, c') \<and> refcnt c' = refcnt c"
    if "ctxs n a = Some c" for a c
    using that Read assms(2) ctx_read1_ok [of c L] by fastforce
  then have "\<exists>r n'. client_read1 L i n = Some (r, n') \<and> net_ok n'"
    unfolding client_read1_def using Read assms by (intro at_ctx_ok) auto
  with Read show ?thesis by auto
next
  case (Flush i)
  have "\<exists>r n'. client_flush L i n = Some (r, n') \<and> net_ok n'"
    unfolding client_flush_def using Flush assms by (intro at_ctx_ok) auto
  with Flush show ?thesis by auto
qed

inductive client_reachable :: "'p lwip \<Rightarrow> 'p net \<Rightarrow> bool" for L where
  start: "client_reachable L net_init"
| accepted: "client_reachable L n \<Longrightarrow> refcnt c = 0 \<Longrightarrow> client_reachable L (snd (new_ctx c n))"
| op: "client_reachable L n \<Longrightarrow> legal op n \<Longrightarrow> client_step L op n = Some n' \<Longrightarrow> client_reachable L n'"

lemma reachable_net_ok: "client_reachable L n \<Longrightarrow> net_ok n"
proof (induction rule: client_reachable.induct)
  case (accepted n c)
  then obtain xs where n: "tcp.counted (ctxs n) (clients n)" "slist_ok (registry n) xs" "set xs = dom (clients n)"
    "\<forall>a \<ge> fresh n. ctxs n a = None" by (auto simp: net_ok_def)
  then show ?case
    using tcp.counted_new [OF n(1), of "fresh n" c] accepted.hyps(2)
    by (intro net_okI [where xs = xs]) (auto simp: new_ctx_def)
next
  case (op n p n')
  then show ?case using step_ok [of n p L] by auto
qed (rule net_ok_init)

section \<open>Properties\<close>

text \<open>C23: client objects are memory safe: in every state reached by constructing, copying, assigning,
  connecting, stopping, using and destroying clients, with connections accepted in between, the
  next such operation reads no freed context and no null pointer, and the reference count of every
  context is the number of clients that point to it.\<close>

theorem clients_memory_safe:
  assumes "client_reachable L n" and "legal op n"
  shows "client_step L op n \<noteq> None
     \<and> (\<forall>a c. ctxs n a = Some c \<longrightarrow> refcnt c = int (card {i. clients n i = Some (Some a)}))
     \<and> (\<forall>i a. clients n i = Some (Some a) \<longrightarrow> ctxs n a \<noteq> None)"
  using reachable_net_ok [OF assms(1)] step_ok [OF _ assms(2), of L]
  by (auto simp: net_ok_def tcp.counted_def tcp.holders_def)

lemma clients_memory_safe_witness:
  "client_step counting_lwip (Connect 7 True True (Some 0) 0) (client_new 7 net_init) \<noteq> None"
proof -
  have "client_reachable counting_lwip (client_new 7 net_init)"
    by (rule client_reachable.op [OF client_reachable.start, of "New 7"]) (simp_all add: net_init_def)
  from clients_memory_safe [OF this, of "Connect 7 True True (Some 0) 0"] show ?thesis
    by (simp add: client_new_def)
qed

text \<open>Assignment of a client to itself is a use after free: the only holder of a connection lets it
  go first, which closes and deletes the context, and then counts up the deleted one.\<close>

theorem self_assignment_frees:
  assumes "clients n i = Some (Some a)" and "ctxs n a = Some c" and "refcnt c = 1"
  shows "client_assign L i i n = None"
  using assms by (simp add: client_assign_def ctx_unref_def ctx_ref_def Let_def)

lemma self_assignment_frees_witness:
  "client_assign counting_lwip 7 7 (snd (the (client_connect counting_lwip 7 True True (Some 0) 0 (client_new 7 net_init)))) = None"
  by (rule self_assignment_frees [where a = 0 and c = "(ClientContext 0 0)\<lparr>refcnt := 1\<rparr>"])
    (simp_all add: client_connect_def client_new_def net_init_def client_connected_cb_def new_ctx_def
      ctx_ref_def ClientContext_def Let_def)

end
