(* ===== verification/Wifi_Server.thy ===== *)
theory Wifi_Server
  imports Wifi_Client
begin

text \<open>
  The listening socket (\<open>src/ESP8266WiFi/src/WiFiServer.cpp\<close>): accepted connections are appended to
  a list linked through the contexts and handed out by \<open>available\<close>. \<open>'q\<close> is lwIP's control block
  of the listener. The invariant \<open>waiting\<close> relates the pointers to the queue of connections.
\<close>

section \<open>Operations\<close>

record 'q listen_lwip =
  tcp_new :: "'q option"
  tcp_bind :: "u32 \<Rightarrow> u16 \<Rightarrow> 'q \<Rightarrow> bool"
  tcp_listen :: "'q \<Rightarrow> 'q option"
  listen_state :: "'q \<Rightarrow> nat"

record 'q server =
  sport :: u16
  saddr :: u32
  spcb :: "'q option"
  unclaimed_ctx :: "nat option"
  noDelay :: bool

definition WiFiServer :: "u32 \<Rightarrow> u16 \<Rightarrow> 'q server" where
  "WiFiServer addr port = \<lparr>sport = port, saddr = addr, spcb = None, unclaimed_ctx = None, noDelay = False\<rparr>"

definition wserver_close :: "'q server \<Rightarrow> 'q server" where
  "wserver_close s = (if spcb s = None then s else s\<lparr>spcb := None\<rparr>)"

definition wserver_begin :: "'q listen_lwip \<Rightarrow> 'q server \<Rightarrow> 'q server" where
  "wserver_begin L s =
     (let s = wserver_close s in
      case tcp_new L of
        None \<Rightarrow> s
      | Some p \<Rightarrow>
          if \<not> tcp_bind L (saddr s) (sport s) p then s
          else (case tcp_listen L p of None \<Rightarrow> s | Some q \<Rightarrow> s\<lparr>spcb := Some q\<rparr>))"

definition wserver_setNoDelay :: "bool \<Rightarrow> 'q server \<Rightarrow> 'q server" where
  "wserver_setNoDelay b s = s\<lparr>noDelay := b\<rparr>"

definition wserver_getNoDelay :: "'q server \<Rightarrow> bool" where
  "wserver_getNoDelay s = noDelay s"

definition wserver_hasClient :: "'q server \<Rightarrow> bool" where
  "wserver_hasClient s = (if unclaimed_ctx s \<noteq> None then True else False)"

definition wserver_status :: "'q listen_lwip \<Rightarrow> 'q server \<Rightarrow> nat" where
  "wserver_status L s = (case spcb s of None \<Rightarrow> CLOSED | Some p \<Rightarrow> listen_state L p)"

definition wserver_write :: "string \<Rightarrow> nat" where
  "wserver_write buffer = 0"

text \<open>The object the result is constructed in is \<open>i\<close>.\<close>

definition wserver_available ::
    "'p lwip \<Rightarrow> nat \<Rightarrow> 'q server \<Rightarrow> 'p net \<Rightarrow> ('q server \<times> 'p net) option" where
  "wserver_available L i s n = (case unclaimed_ctx s of
     Some a \<Rightarrow> do {
       n \<leftarrow> client_from i a n;
       c \<leftarrow> ctxs n a;
       let s = s\<lparr>unclaimed_ctx := next_ctx c\<rparr>;
       (_, n) \<leftarrow> client_setNoDelay L i (noDelay s) n;
       Some (s, n) }
   | None \<Rightarrow> Some (s, client_new i n))"

partial_function (option) last_of :: "(nat \<Rightarrow> 'p ctx option) \<Rightarrow> nat \<Rightarrow> nat option" where
  "last_of h a = (case h a of None \<Rightarrow> None
     | Some c \<Rightarrow> (case next_ctx c of None \<Rightarrow> Some a | Some b \<Rightarrow> last_of h b))"

definition slist_append_tail ::
    "nat option \<Rightarrow> nat \<Rightarrow> (nat \<Rightarrow> 'p ctx option) \<Rightarrow> (nat option \<times> (nat \<Rightarrow> 'p ctx option)) option" where
  "slist_append_tail head item h = (case head of
     None \<Rightarrow> Some (Some item, h)
   | Some a \<Rightarrow> do {
       l \<leftarrow> last_of h a;
       c \<leftarrow> h l;
       Some (head, h(l \<mapsto> c\<lparr>next_ctx := Some item\<rparr>)) })"

definition wserver_accept :: "'p \<Rightarrow> u32 \<Rightarrow> 'q server \<Rightarrow> 'p net \<Rightarrow> ('q server \<times> 'p net) option" where
  "wserver_accept p garbage s n =
     (case new_ctx (ClientContext p garbage) n of (a, n) \<Rightarrow>
        map_option (\<lambda>(head, h). (s\<lparr>unclaimed_ctx := head\<rparr>, n\<lparr>ctxs := h\<rparr>))
          (slist_append_tail (unclaimed_ctx s) a (ctxs n)))"

section \<open>The queue\<close>

definition next_of :: "(nat \<Rightarrow> 'p ctx option) \<Rightarrow> nat \<Rightarrow> nat option" where
  "next_of h a = Option.bind (h a) next_ctx"

definition waiting :: "'q server \<Rightarrow> 'p net \<Rightarrow> nat list \<Rightarrow> bool" where
  "waiting s n xs \<longleftrightarrow> chain_of (next_of (ctxs n)) (unclaimed_ctx s) xs \<and> distinct xs
     \<and> (\<forall>x \<in> set xs. ctxs n x \<noteq> None) \<and> (\<forall>a \<ge> fresh n. ctxs n a = None)"

lemma last_of_chain:
  "chain_of (next_of h) (Some x) (x # xs) \<Longrightarrow> \<forall>y \<in> set (x # xs). h y \<noteq> None \<Longrightarrow>
     last_of h x = Some (last (x # xs)) \<and> next_of h (last (x # xs)) = None"
proof (induction xs arbitrary: x)
  case Nil
  then show ?case by (subst last_of.simps) (auto simp: next_of_def split: option.splits)
next
  case (Cons y ys)
  then have "next_of h x = Some y" by simp
  then obtain c where "h x = Some c" "next_ctx c = Some y" by (auto simp: next_of_def bind_eq_Some_conv)
  then have "last_of h x = last_of h y" by (subst last_of.simps) simp
  with Cons.IH [of y] Cons.prems show ?case by simp
qed

lemma next_of_upd: "h a = Some c \<Longrightarrow> next_of (h(a \<mapsto> c\<lparr>next_ctx := v\<rparr>)) = (next_of h)(a := v)"
  by (auto simp: next_of_def fun_eq_iff)

lemma chain_extend:
  "chain_of nx p xs \<Longrightarrow> distinct xs \<Longrightarrow> xs \<noteq> [] \<Longrightarrow> a \<notin> set xs \<Longrightarrow> nx a = None \<Longrightarrow>
     chain_of (nx(last xs := Some a)) p (xs @ [a])"
proof (induction xs arbitrary: p)
  case (Cons x xs)
  show ?case
  proof (cases "xs = []")
    case True
    with Cons.prems show ?thesis by auto
  next
    case False
    then have "last xs \<noteq> x" using Cons.prems(2) last_in_set by force
    with False Cons show ?thesis by auto
  qed
qed simp

lemma accept_ok:
  assumes "waiting s n xs"
  shows "\<exists>s' n'. wserver_accept p g s n = Some (s', n') \<and> waiting s' n' (xs @ [fresh n])
     \<and> clients n' = clients n \<and> pcb (the (ctxs n' (fresh n))) = Some p"
proof -
  let ?a = "fresh n"
  let ?h = "(ctxs n)(?a \<mapsto> ClientContext p g)"
  have a: "?a \<notin> set xs" "ctxs n ?a = None" using assms by (auto simp: waiting_def)
  have nx: "next_of ?h = next_of (ctxs n)" using a by (auto simp: next_of_def fun_eq_iff ClientContext_def)
  show ?thesis
  proof (cases xs)
    case Nil
    with assms have "unclaimed_ctx s = None" by (simp add: waiting_def)
    then show ?thesis using assms Nil
      by (auto simp: wserver_accept_def new_ctx_def slist_append_tail_def waiting_def next_of_def ClientContext_def)
  next
    case (Cons x ys)
    with assms have u: "unclaimed_ctx s = Some x" by (simp add: waiting_def)
    have c: "chain_of (next_of ?h) (Some x) (x # ys)" using assms Cons nx by (simp add: waiting_def)
    have l: "last_of ?h x = Some (last xs)"
      using last_of_chain [OF c] assms Cons by (auto simp: waiting_def)
    have lx: "last xs \<in> set xs" "last xs \<noteq> ?a" using a Cons last_in_set [of xs] by force+
    then obtain cl where cl: "?h (last xs) = Some cl" using assms by (auto simp: waiting_def)
    let ?h' = "?h(last xs \<mapsto> cl\<lparr>next_ctx := Some ?a\<rparr>)"
    have "chain_of ((next_of ?h)(last xs := Some ?a)) (Some x) (xs @ [?a])"
      by (rule chain_extend) (use c Cons a assms nx in \<open>auto simp: waiting_def next_of_def\<close>)
    then have ch: "chain_of (next_of ?h') (Some x) (xs @ [?a])" unfolding next_of_upd [of ?h, OF cl] .
    have "waiting (s\<lparr>unclaimed_ctx := Some x\<rparr>) (n\<lparr>ctxs := ?h', fresh := ?a + 1\<rparr>) (xs @ [?a])"
      using ch assms a lx by (auto simp: waiting_def)
    moreover have "wserver_accept p g s n
        = Some (s\<lparr>unclaimed_ctx := Some x\<rparr>, n\<lparr>ctxs := ?h', fresh := ?a + 1\<rparr>)"
      using u l cl by (simp add: wserver_accept_def new_ctx_def slist_append_tail_def)
    ultimately show ?thesis using lx by (auto simp: ClientContext_def)
  qed
qed

lemma available_ok:
  assumes "waiting s n (x # xs)"
  shows "\<exists>s' n'. wserver_available L i s n = Some (s', n') \<and> waiting s' n' xs \<and> clients n' = (clients n)(i \<mapsto> Some x)"
proof -
  obtain c where c: "ctxs n x = Some c" "unclaimed_ctx s = Some x" "chain_of (next_of (ctxs n)) (next_ctx c) xs"
    using assms by (auto simp: waiting_def next_of_def)
  let ?d = "ctx_setNoDelay L (noDelay s) (c\<lparr>refcnt := refcnt c + 1\<rparr>)"
  have d: "next_ctx ?d = next_ctx c" by (simp add: ctx_setNoDelay_def split: option.splits)
  let ?n = "n\<lparr>ctxs := (ctxs n)(x \<mapsto> ?d), clients := (clients n)(i \<mapsto> Some x), registry := slist_add i (registry n)\<rparr>"
  have "wserver_available L i s n = Some (s\<lparr>unclaimed_ctx := next_ctx c\<rparr>, ?n)"
    using c(1,2) by (simp add: wserver_available_def client_from_def ctx_ref_def client_setNoDelay_def at_ctx_def)
  moreover have "next_of (ctxs ?n) = next_of (ctxs n)" using c(1) d by (auto simp: next_of_def fun_eq_iff)
  then have "waiting (s\<lparr>unclaimed_ctx := next_ctx c\<rparr>) ?n xs" using assms c by (auto simp: waiting_def)
  ultimately show ?thesis by auto
qed

section \<open>Properties\<close>

text \<open>C24: connections are handed out in the order they were accepted: \<open>_accept\<close> appends the new
  connection to the queue the pointers represent, \<open>available\<close> gives its head to a new client object
  and leaves the rest, and gives an empty client when nothing waits.\<close>

theorem server_fifo:
  assumes "waiting s n xs"
  shows "(\<exists>s' n'. wserver_accept p g s n = Some (s', n') \<and> waiting s' n' (xs @ [fresh n])
            \<and> pcb (the (ctxs n' (fresh n))) = Some p)
     \<and> (case xs of
          [] \<Rightarrow> wserver_available L i s n = Some (s, client_new i n)
        | x # ys \<Rightarrow> (\<exists>s' n'. wserver_available L i s n = Some (s', n') \<and> waiting s' n' ys
            \<and> clients n' i = Some (Some x)))"
proof (cases xs)
  case Nil
  with assms accept_ok [OF assms, of p g] show ?thesis
    by (auto simp: waiting_def wserver_available_def)
next
  case (Cons x ys)
  with accept_ok [OF assms, of p g] available_ok [of s n x ys L i] assms show ?thesis by auto
qed

lemma server_fifo_witness:
  "\<exists>s' n'. wserver_accept (0 :: nat) 0 (WiFiServer 0 80) net_init = Some (s', n') \<and> waiting s' n' [0]"
proof -
  have w: "waiting (WiFiServer 0 80) net_init []" and f: "fresh net_init = 0"
    by (simp_all add: waiting_def WiFiServer_def net_init_def)
  from server_fifo [OF w, where p = 0 and g = 0 and L = counting_lwip and i = 0] show ?thesis unfolding f by auto
qed

end
