(* ===== verification/Udp_Context.thy ===== *)
theory Udp_Context
  imports Http_State
begin

text \<open>
  A UDP socket on top of lwIP (\<open>src/ESP8266WiFi/src/include/UdpContext.h\<close>): the queue of received
  datagrams with its read offset, and the packet under construction, a chain of buffers of 128
  bytes. A received datagram is one pbuf, with the addresses of its IP and UDP headers. lwIP is a
  record of its functions on a control block \<open>'p\<close>; its allocations succeed. The receive handler
  set by \<open>onRx\<close> is an argument of \<open>udp_recv\<close>. \<open>None\<close> is a null pointer dereferenced.
\<close>

section \<open>State\<close>

record datagram =
  payload :: string
  src_addr :: u32
  src_port :: u16
  dst_addr :: u32

record 'p udp_lwip =
  udp_bind :: "u32 \<Rightarrow> u16 \<Rightarrow> 'p \<Rightarrow> bool \<times> 'p"
  udp_sendto :: "string \<Rightarrow> u32 \<Rightarrow> u16 \<Rightarrow> 'p \<Rightarrow> bool \<times> 'p"
  udp_disconnect :: "'p \<Rightarrow> 'p"
  ip_addr_ismulticast :: "u32 \<Rightarrow> bool"
  get_ttl :: "'p \<Rightarrow> u16"
  set_ttl :: "u16 \<Rightarrow> 'p \<Rightarrow> 'p"
  set_multicast_ip :: "u32 \<Rightarrow> 'p \<Rightarrow> 'p"
  pcb_local_port :: "'p \<Rightarrow> u16"

record 'p udp =
  upcb :: 'p
  urx_buf :: "datagram list"
  first_buf_taken :: bool
  urx_offset :: nat
  urefcnt :: int
  tx_bufs :: "string list"
  tx_cur :: nat
  tx_offset :: nat
  multicast_ttl :: u16
  dest_port :: u16
  dest_addr :: u32

definition UdpContext :: "'p \<Rightarrow> 'p udp" where
  "UdpContext p = \<lparr>upcb = p, urx_buf = [], first_buf_taken = False, urx_offset = 0, urefcnt = 0,
     tx_bufs = [], tx_cur = 0, tx_offset = 0, multicast_ttl = 1, dest_port = 0, dest_addr = 0\<rparr>"

definition udp_connect :: "u32 \<Rightarrow> u16 \<Rightarrow> 'p udp \<Rightarrow> bool \<times> 'p udp" where
  "udp_connect addr port c = (True, c\<lparr>dest_addr := addr, dest_port := port\<rparr>)"

definition udp_listen :: "'p udp_lwip \<Rightarrow> u32 \<Rightarrow> u16 \<Rightarrow> 'p udp \<Rightarrow> bool \<times> 'p udp" where
  "udp_listen L addr port c = (case udp_bind L addr port (upcb c) of (ok, p) \<Rightarrow> (ok, c\<lparr>upcb := p\<rparr>))"

definition udp_disconnect_ctx :: "'p udp_lwip \<Rightarrow> 'p udp \<Rightarrow> 'p udp" where
  "udp_disconnect_ctx L c = c\<lparr>upcb := udp_disconnect L (upcb c)\<rparr>"

definition setMulticastInterface :: "'p udp_lwip \<Rightarrow> u32 \<Rightarrow> 'p udp \<Rightarrow> 'p udp" where
  "setMulticastInterface L addr c = c\<lparr>upcb := set_multicast_ip L addr (upcb c)\<rparr>"

definition setMulticastTTL :: "int \<Rightarrow> 'p udp \<Rightarrow> 'p udp" where
  "setMulticastTTL ttl c = c\<lparr>multicast_ttl := of_int ttl\<rparr>"

section \<open>Receiving\<close>

definition udp_getSize :: "'p udp \<Rightarrow> nat" where
  "udp_getSize c = (case urx_buf c of [] \<Rightarrow> 0 | d # ds \<Rightarrow> length (payload d) - urx_offset c)"

definition udp_getRemoteAddress :: "'p udp \<Rightarrow> u32" where
  "udp_getRemoteAddress c = (case urx_buf c of [] \<Rightarrow> 0 | d # ds \<Rightarrow> src_addr d)"

definition udp_getRemotePort :: "'p udp \<Rightarrow> u16" where
  "udp_getRemotePort c = (case urx_buf c of [] \<Rightarrow> 0 | d # ds \<Rightarrow> src_port d)"

definition udp_getDestAddress :: "'p udp \<Rightarrow> u32 option" where
  "udp_getDestAddress c = (case urx_buf c of [] \<Rightarrow> None | d # ds \<Rightarrow> Some (dst_addr d))"

definition udp_getLocalPort :: "'p udp_lwip \<Rightarrow> 'p udp \<Rightarrow> u16" where
  "udp_getLocalPort L c = pcb_local_port L (upcb c)"

definition udp_next :: "'p udp \<Rightarrow> bool \<times> 'p udp" where
  "udp_next c = (case urx_buf c of
     [] \<Rightarrow> (False, c)
   | d # ds \<Rightarrow>
       if \<not> first_buf_taken c then (True, c\<lparr>first_buf_taken := True\<rparr>)
       else (ds \<noteq> [], c\<lparr>urx_buf := ds, urx_offset := 0\<rparr>))"

definition udp_consume :: "nat \<Rightarrow> 'p udp \<Rightarrow> 'p udp" where
  "udp_consume n c = c\<lparr>urx_offset := urx_offset c + n\<rparr>"

definition udp_peek :: "'p udp \<Rightarrow> int" where
  "udp_peek c = (case urx_buf c of [] \<Rightarrow> - 1 | d # ds \<Rightarrow>
     if urx_offset c = length (payload d) then - 1 else int (of_char (payload d ! urx_offset c)))"

definition udp_read1 :: "'p udp \<Rightarrow> int \<times> 'p udp" where
  "udp_read1 c = (case urx_buf c of [] \<Rightarrow> (- 1, c) | d # ds \<Rightarrow>
     if urx_offset c = length (payload d) then (- 1, c)
     else (int (of_char (payload d ! urx_offset c)), udp_consume 1 c))"

definition udp_read :: "nat \<Rightarrow> 'p udp \<Rightarrow> string \<times> 'p udp" where
  "udp_read n c = (case urx_buf c of [] \<Rightarrow> ([], c) | d # ds \<Rightarrow>
     (let max_size = length (payload d) - urx_offset c;
          n = (if n < max_size then n else max_size)
      in (take n (drop (urx_offset c) (payload d)), udp_consume n c)))"

definition udp_flush :: "'p udp \<Rightarrow> 'p udp" where
  "udp_flush c = (case urx_buf c of [] \<Rightarrow> c | d # ds \<Rightarrow> udp_consume (length (payload d) - urx_offset c) c)"

definition udp_recv :: "('p udp \<Rightarrow> 'p udp) option \<Rightarrow> datagram \<Rightarrow> 'p udp \<Rightarrow> 'p udp" where
  "udp_recv on_rx d c =
     (let c = (if urx_buf c \<noteq> [] then c\<lparr>urx_buf := urx_buf c @ [d]\<rparr>
               else c\<lparr>first_buf_taken := False, urx_buf := [d], urx_offset := 0\<rparr>)
      in case on_rx of None \<Rightarrow> c | Some f \<Rightarrow> f c)"

section \<open>Sending\<close>

definition pbuf_unit_size :: nat where "pbuf_unit_size = 128"

lemma pbuf_unit_pos [simp]: "0 < pbuf_unit_size" "pbuf_unit_size \<noteq> 0" by (simp_all add: pbuf_unit_size_def)

text \<open>A fresh buffer; its bytes are what the heap holds, here zeros.\<close>

definition pbuf_alloc :: string where "pbuf_alloc = replicate pbuf_unit_size (CHR 0x00)"

function grow :: "nat \<Rightarrow> string list \<Rightarrow> string list" where
  "grow grow_size bufs =
     (if grow_size = 0 then bufs
      else if grow_size < pbuf_unit_size then bufs @ [pbuf_alloc]
      else grow (grow_size - pbuf_unit_size) (bufs @ [pbuf_alloc]))"
  by pat_completeness auto
termination by (relation "measure fst") (auto simp: pbuf_unit_size_def)

declare grow.simps [simp del]

definition udp_reserve :: "nat \<Rightarrow> 'p udp \<Rightarrow> 'p udp" where
  "udp_reserve n c =
     (let c = (if tx_bufs c = [] then c\<lparr>tx_bufs := [pbuf_alloc], tx_cur := 0, tx_offset := 0\<rparr> else c);
          cur_size = length (concat (tx_bufs c))
      in if n < cur_size then c else c\<lparr>tx_bufs := grow (n - cur_size) (tx_bufs c)\<rparr>)"

function append_loop :: "string \<Rightarrow> 'p udp \<Rightarrow> 'p udp option" where
  "append_loop data c =
     (if data = [] then Some c
      else if tx_cur c < length (tx_bufs c) then
        (let cur = tx_bufs c ! tx_cur c;
             used_cur = tx_offset c - length (concat (take (tx_cur c) (tx_bufs c)));
             free_cur = length cur - used_cur
         in if free_cur = 0 then append_loop data (c\<lparr>tx_cur := tx_cur c + 1\<rparr>)
            else (let will_copy = (if length data < free_cur then length data else free_cur)
                  in append_loop (drop will_copy data)
                       (c\<lparr>tx_bufs := (tx_bufs c)[tx_cur c := blit used_cur (take will_copy data) cur],
                          tx_offset := tx_offset c + will_copy\<rparr>)))
      else None)"
  by pat_completeness auto
termination
  by (relation "measures [\<lambda>(data, c). length data, \<lambda>(data, c). length (tx_bufs c) - tx_cur c]")
    (auto simp: not_less)

declare append_loop.simps [simp del]

definition udp_append :: "string \<Rightarrow> 'p udp \<Rightarrow> (nat \<times> 'p udp) option" where
  "udp_append data c =
     (let c = (if tx_bufs c = [] \<or> length (concat (tx_bufs c)) < tx_offset c + length data
               then udp_reserve (tx_offset c + length data) c else c)
      in map_option (Pair (length data)) (append_loop data c))"

text \<open>The copy of the chain that \<open>send\<close> hands to lwIP.\<close>

fun tx_copy :: "nat \<Rightarrow> string list \<Rightarrow> string" where
  "tx_copy data_size [] = []"
| "tx_copy data_size (p # ps) =
     (let will_copy = (if data_size < length p then data_size else length p)
      in take will_copy p @ tx_copy (data_size - will_copy) ps)"

definition udp_send :: "'p udp_lwip \<Rightarrow> (u32 \<times> u16) option \<Rightarrow> 'p udp \<Rightarrow> bool \<times> 'p udp" where
  "udp_send L dst c =
     (let copy = tx_copy (tx_offset c) (tx_bufs c);
          c = c\<lparr>tx_bufs := [], tx_cur := 0, tx_offset := 0\<rparr>;
          (addr, port) = (case dst of None \<Rightarrow> (dest_addr c, dest_port c) | Some d \<Rightarrow> d);
          old_ttl = get_ttl L (upcb c);
          p = (if ip_addr_ismulticast L addr then set_ttl L (multicast_ttl c) (upcb c) else upcb c);
          (ok, p) = udp_sendto L copy addr port p;
          p = set_ttl L old_ttl p
      in (ok, c\<lparr>upcb := p\<rparr>))"

section \<open>Packets are assembled as they are written\<close>

text \<open>The packet so far: \<open>tx_offset\<close> bytes of the chain are used, and the current buffer holds the
  place where the next byte goes.\<close>

definition written :: "'p udp \<Rightarrow> string" where
  "written c = take (tx_offset c) (concat (tx_bufs c))"

definition tx_ok :: "'p udp \<Rightarrow> bool" where
  "tx_ok c \<longleftrightarrow> (\<forall>b \<in> set (tx_bufs c). length b = pbuf_unit_size) \<and> tx_offset c \<le> length (concat (tx_bufs c))
     \<and> (tx_bufs c = [] \<longrightarrow> tx_cur c = 0) \<and> pbuf_unit_size * tx_cur c \<le> tx_offset c"

lemma length_units: "(\<forall>b \<in> set bs. length b = pbuf_unit_size) \<Longrightarrow> length (concat bs) = pbuf_unit_size * length bs"
  by (induction bs) auto

lemma grow_units:
  "\<forall>b \<in> set bufs. length b = pbuf_unit_size \<Longrightarrow>
     \<exists>k. grow n bufs = bufs @ replicate k pbuf_alloc \<and> n \<le> pbuf_unit_size * k"
proof (induction n bufs rule: grow.induct)
  case (1 n bufs)
  consider "n = 0" | "0 < n" "n < pbuf_unit_size" | "pbuf_unit_size \<le> n" "n \<noteq> 0" by linarith
  then show ?case
  proof cases
    case 1
    then show ?thesis by (subst grow.simps) (auto intro: exI [of _ 0])
  next
    case 2
    then show ?thesis by (subst grow.simps) (auto intro!: exI [of _ 1])
  next
    case 3
    then obtain k where k: "grow (n - pbuf_unit_size) (bufs @ [pbuf_alloc]) = (bufs @ [pbuf_alloc]) @ replicate k pbuf_alloc"
      "n - pbuf_unit_size \<le> pbuf_unit_size * k"
      using "1.IH" "1.prems" by (auto simp: pbuf_alloc_def)
    have "grow n bufs = grow (n - pbuf_unit_size) (bufs @ [pbuf_alloc])"
      by (subst grow.simps) (use 3 in simp)
    with k show ?thesis by (intro exI [of _ "Suc k"]) auto
  qed
qed

lemma written_append:
  assumes "tx_offset c \<le> length (concat (tx_bufs c))"
  shows "written (c\<lparr>tx_bufs := tx_bufs c @ bs\<rparr>) = written c"
  using assms by (simp add: written_def)

lemma reserve_ok:
  assumes "tx_ok c"
  shows "tx_ok (udp_reserve n c) \<and> written (udp_reserve n c) = written c
     \<and> n \<le> length (concat (tx_bufs (udp_reserve n c))) \<and> tx_bufs (udp_reserve n c) \<noteq> []
     \<and> (\<exists>bs. udp_reserve n c = c\<lparr>tx_bufs := bs\<rparr>)"
proof -
  define d where "d = (if tx_bufs c = [] then c\<lparr>tx_bufs := [pbuf_alloc], tx_cur := 0, tx_offset := 0\<rparr> else c)"
  have e: "tx_bufs c = [] \<Longrightarrow> tx_cur c = 0 \<and> tx_offset c = 0" using assms by (simp add: tx_ok_def)
  have d0: "d = c\<lparr>tx_bufs := (if tx_bufs c = [] then [pbuf_alloc] else tx_bufs c)\<rparr>"
    using e by (cases c) (auto simp: d_def)
  have d1: "\<exists>bs. d = c\<lparr>tx_bufs := bs\<rparr>" using d0 by blast
  have d2: "tx_ok d" "written d = written c" "tx_bufs d \<noteq> []"
    using assms e by (auto simp: d_def tx_ok_def written_def pbuf_alloc_def)
  note d = d2 d1
  show ?thesis
  proof (cases "n < length (concat (tx_bufs d))")
    case True
    then show ?thesis using d by (simp add: udp_reserve_def Let_def flip: d_def)
  next
    case False
    obtain k where k: "grow (n - length (concat (tx_bufs d))) (tx_bufs d) = tx_bufs d @ replicate k pbuf_alloc"
      "n - length (concat (tx_bufs d)) \<le> pbuf_unit_size * k"
      using grow_units d(1) unfolding tx_ok_def by blast
    let ?e = "d\<lparr>tx_bufs := tx_bufs d @ replicate k pbuf_alloc\<rparr>"
    have r: "udp_reserve n c = ?e"
      using False k(1) by (simp add: udp_reserve_def Let_def flip: d_def)
    have l: "length (concat (replicate k pbuf_alloc)) = pbuf_unit_size * k"
      by (subst length_units) (auto simp: pbuf_alloc_def)
    have "tx_ok ?e" using d(1,3) by (auto simp: tx_ok_def pbuf_alloc_def)
    moreover have "written ?e = written d" by (rule written_append) (use d(1) in \<open>simp add: tx_ok_def\<close>)
    ultimately show ?thesis unfolding r using d k(2) l by auto
  qed
qed

lemma concat_update:
  assumes "\<forall>b \<in> set bs. length b = m" and "i < length bs" and "u + length s \<le> m"
  shows "concat (bs[i := blit u s (bs ! i)]) = blit (m * i + u) s (concat bs)"
  using assms
proof (induction bs arbitrary: i)
  case (Cons b bs)
  show ?case
  proof (cases i)
    case 0
    with Cons.prems show ?thesis by (simp add: blit_def)
  next
    case (Suc j)
    with Cons show ?thesis by (simp add: blit_def add.assoc)
  qed
qed simp

lemma take_blit: "a \<le> length xs \<Longrightarrow> take (a + length bs) (blit a bs xs) = take a xs @ bs"
  by (simp add: blit_def)

lemma append_loop_ok:
  "tx_ok c \<Longrightarrow> tx_offset c + length data \<le> length (concat (tx_bufs c)) \<Longrightarrow>
     \<exists>bs k. append_loop data c = Some (c\<lparr>tx_bufs := bs, tx_cur := k, tx_offset := tx_offset c + length data\<rparr>)
       \<and> tx_ok (c\<lparr>tx_bufs := bs, tx_cur := k, tx_offset := tx_offset c + length data\<rparr>)
       \<and> take (tx_offset c + length data) (concat bs) = written c @ data"
proof (induction data c rule: append_loop.induct)
  case (1 data c)
  have u: "\<forall>b \<in> set (tx_bufs c). length b = pbuf_unit_size" using "1.prems" by (simp add: tx_ok_def)
  show ?case
  proof (cases "data = []")
    case True
    with "1.prems" show ?thesis
      by (subst append_loop.simps) (auto simp: written_def intro!: exI [of _ "tx_bufs c"] exI [of _ "tx_cur c"])
  next
    case False
    have "pbuf_unit_size * tx_cur c < pbuf_unit_size * length (tx_bufs c)"
      using "1.prems" False by (simp add: tx_ok_def flip: length_units [OF u]) (cases data; simp)
    then have cur: "tx_cur c < length (tx_bufs c)" by simp
    have pre: "length (concat (take (tx_cur c) (tx_bufs c))) = pbuf_unit_size * tx_cur c"
      using length_units [of "take (tx_cur c) (tx_bufs c)"] u cur by (auto dest: in_set_takeD)
    have lc: "length (tx_bufs c ! tx_cur c) = pbuf_unit_size" using u cur by simp
    define used where "used = tx_offset c - pbuf_unit_size * tx_cur c"
    have off: "tx_offset c = pbuf_unit_size * tx_cur c + used" using "1.prems"(1) by (simp add: tx_ok_def used_def)
    show ?thesis
    proof (cases "pbuf_unit_size - used = 0")
      case True
      let ?c = "c\<lparr>tx_cur := tx_cur c + 1\<rparr>"
      have "append_loop data c = append_loop data ?c"
        by (subst append_loop.simps) (use False cur pre lc True in \<open>simp add: Let_def used_def\<close>)
      moreover have "tx_ok ?c" using "1.prems"(1) True off by (auto simp: tx_ok_def)
      ultimately show ?thesis
        using "1.IH"(1) [OF False cur refl refl refl] "1.prems"(2) True pre lc
        by (auto simp: used_def written_def)
    next
      case f: False
      define k where "k = (if length data < pbuf_unit_size - used then length data else pbuf_unit_size - used)"
      have k: "k \<le> pbuf_unit_size - used" "k \<le> length data" "used + k \<le> pbuf_unit_size" using f by (auto simp: k_def)
      let ?c = "c\<lparr>tx_bufs := (tx_bufs c)[tx_cur c := blit used (take k data) (tx_bufs c ! tx_cur c)],
                  tx_offset := tx_offset c + k\<rparr>"
      have st: "append_loop data c = append_loop (drop k data) ?c"
        by (subst append_loop.simps) (use False cur pre lc f in \<open>simp add: Let_def used_def k_def\<close>)
      have cc: "concat (tx_bufs ?c) = blit (tx_offset c) (take k data) (concat (tx_bufs c))"
        using concat_update [OF u cur, of used "take k data"] k off by simp
      have len: "tx_offset c + length (take k data) \<le> length (concat (tx_bufs c))" using "1.prems"(2) k by simp
      have u': "\<forall>b \<in> set (tx_bufs ?c). length b = pbuf_unit_size"
        using u lc k(3) k(2) length_blit [of used "take k data" "tx_bufs c ! tx_cur c"]
        by (auto dest!: set_update_subset_insert [THEN subsetD])
      have lb: "length (concat (tx_bufs ?c)) = length (concat (tx_bufs c))"
        unfolding cc by (rule length_blit) (rule len)
      have "tx_offset ?c \<le> length (concat (tx_bufs ?c))" unfolding lb using len k(2) by simp
      moreover have "tx_bufs ?c \<noteq> []" using cur by auto
      moreover have "pbuf_unit_size * tx_cur ?c \<le> tx_offset ?c" using off by simp
      ultimately have ok: "tx_ok ?c" using u' unfolding tx_ok_def by blast
      have w: "written ?c = written c @ take k data"
        using take_blit [of "tx_offset c" "concat (tx_bufs c)" "take k data"] cc k(2) "1.prems"(1)
        by (simp add: written_def tx_ok_def)
      have l2: "tx_offset ?c + length (drop k data) \<le> length (concat (tx_bufs ?c))"
        unfolding lb using "1.prems"(2) k(2) by simp
      have "\<exists>bs m. append_loop (drop k data) ?c = Some (?c\<lparr>tx_bufs := bs, tx_cur := m, tx_offset := tx_offset ?c + length (drop k data)\<rparr>)
         \<and> tx_ok (?c\<lparr>tx_bufs := bs, tx_cur := m, tx_offset := tx_offset ?c + length (drop k data)\<rparr>)
         \<and> take (tx_offset ?c + length (drop k data)) (concat bs) = written ?c @ drop k data"
        by (rule "1.IH"(2) [OF False cur refl refl refl _ refl, unfolded pre lc, folded used_def, folded k_def, OF f ok l2])
      then show ?thesis unfolding st w using k(2) by auto
    qed
  qed
qed

lemma udp_append_ok:
  assumes "tx_ok c"
  shows "\<exists>bs k. udp_append data c = Some (length data, c\<lparr>tx_bufs := bs, tx_cur := k, tx_offset := tx_offset c + length data\<rparr>)
     \<and> tx_ok (c\<lparr>tx_bufs := bs, tx_cur := k, tx_offset := tx_offset c + length data\<rparr>)
     \<and> take (tx_offset c + length data) (concat bs) = written c @ data"
proof -
  define d where "d = (if tx_bufs c = [] \<or> length (concat (tx_bufs c)) < tx_offset c + length data
               then udp_reserve (tx_offset c + length data) c else c)"
  obtain bs where d: "tx_ok d" "written d = written c" "d = c\<lparr>tx_bufs := bs\<rparr>"
    "tx_offset c + length data \<le> length (concat (tx_bufs d))"
  proof (cases "tx_bufs c = [] \<or> length (concat (tx_bufs c)) < tx_offset c + length data")
    case True
    with reserve_ok [OF assms, of "tx_offset c + length data"] show ?thesis by (auto simp: d_def intro: that)
  next
    case False
    then show ?thesis using assms by (intro that [of "tx_bufs c"]) (auto simp: d_def)
  qed
  have "udp_append data c = map_option (Pair (length data)) (append_loop data d)"
    by (simp add: udp_append_def Let_def d_def)
  with append_loop_ok [OF d(1), of data] d(2-4) show ?thesis by auto
qed

lemma tx_copy_take: "tx_copy n bs = take n (concat bs)"
  by (induction bs arbitrary: n) (auto simp: Let_def)

fun appends :: "string list \<Rightarrow> 'p udp \<Rightarrow> (nat \<times> 'p udp) option" where
  "appends [] c = Some (0, c)"
| "appends (s # ss) c = (case udp_append s c of None \<Rightarrow> None
     | Some (n, c) \<Rightarrow> map_option (\<lambda>(m, c). (n + m, c)) (appends ss c))"

lemma appends_ok:
  "tx_ok c \<Longrightarrow> \<exists>bs k n. appends ss c = Some (length (concat ss), c\<lparr>tx_bufs := bs, tx_cur := k, tx_offset := n\<rparr>)
     \<and> tx_ok (c\<lparr>tx_bufs := bs, tx_cur := k, tx_offset := n\<rparr>)
     \<and> take n (concat bs) = written c @ concat ss"
proof (induction ss arbitrary: c)
  case Nil
  then show ?case
    by (intro exI [of _ "tx_bufs c"] exI [of _ "tx_cur c"] exI [of _ "tx_offset c"]) (simp add: written_def)
next
  case (Cons s ss)
  obtain bs k where a: "udp_append s c = Some (length s, c\<lparr>tx_bufs := bs, tx_cur := k, tx_offset := tx_offset c + length s\<rparr>)"
     "tx_ok (c\<lparr>tx_bufs := bs, tx_cur := k, tx_offset := tx_offset c + length s\<rparr>)"
     "take (tx_offset c + length s) (concat bs) = written c @ s"
    using udp_append_ok [OF Cons.prems] by blast
  from Cons.IH [OF a(2)] a(1,3) show ?case by (auto simp: written_def)
qed

section \<open>Properties\<close>

text \<open>C25: a packet is what was written: after any writes, of any sizes and across buffers, \<open>send\<close>
  hands lwIP exactly their bytes in order, for the address of the packet or the one given, with the
  multicast lifetime for a multicast address alone, restores the lifetime and leaves an empty
  packet; every write reports its size.\<close>

theorem packet_assembled:
  assumes "tx_bufs c = []" and "tx_offset c = 0" and "tx_cur c = 0"
  shows "\<exists>c'. appends ss c = Some (length (concat ss), c') \<and> urx_buf c' = urx_buf c
     \<and> udp_send L dst c' =
        (let (addr, port) = (case dst of None \<Rightarrow> (dest_addr c, dest_port c) | Some d \<Rightarrow> d);
             p = (if ip_addr_ismulticast L addr then set_ttl L (multicast_ttl c) (upcb c) else upcb c);
             (ok, p) = udp_sendto L (concat ss) addr port p
         in (ok, c\<lparr>upcb := set_ttl L (get_ttl L (upcb c)) p\<rparr>))"
proof -
  have ok: "tx_ok c" "written c = []" using assms by (simp_all add: tx_ok_def written_def)
  obtain bs k n where a: "appends ss c = Some (length (concat ss), c\<lparr>tx_bufs := bs, tx_cur := k, tx_offset := n\<rparr>)"
     "take n (concat bs) = concat ss"
    using appends_ok [OF ok(1), of ss] ok(2) by auto
  have e: "c\<lparr>tx_bufs := [], tx_cur := 0, tx_offset := 0\<rparr> = c" using assms by (cases c) simp
  have "c\<lparr>upcb := x, tx_bufs := [], tx_cur := 0, tx_offset := 0\<rparr> = c\<lparr>upcb := x\<rparr>" for x
    using assms by (cases c) simp
  with a e show ?thesis
    by (auto simp: udp_send_def tx_copy_take Let_def split: prod.splits option.splits)
qed

definition sent_udp :: "string list udp_lwip" where
  "sent_udp = \<lparr>udp_bind = (\<lambda>a q p. (True, p)), udp_sendto = (\<lambda>s a q p. (True, s # p)), udp_disconnect = (\<lambda>p. p),
     ip_addr_ismulticast = (\<lambda>a. False), get_ttl = (\<lambda>p. 64), set_ttl = (\<lambda>t p. p),
     set_multicast_ip = (\<lambda>a p. p), pcb_local_port = (\<lambda>p. 123)\<rparr>"

lemma packet_assembled_witness:
  "\<exists>c'. appends [''ab'', ''cde''] (UdpContext []) = Some (5, c') \<and> upcb (snd (udp_send sent_udp None c')) = [''abcde'']"
  using packet_assembled [of "UdpContext []" "[''ab'', ''cde'']" sent_udp None]
  by (auto simp: UdpContext_def sent_udp_def)

end
