(* ===== verification/Wifi_Udp.thy ===== *)
theory Wifi_Udp
  imports Udp_Context Slist Refcount
begin

text \<open>
  UDP objects (\<open>src/ESP8266WiFi/src/WiFiUdp.cpp\<close>) and the reference count of \<open>UdpContext\<close>: a heap
  of contexts, the live objects with their \<open>_ctx\<close> pointers, and the registry. Reading or writing a
  freed context or an object that is not alive is \<open>None\<close>. \<open>udp_new\<close> gives the control block \<open>p\<close>.
\<close>

section \<open>State and reference counts\<close>

record 'p unet =
  uctxs :: "nat \<Rightarrow> 'p udp option"
  sockets :: "nat \<Rightarrow> nat option option"
  uregistry :: slist
  ufresh :: nat

definition unet_init :: "'p unet" where
  "unet_init = \<lparr>uctxs = (\<lambda>_. None), sockets = (\<lambda>_. None), uregistry = slist_empty, ufresh = 0\<rparr>"

definition udp_ref :: "nat \<Rightarrow> 'p unet \<Rightarrow> 'p unet option" where
  "udp_ref a n = (case uctxs n a of None \<Rightarrow> None
     | Some c \<Rightarrow> Some (n\<lparr>uctxs := (uctxs n)(a \<mapsto> c\<lparr>urefcnt := urefcnt c + 1\<rparr>)\<rparr>))"

definition udp_unref :: "nat \<Rightarrow> 'p unet \<Rightarrow> 'p unet option" where
  "udp_unref a n = (case uctxs n a of None \<Rightarrow> None
     | Some c \<Rightarrow>
         (let c = c\<lparr>urefcnt := urefcnt c - 1\<rparr> in
          if urefcnt c = 0 then Some (n\<lparr>uctxs := (uctxs n)(a := None)\<rparr>)
          else Some (n\<lparr>uctxs := (uctxs n)(a \<mapsto> c)\<rparr>)))"

section \<open>Construction and assignment\<close>

definition wudp_new :: "nat \<Rightarrow> 'p unet \<Rightarrow> 'p unet" where
  "wudp_new i n = n\<lparr>sockets := (sockets n)(i \<mapsto> None), uregistry := slist_add i (uregistry n)\<rparr>"

definition wudp_copy :: "nat \<Rightarrow> nat \<Rightarrow> 'p unet \<Rightarrow> 'p unet option" where
  "wudp_copy i other n = do {
     c \<leftarrow> sockets n other;
     n \<leftarrow> (case c of None \<Rightarrow> Some n | Some a \<Rightarrow> udp_ref a n);
     Some (n\<lparr>sockets := (sockets n)(i \<mapsto> c), uregistry := slist_add i (uregistry n)\<rparr>) }"

definition wudp_assign :: "nat \<Rightarrow> nat \<Rightarrow> 'p unet \<Rightarrow> 'p unet option" where
  "wudp_assign i rhs n = do {
     _ \<leftarrow> sockets n i;
     c \<leftarrow> sockets n rhs;
     let n = n\<lparr>sockets := (sockets n)(i \<mapsto> c)\<rparr>;
     case c of None \<Rightarrow> Some n | Some a \<Rightarrow> udp_ref a n }"

definition wudp_destroy :: "nat \<Rightarrow> 'p unet \<Rightarrow> 'p unet option" where
  "wudp_destroy i n = do {
     c \<leftarrow> sockets n i;
     r \<leftarrow> slist_remove i (uregistry n);
     let n = n\<lparr>uregistry := r\<rparr>;
     n \<leftarrow> (case c of None \<Rightarrow> Some n | Some a \<Rightarrow> udp_unref a n);
     Some (n\<lparr>sockets := (sockets n)(i := None)\<rparr>) }"

text \<open>\<open>_ctx = new UdpContext; _ctx->ref();\<close>\<close>

definition wudp_fresh :: "nat \<Rightarrow> 'p \<Rightarrow> 'p unet \<Rightarrow> 'p unet option" where
  "wudp_fresh i p n =
     udp_ref (ufresh n) (n\<lparr>uctxs := (uctxs n)(ufresh n \<mapsto> UdpContext p), ufresh := ufresh n + 1,
       sockets := (sockets n)(i \<mapsto> Some (ufresh n))\<rparr>)"

definition at_udp :: "nat \<Rightarrow> 'r \<Rightarrow> ('p udp \<Rightarrow> ('r \<times> 'p udp) option) \<Rightarrow> 'p unet \<Rightarrow> ('r \<times> 'p unet) option" where
  "at_udp i d f n = do {
     c \<leftarrow> sockets n i;
     case c of
       None \<Rightarrow> Some (d, n)
     | Some a \<Rightarrow> do { x \<leftarrow> uctxs n a; (r, x) \<leftarrow> f x; Some (r, n\<lparr>uctxs := (uctxs n)(a \<mapsto> x)\<rparr>) } }"

text \<open>\<open>if (_ctx) { _ctx->unref(); _ctx = 0; }\<close>\<close>

definition wudp_drop :: "nat \<Rightarrow> 'p unet \<Rightarrow> 'p unet option" where
  "wudp_drop i n = do {
     c \<leftarrow> sockets n i;
     (case c of
        None \<Rightarrow> Some n
      | Some a \<Rightarrow> do { n \<leftarrow> udp_unref a n; Some (n\<lparr>sockets := (sockets n)(i \<mapsto> None)\<rparr>) }) }"

section \<open>Sockets\<close>

definition wudp_begin :: "'p udp_lwip \<Rightarrow> nat \<Rightarrow> u16 \<Rightarrow> 'p \<Rightarrow> 'p unet \<Rightarrow> (int \<times> 'p unet) option" where
  "wudp_begin L i port p n = do {
     n \<leftarrow> wudp_drop i n;
     n \<leftarrow> wudp_fresh i p n;
     (ok, n) \<leftarrow> at_udp i False (\<lambda>c. Some (udp_listen L 0 port c)) n;
     Some (if ok then 1 else 0, n) }"

definition wudp_beginMulticast ::
    "'p udp_lwip \<Rightarrow> nat \<Rightarrow> bool \<Rightarrow> u16 \<Rightarrow> 'p \<Rightarrow> 'p unet \<Rightarrow> (int \<times> 'p unet) option" where
  "wudp_beginMulticast L i joined port p n = do {
     n \<leftarrow> wudp_drop i n;
     if \<not> joined then Some (0, n)
     else do {
       n \<leftarrow> wudp_fresh i p n;
       (ok, n) \<leftarrow> at_udp i False (\<lambda>c. Some (udp_listen L 0 port c)) n;
       Some (if \<not> ok then 0 else 1, n) } }"

definition wudp_stop :: "'p udp_lwip \<Rightarrow> nat \<Rightarrow> 'p unet \<Rightarrow> 'p unet option" where
  "wudp_stop L i n = do {
     (_, n) \<leftarrow> at_udp i () (\<lambda>c. Some ((), udp_disconnect_ctx L c)) n;
     wudp_drop i n }"

definition wudp_stopAll :: "'p udp_lwip \<Rightarrow> 'p unet \<Rightarrow> 'p unet option" where
  "wudp_stopAll L n = slist_each (wudp_stop L) (nxt (uregistry n)) (s_first (uregistry n)) n"

definition wudp_stopAllExcept :: "'p udp_lwip \<Rightarrow> nat \<Rightarrow> 'p unet \<Rightarrow> 'p unet option" where
  "wudp_stopAllExcept L exC n =
     slist_each (\<lambda>i n. if sockets n i \<noteq> sockets n exC then wudp_stop L i n else Some n)
       (nxt (uregistry n)) (s_first (uregistry n)) n"

section \<open>Packets\<close>

definition ensure_ctx :: "nat \<Rightarrow> 'p \<Rightarrow> 'p unet \<Rightarrow> 'p unet option" where
  "ensure_ctx i p n = do { c \<leftarrow> sockets n i; if c = None then wudp_fresh i p n else Some n }"

definition wudp_beginPacket :: "nat \<Rightarrow> u32 \<Rightarrow> u16 \<Rightarrow> 'p \<Rightarrow> 'p unet \<Rightarrow> (int \<times> 'p unet) option" where
  "wudp_beginPacket i addr port p n = do {
     n \<leftarrow> ensure_ctx i p n;
     (ok, n) \<leftarrow> at_udp i False (\<lambda>c. Some (udp_connect addr port c)) n;
     Some (if ok then 1 else 0, n) }"

definition wudp_beginPacket_host ::
    "nat \<Rightarrow> u32 option \<Rightarrow> u16 \<Rightarrow> 'p \<Rightarrow> 'p unet \<Rightarrow> (int \<times> 'p unet) option" where
  "wudp_beginPacket_host i resolved port p n =
     (case resolved of None \<Rightarrow> Some (0, n) | Some addr \<Rightarrow> wudp_beginPacket i addr port p n)"

definition wudp_beginPacketMulticast ::
    "'p udp_lwip \<Rightarrow> nat \<Rightarrow> u32 \<Rightarrow> u16 \<Rightarrow> u32 \<Rightarrow> int \<Rightarrow> 'p \<Rightarrow> 'p unet \<Rightarrow> (int \<times> 'p unet) option" where
  "wudp_beginPacketMulticast L i addr port interface ttl p n = do {
     n \<leftarrow> ensure_ctx i p n;
     (ok, n) \<leftarrow> at_udp i False (\<lambda>c. Some (udp_connect addr port c)) n;
     if \<not> ok then Some (0, n)
     else do {
       (_, n) \<leftarrow> at_udp i () (\<lambda>c. Some ((), setMulticastInterface L interface c)) n;
       (_, n) \<leftarrow> at_udp i () (\<lambda>c. Some ((), setMulticastTTL ttl c)) n;
       Some (1, n) } }"

definition wudp_endPacket :: "'p udp_lwip \<Rightarrow> nat \<Rightarrow> 'p unet \<Rightarrow> (int \<times> 'p unet) option" where
  "wudp_endPacket L i = at_udp i 0 (\<lambda>c. case udp_send L None c of (ok, c) \<Rightarrow> Some (if ok then 1 else 0, c))"

definition wudp_write :: "nat \<Rightarrow> string \<Rightarrow> 'p unet \<Rightarrow> (nat \<times> 'p unet) option" where
  "wudp_write i data = at_udp i 0 (udp_append data)"

text \<open>What \<open>parsePacket\<close> does with a context.\<close>

definition ctx_parsePacket :: "'p udp \<Rightarrow> int \<times> 'p udp" where
  "ctx_parsePacket c = (case udp_next c of (ok, c) \<Rightarrow> if \<not> ok then (0, c) else (int (udp_getSize c), c))"

definition wudp_parsePacket :: "nat \<Rightarrow> 'p unet \<Rightarrow> (int \<times> 'p unet) option" where
  "wudp_parsePacket i = at_udp i 0 (\<lambda>c. Some (ctx_parsePacket c))"

definition wudp_available :: "nat \<Rightarrow> 'p unet \<Rightarrow> (nat \<times> 'p unet) option" where
  "wudp_available i = at_udp i 0 (\<lambda>c. Some (udp_getSize c, c))"

definition wudp_read1 :: "nat \<Rightarrow> 'p unet \<Rightarrow> (int \<times> 'p unet) option" where
  "wudp_read1 i = at_udp i (- 1) (\<lambda>c. Some (udp_read1 c))"

definition wudp_read :: "nat \<Rightarrow> nat \<Rightarrow> 'p unet \<Rightarrow> (string \<times> 'p unet) option" where
  "wudp_read i len = at_udp i [] (\<lambda>c. Some (udp_read len c))"

definition wudp_peek :: "nat \<Rightarrow> 'p unet \<Rightarrow> (int \<times> 'p unet) option" where
  "wudp_peek i = at_udp i (- 1) (\<lambda>c. Some (udp_peek c, c))"

definition wudp_flush :: "nat \<Rightarrow> 'p unet \<Rightarrow> (unit \<times> 'p unet) option" where
  "wudp_flush i = at_udp i () (\<lambda>c. Some ((), udp_flush c))"

definition wudp_remoteIP :: "nat \<Rightarrow> 'p unet \<Rightarrow> (u32 \<times> 'p unet) option" where
  "wudp_remoteIP i = at_udp i 0 (\<lambda>c. Some (udp_getRemoteAddress c, c))"

definition wudp_remotePort :: "nat \<Rightarrow> 'p unet \<Rightarrow> (u16 \<times> 'p unet) option" where
  "wudp_remotePort i = at_udp i 0 (\<lambda>c. Some (udp_getRemotePort c, c))"

definition wudp_destinationIP :: "nat \<Rightarrow> 'p unet \<Rightarrow> (u32 \<times> 'p unet) option" where
  "wudp_destinationIP i = at_udp i 0 (\<lambda>c. map_option (\<lambda>a. (a, c)) (udp_getDestAddress c))"

definition wudp_localPort :: "'p udp_lwip \<Rightarrow> nat \<Rightarrow> 'p unet \<Rightarrow> (u16 \<times> 'p unet) option" where
  "wudp_localPort L i = at_udp i 0 (\<lambda>c. Some (udp_getLocalPort L c, c))"

section \<open>Counting\<close>

interpretation udp: refcounted urefcnt "\<lambda>n c. c\<lparr>urefcnt := n\<rparr>"
  by unfold_locales simp

definition unet_ok :: "'p unet \<Rightarrow> bool" where
  "unet_ok n \<longleftrightarrow> udp.counted (uctxs n) (sockets n) \<and> (\<forall>a \<ge> ufresh n. uctxs n a = None)"

lemma drop_ok:
  assumes "unet_ok n" "sockets n i = Some c"
  shows "\<exists>n'. wudp_drop i n = Some n' \<and> unet_ok n' \<and> sockets n' = (sockets n)(i \<mapsto> None)"
proof (cases c)
  case None
  have "(sockets n)(i \<mapsto> None) = sockets n" using assms(2) None by auto
  with None assms show ?thesis by (simp add: wudp_drop_def)
next
  case (Some a)
  have u: "udp.counted (uctxs n) (sockets n)" "\<forall>a \<ge> ufresh n. uctxs n a = None" "sockets n i = Some (Some a)"
    using assms Some by (simp_all add: unet_ok_def)
  obtain x where x: "uctxs n a = Some x" using udp.counted_live [OF u(1,3)] by blast
  let ?y = "x\<lparr>urefcnt := urefcnt x - 1\<rparr>"
  have r: "udp.counted (if urefcnt ?y = 0 then (uctxs n)(a := None) else (uctxs n)(a \<mapsto> ?y)) ((sockets n)(i \<mapsto> None))"
    by (rule udp.counted_release [OF u(1,3) x]) simp
  have a: "a < ufresh n" using u(2) x by (metis leI option.distinct(1))
  show ?thesis
    using r u x a by (cases "urefcnt x = 1") (auto simp: wudp_drop_def udp_unref_def Let_def unet_ok_def)
qed

lemma fresh_ok:
  assumes "unet_ok n" "sockets n i = Some None"
  shows "\<exists>n'. wudp_fresh i p n = Some n' \<and> unet_ok n' \<and> sockets n' = (sockets n)(i \<mapsto> Some (ufresh n))
     \<and> uctxs n' (ufresh n) = Some ((UdpContext p)\<lparr>urefcnt := 1\<rparr>)"
proof -
  let ?a = "ufresh n" and ?c = "UdpContext p"
  have u: "udp.counted (uctxs n) (sockets n)" "\<forall>a \<ge> ufresh n. uctxs n a = None"
    using assms(1) by (simp_all add: unet_ok_def)
  have "udp.counted ((uctxs n)(?a \<mapsto> ?c)) (sockets n)"
    by (rule udp.counted_new) (use u in \<open>simp_all add: UdpContext_def\<close>)
  from udp.counted_acquire [OF this, of i ?a ?c "?c\<lparr>urefcnt := 1\<rparr>"] assms(2) u(2) show ?thesis
    by (auto simp: wudp_fresh_def udp_ref_def unet_ok_def UdpContext_def)
qed

lemma at_udp_ok:
  assumes "unet_ok n" "sockets n i \<noteq> None"
    and "\<And>a c. uctxs n a = Some c \<Longrightarrow> \<exists>r c'. f c = Some (r, c') \<and> urefcnt c' = urefcnt c"
  shows "\<exists>r n'. at_udp i d f n = Some (r, n') \<and> unet_ok n' \<and> sockets n' = sockets n"
proof -
  obtain c where c: "sockets n i = Some c" using assms(2) by blast
  have u: "udp.counted (uctxs n) (sockets n)" "\<forall>a \<ge> ufresh n. uctxs n a = None"
    using assms(1) by (simp_all add: unet_ok_def)
  show ?thesis
  proof (cases c)
    case None
    with c assms(1) show ?thesis by (simp add: at_udp_def)
  next
    case (Some a)
    obtain x where x: "uctxs n a = Some x" using udp.counted_live [OF u(1), of i a] c Some by blast
    obtain r y where y: "f x = Some (r, y)" "urefcnt y = urefcnt x" using assms(3) [OF x] by blast
    have "a < ufresh n" using u(2) x by (metis leI option.distinct(1))
    with c Some x y u udp.counted_update [OF u(1) x y(2)] show ?thesis by (simp add: at_udp_def unet_ok_def)
  qed
qed

lemma begin_ok:
  assumes "unet_ok n" "sockets n i \<noteq> None"
  shows "\<exists>r n'. wudp_begin L i port p n = Some (r, n') \<and> unet_ok n' \<and> sockets n' = (sockets n)(i \<mapsto> Some (ufresh n'  - 1))"
proof -
  obtain c where c: "sockets n i = Some c" using assms(2) by blast
  obtain n1 where n1: "wudp_drop i n = Some n1" "unet_ok n1" "sockets n1 = (sockets n)(i \<mapsto> None)"
    using drop_ok [OF assms(1) c] by blast
  obtain n2 where n2: "wudp_fresh i p n1 = Some n2" "unet_ok n2" "sockets n2 = (sockets n1)(i \<mapsto> Some (ufresh n1))"
    using fresh_ok [OF n1(2), of i p] n1(3) by auto
  have f: "ufresh n2 = ufresh n1 + 1" using n2(1) by (auto simp: wudp_fresh_def udp_ref_def)
  have "\<exists>r c'. Some (udp_listen L 0 port x) = Some (r, c') \<and> urefcnt c' = urefcnt x" for x
    by (simp add: udp_listen_def split: prod.splits)
  then obtain r n3 where n3: "at_udp i False (\<lambda>c. Some (udp_listen L 0 port c)) n2 = Some (r, n3)"
    "unet_ok n3" "sockets n3 = sockets n2"
    using at_udp_ok [OF n2(2), of i "\<lambda>c. Some (udp_listen L 0 port c)" False] n2(3) by auto
  have "ufresh n3 = ufresh n2"
    using n3(1) by (auto simp: at_udp_def bind_eq_Some_conv split_beta split: option.splits)
  with n1 n2 n3 f show ?thesis by (simp add: wudp_begin_def)
qed

section \<open>Properties\<close>

text \<open>Assignment of UDP objects leaks: the object assigned to gives up its socket without counting
  it down, so the socket of a sole holder stays in the heap, open, with count one and no holder.\<close>

theorem udp_assignment_leaks:
  assumes "unet_ok n" and "sockets n i = Some (Some a)" and "uctxs n a = Some c" and "urefcnt c = 1"
    and "sockets n j = Some d" and "d \<noteq> Some a"
  shows "\<exists>n'. wudp_assign i j n = Some n' \<and> uctxs n' a = Some c
     \<and> (\<forall>k. sockets n' k \<noteq> Some (Some a)) \<and> \<not> unet_ok n'"
proof -
  have u: "udp.counted (uctxs n) (sockets n)" using assms(1) by (simp add: unet_ok_def)
  have f: "finite (udp.holders (sockets n) a)" using u udp.finite_holders by (auto simp: udp.counted_def)
  have "card (udp.holders (sockets n) a) = 1" using udp.counted_count [OF u assms(3)] assms(4) by simp
  moreover have "i \<in> udp.holders (sockets n) a" using assms(2) by (simp add: udp.holders_def)
  ultimately have h: "udp.holders (sockets n) a = {i}" by (metis card_1_singletonE singletonD)
  have k: "((sockets n)(i \<mapsto> d)) k \<noteq> Some (Some a)" for k
    using h assms(6) by (cases "k = i") (auto simp: udp.holders_def)
  have d: "\<exists>y. uctxs n b = Some y" if "d = Some b" for b
    using udp.counted_live [OF u, of j b] assms(5) that by simp
  obtain n' where n': "wudp_assign i j n = Some n'" "uctxs n' a = Some c" "sockets n' = (sockets n)(i \<mapsto> d)"
  proof (cases d)
    case None
    then show ?thesis using assms(2,3,5)
      by (intro that [of "n\<lparr>sockets := (sockets n)(i \<mapsto> None)\<rparr>"]) (simp_all add: wudp_assign_def)
  next
    case (Some b)
    then obtain y where "uctxs n b = Some y" using d by blast
    with Some show ?thesis using assms(2,3,5,6)
      by (intro that [of "n\<lparr>sockets := (sockets n)(i \<mapsto> Some b),
            uctxs := (uctxs n)(b \<mapsto> y\<lparr>urefcnt := urefcnt y + 1\<rparr>)\<rparr>"]) (simp_all add: wudp_assign_def udp_ref_def)
  qed
  have "\<not> unet_ok n'"
  proof
    assume "unet_ok n'"
    then have "urefcnt c = int (card (udp.holders (sockets n') a))"
      using n'(2) by (simp add: unet_ok_def udp.counted_def)
    moreover have "udp.holders (sockets n') a = {}" using k n'(3) by (simp add: udp.holders_def)
    ultimately show False using assms(4) by simp
  qed
  with n' k show ?thesis by auto
qed

lemma udp_assignment_leaks_witness:
  "\<exists>n n'. wudp_assign 1 2 n = Some n' \<and> \<not> unet_ok (n' :: string list unet)"
proof -
  define m where "m = wudp_new 2 (wudp_new 1 (unet_init :: string list unet))"
  have m: "unet_ok m" "sockets m 1 = Some None" "sockets m 2 = Some None" "ufresh m = 0"
    by (simp_all add: m_def unet_ok_def udp.counted_def wudp_new_def unet_init_def)
  obtain n :: "string list unet" where n: "unet_ok n" "sockets n = (sockets m)(1 \<mapsto> Some 0)"
    "uctxs n 0 = Some ((UdpContext [])\<lparr>urefcnt := 1\<rparr>)"
    using fresh_ok [OF m(1,2), of "[]"] unfolding m(4) by auto
  from udp_assignment_leaks [OF n(1), of 1 0 _ 2 None] n(2,3) m(3) show ?thesis by auto
qed

end
