(* ===== verification/Ntp_Client.thy ===== *)
theory Ntp_Client
  imports Wifi_Udp
begin

text \<open>
  The NTP client (\<open>src/EasyNTPClient/src/EasyNTPClient.cpp\<close>, \<open>.h\<close>): the request, the polling for an
  answer of 48 bytes, the time in it, and the time kept between requests. The client sees its
  socket through Arduino's class \<open>UDP\<close>, a record of operations that returns also for \<open>delay\<close>, in
  which datagrams arrive; the locale \<open>datagram_socket\<close> states what it relies on, and is
  interpreted by the operations of \<open>UdpContext\<close>. \<open>unsigned long\<close> and \<open>long\<close> are 32-bit words.
\<close>

section \<open>Operations\<close>

record 'n udp_class =
  u_begin :: "u16 \<Rightarrow> 'n \<Rightarrow> int \<times> 'n"
  u_flush :: "'n \<Rightarrow> 'n"
  u_beginPacket :: "string \<Rightarrow> u16 \<Rightarrow> 'n \<Rightarrow> int \<times> 'n"
  u_write :: "string \<Rightarrow> 'n \<Rightarrow> nat \<times> 'n"
  u_endPacket :: "'n \<Rightarrow> int \<times> 'n"
  u_parsePacket :: "'n \<Rightarrow> int \<times> 'n"
  u_read :: "'n \<Rightarrow> int \<times> 'n"
  u_delay :: "nat \<Rightarrow> 'n \<Rightarrow> 'n"

record 'n ntp =
  mUdp :: 'n
  mServerPool :: string
  mOffset :: u32
  mUpdateInterval :: u32
  mLastUpdate :: u32
  mServerTime :: u32
  udpInited :: "int option"

definition EasyNTPClient :: "'n \<Rightarrow> string \<Rightarrow> u32 \<Rightarrow> 'n ntp" where
  "EasyNTPClient udp serverPool offset = \<lparr>mUdp = udp, mServerPool = serverPool, mOffset = offset,
     mUpdateInterval = 60000, mLastUpdate = 0, mServerTime = 0, udpInited = None\<rparr>"

definition EasyNTPClient_pool :: "'n \<Rightarrow> string \<Rightarrow> 'n ntp" where
  "EasyNTPClient_pool udp serverPool = EasyNTPClient udp serverPool 0"

definition EasyNTPClient_default :: "'n \<Rightarrow> 'n ntp" where
  "EasyNTPClient_default udp = EasyNTPClient udp ''pool.ntp.org'' 0"

definition getTimeOffset :: "'n ntp \<Rightarrow> u32" where "getTimeOffset c = mOffset c"

definition setTimeOffset :: "u32 \<Rightarrow> 'n ntp \<Rightarrow> 'n ntp" where "setTimeOffset offset c = c\<lparr>mOffset := offset\<rparr>"

text \<open>The 48 bytes of the request are those of a 4-byte constant and what follows it in memory.\<close>

definition request :: "string \<Rightarrow> string" where
  "request memory = [CHR 0xE3, CHR 0x00, CHR 0x06, CHR 0xEC] @ take 44 memory"

fun poll :: "'n udp_class \<Rightarrow> nat \<Rightarrow> int \<Rightarrow> 'n \<Rightarrow> int \<times> 'n" where
  "poll U 0 pktLen s = (pktLen, s)"
| "poll U (Suc k) pktLen s = (case u_parsePacket U s of (pktLen, s) \<Rightarrow>
     if pktLen = 48 then (pktLen, s) else poll U k pktLen (u_delay U 150 s))"

fun skip :: "'n udp_class \<Rightarrow> nat \<Rightarrow> 'n \<Rightarrow> 'n" where
  "skip U 0 s = s"
| "skip U (Suc k) s = skip U k (snd (u_read U s))"

fun read_time :: "'n udp_class \<Rightarrow> nat \<Rightarrow> u32 \<Rightarrow> 'n \<Rightarrow> u32 \<times> 'n" where
  "read_time U 0 t s = (t, s)"
| "read_time U (Suc k) t s = (case u_read U s of (b, s) \<Rightarrow> read_time U k (or (push_bit 8 t) (of_int b)) s)"

definition send_request :: "'n udp_class \<Rightarrow> string \<Rightarrow> string \<Rightarrow> 'n \<Rightarrow> bool \<times> 'n" where
  "send_request U pool memory s =
     (case u_beginPacket U pool 123 s of (r, s) \<Rightarrow>
        if r = 0 then (False, s)
        else (case u_write U (request memory) s of (n, s) \<Rightarrow>
                if n \<noteq> 48 then (False, s)
                else (case u_endPacket U s of (r, s) \<Rightarrow> (r \<noteq> 0, s))))"

definition read_reply :: "'n udp_class \<Rightarrow> 'n \<Rightarrow> u32 \<times> 'n" where
  "read_reply U s =
     (let s = skip U 40 s;
          (b, s) = u_read U s;
          (time, s) = read_time U 3 (of_int b) s;
          (b, s) = u_read U s;
          time = time + (if b > 115 - 150 div 8 then 1 else 0)
      in (time, u_flush U s))"

definition getServerTime :: "'n udp_class \<Rightarrow> string \<Rightarrow> 'n ntp \<Rightarrow> u32 \<times> 'n ntp" where
  "getServerTime U memory c =
     (let (inited, s) = (case udpInited c of None \<Rightarrow> u_begin U 123 (mUdp c) | Some r \<Rightarrow> (r, mUdp c));
          c = c\<lparr>udpInited := Some inited\<rparr>
      in if inited = 0 then (0, c\<lparr>mUdp := s\<rparr>)
         else (case send_request U (mServerPool c) memory (u_flush U s) of (ok, s) \<Rightarrow>
                if \<not> ok then (0, c\<lparr>mUdp := s\<rparr>)
                else (case poll U 15 0 s of (pktLen, s) \<Rightarrow>
                        if pktLen \<noteq> 48 then (0, c\<lparr>mUdp := s\<rparr>)
                        else (case read_reply U s of (time, s) \<Rightarrow>
                                (time + mOffset c - 2208988800, c\<lparr>mUdp := s\<rparr>)))))"

text \<open>\<open>t0\<close>, \<open>t1\<close>, \<open>t2\<close> are the three readings of \<open>millis\<close>.\<close>

definition getUnixTime :: "'n udp_class \<Rightarrow> string \<Rightarrow> u32 \<Rightarrow> u32 \<Rightarrow> u32 \<Rightarrow> 'n ntp \<Rightarrow> u32 \<times> 'n ntp" where
  "getUnixTime U memory t0 t1 t2 c =
     (let delta = t0 - mLastUpdate c;
          c = (if sint (mServerTime c) \<le> 0 \<or> mLastUpdate c = 0 \<or> delta \<ge> mUpdateInterval c
               then (let (t, c) = getServerTime U memory c in c\<lparr>mServerTime := t, mLastUpdate := t1\<rparr>)
               else c)
      in (mServerTime c + (t2 - mLastUpdate c) div 1000, c))"

section \<open>Datagram sockets\<close>

text \<open>The queue of datagrams behind a socket: those not yet taken, and what is unread of the one taken.\<close>

locale datagram_socket =
  fixes parse :: "'s \<Rightarrow> int \<times> 's" and rd :: "'s \<Rightarrow> int \<times> 's" and flsh :: "'s \<Rightarrow> 's"
    and wait :: "nat \<Rightarrow> 's \<Rightarrow> 's"
    and pending :: "'s \<Rightarrow> string list" and current :: "'s \<Rightarrow> string" and taken :: "'s \<Rightarrow> bool"
  assumes parse_some: "pending s = d # ds \<Longrightarrow> \<exists>s'. parse s = (int (length d), s') \<and> taken s' \<and> current s' = d \<and> pending s' = ds"
    and parse_none: "pending s = [] \<Longrightarrow> \<exists>s'. parse s = (0, s') \<and> pending s' = []"
    and rd_byte: "taken s \<Longrightarrow> current s = b # r \<Longrightarrow>
      \<exists>s'. rd s = (int (of_char b), s') \<and> taken s' \<and> current s' = r \<and> pending s' = pending s"
    and flsh_taken: "taken s \<Longrightarrow> pending (flsh s) = pending s"
    and wait_adds: "\<exists>new. pending (wait n s) = pending s @ new"
begin

text \<open>Polling takes the first datagram of 48 bytes, after at most as many others as there are polls.\<close>

lemma poll_finds:
  assumes "u_parsePacket U = parse" "u_delay U = wait"
  shows "pending s = bad @ d # rest \<Longrightarrow> \<forall>b \<in> set bad. length b \<noteq> 48 \<Longrightarrow> length d = 48 \<Longrightarrow> length bad < k \<Longrightarrow>
     \<exists>s' new. poll U k l s = (48, s') \<and> taken s' \<and> current s' = d \<and> pending s' = rest @ new"
proof (induction k arbitrary: bad l s rest)
  case (Suc k)
  show ?case
  proof (cases bad)
    case Nil
    with parse_some [of s d rest] Suc.prems assms show ?thesis by auto
  next
    case (Cons b bs)
    obtain s1 where s1: "parse s = (int (length b), s1)" "pending s1 = bs @ d # rest"
      using parse_some [of s b "bs @ d # rest"] Suc.prems(1) Cons by auto
    obtain new where w: "pending (wait 150 s1) = bs @ d # (rest @ new)" using wait_adds [of 150 s1] s1(2) by auto
    have p: "poll U (Suc k) l s = poll U k (int (length b)) (wait 150 s1)"
      using s1(1) assms Suc.prems(2) Cons by auto
    have "\<exists>s' new'. poll U k (int (length b)) (wait 150 s1) = (48, s') \<and> taken s' \<and> current s' = d
       \<and> pending s' = (rest @ new) @ new'"
      by (rule Suc.IH [OF w]) (use Suc.prems Cons in auto)
    then show ?thesis unfolding p by auto
  qed
qed simp

lemma skip_bytes:
  assumes "u_read U = rd"
  shows "taken s \<Longrightarrow> k \<le> length (current s) \<Longrightarrow>
     taken (skip U k s) \<and> current (skip U k s) = drop k (current s) \<and> pending (skip U k s) = pending s"
proof (induction k arbitrary: s)
  case (Suc k)
  then obtain b r where c: "current s = b # r" by (cases "current s") auto
  obtain s' where "rd s = (int (of_char b), s')" "taken s'" "current s' = r" "pending s' = pending s"
    using rd_byte [OF Suc.prems(1) c] by blast
  with Suc.IH [of s'] Suc.prems c assms show ?case by simp
qed simp

lemma read_time_bytes:
  assumes "u_read U = rd"
  shows "taken s \<Longrightarrow> k \<le> length (current s) \<Longrightarrow>
     \<exists>s'. read_time U k t s = (foldl (\<lambda>t b. or (push_bit 8 t) (of_nat (of_char b))) t (take k (current s)), s')
       \<and> taken s' \<and> current s' = drop k (current s) \<and> pending s' = pending s"
proof (induction k arbitrary: s t)
  case (Suc k)
  then obtain b r where c: "current s = b # r" by (cases "current s") auto
  obtain s' where s': "rd s = (int (of_char b), s')" "taken s'" "current s' = r" "pending s' = pending s"
    using rd_byte [OF Suc.prems(1) c] by blast
  with Suc.IH [of s' "or (push_bit 8 t) (of_nat (of_char b))"] Suc.prems c assms show ?case by simp
qed simp

end

text \<open>The seconds of a reply: bytes 40 to 43, rounded up when byte 44 is above 97.\<close>

definition be_bytes :: "string \<Rightarrow> nat" where
  "be_bytes = foldl (\<lambda>n b. n * 256 + of_char b) 0"

definition reply_seconds :: "string \<Rightarrow> u32" where
  "reply_seconds d = of_nat (be_bytes (take 4 (drop 40 d)) + (if (of_char (d ! 44) :: nat) > 97 then 1 else 0))"

lemma shift_or: "b < 256 \<Longrightarrow> or (push_bit 8 (t :: u32)) (of_nat b) = t * 256 + of_nat b"
proof -
  assume b: "b < 256"
  have "\<not> bit (of_nat b :: u32) i" if "8 \<le> i" for i
  proof -
    have "b < 2 ^ i" using b power_increasing [OF that, of "2 :: nat"] by simp
    then show ?thesis by (auto simp: bit_simps dest: bit_imp_possible_bit) (metis bit_iff_odd div_less even_zero)
  qed
  then have "and (push_bit 8 t) (of_nat b) = 0"
    by (intro bit_word_eqI) (auto simp: bit_simps not_le)
  then have "or (push_bit 8 t) (of_nat b) = push_bit 8 t + of_nat b"
    using word_plus_and_or [of "push_bit 8 t" "of_nat b :: u32"] by simp
  then show ?thesis by (simp add: push_bit_eq_mult)
qed

lemma fold_bytes:
  "foldl (\<lambda>t b. or (push_bit 8 t) (of_nat (of_char b))) (of_nat n :: u32) bs
     = of_nat (foldl (\<lambda>n b. n * 256 + of_char b) n bs)"
proof (induction bs arbitrary: n)
  case (Cons b bs)
  have "(of_char b :: nat) < 256" using range_nat_of_char by (metis UNIV_I atLeastLessThan_iff image_eqI)
  then have "or (push_bit 8 (of_nat n :: u32)) (of_nat (of_char b)) = of_nat (n * 256 + of_char b)"
    by (simp add: shift_or)
  then show ?case using Cons.IH [of "n * 256 + of_char b"] by (simp only: foldl.simps)
qed simp

context datagram_socket
begin

lemma read_reply_time:
  assumes "u_read U = rd" "u_flush U = flsh" "taken s" "current s = d" "length d = 48"
  shows "\<exists>s'. read_reply U s = (reply_seconds d, s') \<and> pending s' = pending s"
proof -
  define s1 where "s1 = skip U 40 s"
  have s1: "taken s1" "current s1 = drop 40 d" "pending s1 = pending s"
    using skip_bytes [OF assms(1,3), of 40] assms(4,5) by (simp_all add: s1_def)
  have l8: "length (drop 40 d) = 8" using assms(5) by simp
  then obtain b r where br: "drop 40 d = b # r" "length r = 7" by (cases "drop 40 d") auto
  obtain s2 where s2: "rd s1 = (int (of_char b), s2)" "taken s2" "current s2 = r" "pending s2 = pending s"
    using rd_byte [OF s1(1)] s1(2,3) br(1) by auto
  obtain s3 where s3: "read_time U 3 (of_nat (of_char b)) s2
      = (foldl (\<lambda>t b. or (push_bit 8 t) (of_nat (of_char b))) (of_nat (of_char b)) (take 3 r), s3)"
    "taken s3" "current s3 = drop 3 r" "pending s3 = pending s"
    using read_time_bytes [OF assms(1) s2(2), of 3 "of_nat (of_char b)"] s2(3,4) br(2) by auto
  have "length (drop 3 r) = 4" using br(2) by simp
  then obtain x q where xq: "drop 3 r = x # q" by (cases "drop 3 r") auto
  obtain s4 where s4: "rd s3 = (int (of_char x), s4)" "taken s4" "pending s4 = pending s"
    using rd_byte [OF s3(2)] s3(3,4) xq by auto
  have "d ! 44 = drop 40 d ! 4" using assms(5) by simp
  also have "\<dots> = drop 3 r ! 0" unfolding br(1) using br(2) by simp
  finally have x: "d ! 44 = x" unfolding xq by simp
  have t: "take 4 (drop 40 d) = b # take 3 r" unfolding br(1) by simp
  have "reply_seconds d = foldl (\<lambda>t b. or (push_bit 8 t) (of_nat (of_char b))) (of_nat (of_char b)) (take 3 r)
      + (if int (of_char x) > 97 then 1 else 0)"
    unfolding reply_seconds_def t x fold_bytes be_bytes_def by simp
  with s2 s3 s4 assms(1,2) flsh_taken [OF s4(2)] show ?thesis
    by (simp add: read_reply_def Let_def flip: s1_def)
qed

lemma server_time:
  assumes "u_read U = rd" "u_flush U = flsh" "u_parsePacket U = parse" "u_delay U = wait"
    and "udpInited c = Some r" "r \<noteq> 0" and "send_request U (mServerPool c) m (flsh (mUdp c)) = (True, s1)"
    and "poll U 15 0 s1 = (48, s2)" "taken s2" "current s2 = d" "length d = 48"
  shows "\<exists>c'. getServerTime U m c = (reply_seconds d + mOffset c - 2208988800, c') \<and> pending (mUdp c') = pending s2"
proof -
  obtain s3 where "read_reply U s2 = (reply_seconds d, s3)" "pending s3 = pending s2"
    using read_reply_time [OF assms(1,2,9-11)] by blast
  with assms show ?thesis by (simp add: getServerTime_def Let_def)
qed

end

section \<open>The socket of the client\<close>

text \<open>\<open>WiFiUDP\<close> with an open context; \<open>env n c\<close> are the datagrams that arrive in \<open>delay(n)\<close>.\<close>

definition wait_udp :: "(nat \<Rightarrow> 'p udp \<Rightarrow> datagram list) \<Rightarrow> nat \<Rightarrow> 'p udp \<Rightarrow> 'p udp" where
  "wait_udp env n c = fold (udp_recv None) (env n c) c"

definition wifi_udp_class ::
    "'p udp_lwip \<Rightarrow> (string \<Rightarrow> u32 option) \<Rightarrow> (nat \<Rightarrow> 'p udp \<Rightarrow> datagram list) \<Rightarrow> 'p udp udp_class" where
  "wifi_udp_class L resolve env = \<lparr>
     u_begin = (\<lambda>port c. case udp_listen L 0 port c of (ok, c) \<Rightarrow> (if ok then 1 else 0, c)),
     u_flush = udp_flush,
     u_beginPacket = (\<lambda>host port c. case resolve host of None \<Rightarrow> (0, c)
        | Some a \<Rightarrow> (case udp_connect a port c of (ok, c) \<Rightarrow> (if ok then 1 else 0, c))),
     u_write = (\<lambda>data c. case udp_append data c of None \<Rightarrow> (0, c) | Some r \<Rightarrow> r),
     u_endPacket = (\<lambda>c. case udp_send L None c of (ok, c) \<Rightarrow> (if ok then 1 else 0, c)),
     u_parsePacket = ctx_parsePacket, u_read = udp_read1, u_delay = wait_udp env\<rparr>"

definition udp_current :: "'p udp \<Rightarrow> string" where
  "udp_current c = (case urx_buf c of [] \<Rightarrow> [] | d # ds \<Rightarrow> drop (urx_offset c) (payload d))"

definition udp_pending :: "'p udp \<Rightarrow> string list" where
  "udp_pending c = (case urx_buf c of [] \<Rightarrow> []
     | d # ds \<Rightarrow> (if first_buf_taken c then [] else [drop (urx_offset c) (payload d)]) @ map payload ds)"

lemma udp_pending_recv: "udp_pending (udp_recv None d c) = udp_pending c @ [payload d]"
  by (cases "urx_buf c") (auto simp: udp_pending_def udp_recv_def)

lemma udp_pending_wait: "udp_pending (wait_udp env n c) = udp_pending c @ map payload (env n c)"
proof -
  have "udp_pending (fold (udp_recv None) ds c) = udp_pending c @ map payload ds" for ds
    by (induction ds arbitrary: c) (simp_all add: udp_pending_recv)
  then show ?thesis by (simp add: wait_udp_def)
qed

interpretation sock: datagram_socket ctx_parsePacket udp_read1 udp_flush "wait_udp env" udp_pending udp_current first_buf_taken
  for env :: "nat \<Rightarrow> 'p udp \<Rightarrow> datagram list"
proof
  fix c :: "'p udp" and d ds
  assume p: "udp_pending c = d # ds"
  then obtain x xs where x: "urx_buf c = x # xs" by (cases "urx_buf c") (auto simp: udp_pending_def)
  with p show "\<exists>s'. ctx_parsePacket c = (int (length d), s') \<and> first_buf_taken s' \<and> udp_current s' = d \<and> udp_pending s' = ds"
    by (cases "first_buf_taken c"; cases xs)
      (auto simp: ctx_parsePacket_def udp_next_def udp_getSize_def udp_current_def udp_pending_def)
next
  fix c :: "'p udp"
  assume p: "udp_pending c = []"
  then show "\<exists>s'. ctx_parsePacket c = (0, s') \<and> udp_pending s' = []"
    by (auto simp: ctx_parsePacket_def udp_next_def udp_pending_def split: list.splits if_splits)
next
  fix c :: "'p udp" and b r
  assume "first_buf_taken c" and c: "udp_current c = b # r"
  then obtain x xs where x: "urx_buf c = x # xs" "drop (urx_offset c) (payload x) = b # r"
    by (cases "urx_buf c") (auto simp: udp_current_def)
  have l: "urx_offset c < length (payload x)" using x(2) by (metis drop_all leI list.discI)
  then have "payload x ! urx_offset c = b" "drop (Suc (urx_offset c)) (payload x) = r"
    using x(2) by (metis hd_drop_conv_nth list.sel(1)) (metis x(2) drop_Suc list.sel(3) tl_drop)
  with x l \<open>first_buf_taken c\<close> show "\<exists>s'. udp_read1 c = (int (of_char b), s') \<and> first_buf_taken s'
     \<and> udp_current s' = r \<and> udp_pending s' = udp_pending c"
    by (simp add: udp_read1_def udp_consume_def udp_current_def udp_pending_def)
next
  fix c :: "'p udp"
  assume "first_buf_taken c"
  then show "udp_pending (udp_flush c) = udp_pending c"
    by (simp add: udp_flush_def udp_consume_def udp_pending_def split: list.splits)
next
  fix c :: "'p udp" and n
  show "\<exists>new. udp_pending (wait_udp env n c) = udp_pending c @ new"
    by (simp add: udp_pending_wait)
qed

text \<open>A socket with no packet begun, on which the request goes out.\<close>

definition can_send :: "'p udp_lwip \<Rightarrow> (string \<Rightarrow> u32 option) \<Rightarrow> string \<Rightarrow> string \<Rightarrow> 'p udp \<Rightarrow> bool" where
  "can_send L resolve pool memory c \<longleftrightarrow> tx_bufs c = [] \<and> tx_offset c = 0 \<and> tx_cur c = 0 \<and> 44 \<le> length memory
     \<and> (case resolve pool of None \<Rightarrow> False | Some a \<Rightarrow> fst (udp_sendto L (request memory) a 123
          (if ip_addr_ismulticast L a then set_ttl L (multicast_ttl c) (upcb c) else upcb c)))"

lemma send_request_ok:
  assumes "can_send L resolve pool memory c"
  shows "\<exists>c'. send_request (wifi_udp_class L resolve env) pool memory c = (True, c')
     \<and> urx_buf c' = urx_buf c \<and> urx_offset c' = urx_offset c \<and> first_buf_taken c' = first_buf_taken c"
proof -
  obtain a where a: "resolve pool = Some a" "44 \<le> length memory"
    "fst (udp_sendto L (request memory) a 123
          (if ip_addr_ismulticast L a then set_ttl L (multicast_ttl c) (upcb c) else upcb c))"
    using assms by (auto simp: can_send_def split: option.splits)
  let ?c = "c\<lparr>dest_addr := a, dest_port := 123\<rparr>"
  have ok: "tx_ok ?c" "written ?c = []" using assms by (simp_all add: can_send_def tx_ok_def written_def)
  have l: "length (request memory) = 48" using a(2) by (simp add: request_def)
  obtain bs k where ap: "udp_append (request memory) ?c = Some (48, ?c\<lparr>tx_bufs := bs, tx_cur := k, tx_offset := tx_offset ?c + 48\<rparr>)"
    "take (tx_offset ?c + 48) (concat bs) = request memory"
    using udp_append_ok [OF ok(1), of "request memory"] l ok(2) by auto
  let ?d = "?c\<lparr>tx_bufs := bs, tx_cur := k, tx_offset := tx_offset ?c + 48\<rparr>"
  obtain ok' c' where sd: "udp_send L None ?d = (ok', c')" by (cases "udp_send L None ?d")
  have "tx_copy (tx_offset ?d) (tx_bufs ?d) = request memory" using ap(2) by (simp add: tx_copy_take)
  then have "ok' \<and> urx_buf c' = urx_buf c \<and> urx_offset c' = urx_offset c \<and> first_buf_taken c' = first_buf_taken c"
    using sd a(3) by (auto simp: udp_send_def Let_def split: prod.splits cong: if_cong)
  moreover have "send_request (wifi_udp_class L resolve env) pool memory c = (ok', c')"
    using a(1) ap(1) sd calculation by (simp add: send_request_def wifi_udp_class_def udp_connect_def)
  ultimately show ?thesis by simp
qed

lemma wifi_udp_class_ops:
  "u_read (wifi_udp_class L resolve env) = udp_read1" "u_flush (wifi_udp_class L resolve env) = udp_flush"
  "u_parsePacket (wifi_udp_class L resolve env) = ctx_parsePacket"
  "u_delay (wifi_udp_class L resolve env) = wait_udp env"
  by (simp_all add: wifi_udp_class_def)

lemma flush_tx: "can_send L resolve pool memory (udp_flush c) = can_send L resolve pool memory c"
  by (cases "urx_buf c")
    (simp_all add: can_send_def udp_flush_def udp_consume_def cong: if_cong option.case_cong)

section \<open>Properties\<close>


definition ntp_reply :: datagram where
  "ntp_reply = \<lparr>payload = replicate 40 (CHR 0x00) @ [CHR 0xE0, CHR 0x00, CHR 0x00, CHR 0x02, CHR 0xF0] @ replicate 3 (CHR 0x00),
     src_addr = 1, src_port = 123, dst_addr = 2\<rparr>"


text \<open>An old reply passes for the new one: a reply of 48 bytes still queued behind the datagram read
  last, for instance a duplicate, survives the \<open>flush\<close> before the request and is taken at the
  first poll; what arrives for this request is left for the next.\<close>

theorem ntp_stale_reply:
  assumes "can_send L resolve (mServerPool c) memory (mUdp c)" and "udpInited c = Some r" and "r \<noteq> 0"
    and "urx_buf (mUdp c) = taken_one # stale # rest" and "first_buf_taken (mUdp c)" and "length (payload stale) = 48"
  shows "\<exists>c'. getServerTime (wifi_udp_class L resolve env) memory c
       = (reply_seconds (payload stale) + mOffset c - 2208988800, c')
     \<and> udp_pending (mUdp c') = map payload rest"
proof -
  let ?U = "wifi_udp_class L resolve env" and ?f = "udp_flush (mUdp c)"
  have f: "urx_buf ?f = taken_one # stale # rest" "first_buf_taken ?f"
    using assms(4,5) by (simp_all add: udp_flush_def udp_consume_def)
  obtain s where s: "send_request ?U (mServerPool c) memory ?f = (True, s)" "urx_buf s = taken_one # stale # rest" "first_buf_taken s"
    using send_request_ok [of L resolve "mServerPool c" memory ?f env] assms(1) f by (auto simp: flush_tx)
  have "udp_pending s = payload stale # map payload rest" using s(2,3) by (simp add: udp_pending_def)
  then obtain s1 where s1: "ctx_parsePacket s = (int (length (payload stale)), s1)" "first_buf_taken s1"
    "udp_current s1 = payload stale" "udp_pending s1 = map payload rest"
    using sock.parse_some by blast
  then have "poll ?U 15 0 s = (48, s1)" using assms(6) by (simp add: numeral_eq_Suc wifi_udp_class_ops)
  from sock.server_time [OF wifi_udp_class_ops assms(2,3) s(1) this s1(2,3) assms(6)] s1(4) show ?thesis by simp
qed

lemma ntp_stale_reply_witness:
  "fst (getServerTime (wifi_udp_class sent_udp (\<lambda>h. Some 1) (\<lambda>n s. [])) (replicate 44 (CHR ''x''))
     ((EasyNTPClient_default ((UdpContext [])\<lparr>urx_buf := [ntp_reply, ntp_reply], first_buf_taken := True\<rparr>))
        \<lparr>udpInited := Some 1\<rparr>)) = 0xE0000003 - 2208988800"
  using ntp_stale_reply [of sent_udp "\<lambda>h. Some 1" "(EasyNTPClient_default ((UdpContext [])\<lparr>urx_buf := [ntp_reply, ntp_reply],
      first_buf_taken := True\<rparr>))\<lparr>udpInited := Some 1\<rparr>" "replicate 44 (CHR ''x'')" 1 ntp_reply ntp_reply "[]" "\<lambda>n s. []"]
  by (auto simp: can_send_def EasyNTPClient_default_def EasyNTPClient_def UdpContext_def sent_udp_def ntp_reply_def
      reply_seconds_def be_bytes_def nth_append)

end
