(* ===== verification/Wifi_Generic.thy ===== *)
theory Wifi_Generic
  imports Arduino_String Float32 "HOL-Library.Monad_Syntax"
begin

text \<open>
  The radio as a whole (\<open>src/ESP8266WiFi/src/ESP8266WiFiGeneric.cpp\<close>, \<open>ESP8266WiFiType.h\<close>): operating
  mode, sleep, power, events and host names. The functions of the SDK are a record over the SDK's
  state \<open>'k\<close>; the static members of the \<open>ESP8266WiFi\<close> classes lie beside that state in one
  record. A character array is its list of characters; its text ends before the first zero, and
  reading the text of an array without a zero is \<open>None\<close>. Event handlers act on the application's
  state and register no further handlers while they run.
\<close>

section \<open>The SDK\<close>

unbundle bit_operations_syntax

datatype netif = STATION_IF | SOFTAP_IF

datatype station_status_t = STATION_IDLE | STATION_CONNECTING | STATION_WRONG_PASSWORD
  | STATION_NO_AP_FOUND | STATION_CONNECT_FAIL | STATION_GOT_IP

record station_config =
  c_ssid :: string
  c_password :: string
  bssid_set :: bool
  c_bssid :: "u8 list"

record softap_config =
  ap_ssid :: string
  ap_password :: string
  ap_ssid_len :: u8
  ap_channel :: u8
  ap_open :: bool
  ap_ssid_hidden :: u8
  ap_max_connection :: u8
  ap_beacon_interval :: u16

record ip_info =
  ip_addr :: u32
  ip_gw :: u32
  ip_netmask :: u32

datatype auth_mode = AUTH_OPEN | AUTH_WEP | AUTH_WPA_PSK | AUTH_WPA2_PSK | AUTH_WPA_WPA2_PSK | AUTH_MAX

record bss_info =
  b_ssid :: string
  b_authmode :: auth_mode
  b_rssi :: int
  b_bssid :: "u8 list"
  b_channel :: nat
  b_hidden :: bool

record 'k sdk =
  wifi_get_opmode :: "'k \<Rightarrow> u8"
  wifi_set_opmode :: "u8 \<Rightarrow> 'k \<Rightarrow> bool \<times> 'k"
  wifi_set_opmode_current :: "u8 \<Rightarrow> 'k \<Rightarrow> bool \<times> 'k"
  wifi_station_get_config :: "'k \<Rightarrow> station_config"
  wifi_station_set_config :: "station_config \<Rightarrow> 'k \<Rightarrow> 'k"
  wifi_station_set_config_current :: "station_config \<Rightarrow> 'k \<Rightarrow> 'k"
  wifi_station_ap_number_set :: "nat \<Rightarrow> 'k \<Rightarrow> 'k"
  wifi_station_connect :: "'k \<Rightarrow> bool \<times> 'k"
  wifi_station_disconnect :: "'k \<Rightarrow> bool \<times> 'k"
  wifi_station_get_connect_status :: "'k \<Rightarrow> station_status_t"
  wifi_station_dhcpc_start :: "'k \<Rightarrow> 'k"
  wifi_station_dhcpc_stop :: "'k \<Rightarrow> 'k"
  wifi_station_set_auto_connect :: "bool \<Rightarrow> 'k \<Rightarrow> bool \<times> 'k"
  wifi_station_get_current_ap_id :: "'k \<Rightarrow> nat"
  wifi_station_get_auto_connect :: "'k \<Rightarrow> nat"
  wifi_station_set_reconnect_policy :: "bool \<Rightarrow> 'k \<Rightarrow> bool \<times> 'k"
  wifi_station_get_hostname :: "'k \<Rightarrow> string"
  wifi_station_set_hostname :: "string \<Rightarrow> 'k \<Rightarrow> bool \<times> 'k"
  wifi_station_get_rssi :: "'k \<Rightarrow> int"
  wifi_station_scan :: "bool \<Rightarrow> 'k \<Rightarrow> bool \<times> 'k"
  wifi_get_channel :: "'k \<Rightarrow> nat"
  wifi_set_channel :: "nat \<Rightarrow> 'k \<Rightarrow> 'k"
  wifi_get_ip_info :: "netif \<Rightarrow> 'k \<Rightarrow> ip_info option"
  wifi_set_ip_info :: "netif \<Rightarrow> ip_info \<Rightarrow> 'k \<Rightarrow> bool \<times> 'k"
  wifi_get_macaddr :: "netif \<Rightarrow> 'k \<Rightarrow> u8 list"
  wifi_set_sleep_type :: "nat \<Rightarrow> 'k \<Rightarrow> bool \<times> 'k"
  wifi_get_sleep_type :: "'k \<Rightarrow> nat"
  wifi_set_phy_mode :: "nat \<Rightarrow> 'k \<Rightarrow> bool \<times> 'k"
  wifi_get_phy_mode :: "'k \<Rightarrow> nat"
  system_phy_set_max_tpw :: "nat \<Rightarrow> 'k \<Rightarrow> 'k"
  wifi_fpm_set_sleep_type :: "'k \<Rightarrow> 'k"
  wifi_fpm_open :: "'k \<Rightarrow> 'k"
  wifi_fpm_do_sleep :: "u32 \<Rightarrow> 'k \<Rightarrow> int \<times> 'k"
  wifi_fpm_do_wakeup :: "'k \<Rightarrow> 'k"
  wifi_fpm_close :: "'k \<Rightarrow> 'k"
  wifi_softap_get_config :: "'k \<Rightarrow> softap_config"
  wifi_softap_set_config :: "softap_config \<Rightarrow> 'k \<Rightarrow> bool \<times> 'k"
  wifi_softap_set_config_current :: "softap_config \<Rightarrow> 'k \<Rightarrow> bool \<times> 'k"
  wifi_softap_dhcps_started :: "'k \<Rightarrow> bool"
  wifi_softap_dhcps_start :: "'k \<Rightarrow> bool \<times> 'k"
  wifi_softap_dhcps_stop :: "'k \<Rightarrow> bool \<times> 'k"
  wifi_softap_set_dhcps_lease :: "u32 \<Rightarrow> u32 \<Rightarrow> 'k \<Rightarrow> bool \<times> 'k"
  wifi_softap_set_dhcps_lease_time :: "nat \<Rightarrow> 'k \<Rightarrow> bool \<times> 'k"
  wifi_softap_set_dhcps_offer_router :: "bool \<Rightarrow> 'k \<Rightarrow> bool \<times> 'k"
  wifi_softap_get_station_num :: "'k \<Rightarrow> nat"
  wifi_wps_disable :: "'k \<Rightarrow> bool \<times> 'k"
  wifi_wps_enable :: "'k \<Rightarrow> bool \<times> 'k"
  wifi_set_wps_cb :: "'k \<Rightarrow> bool \<times> 'k"
  wifi_wps_start :: "'k \<Rightarrow> bool \<times> 'k"
  smartconfig_start :: "'k \<Rightarrow> bool \<times> 'k"
  smartconfig_stop :: "'k \<Rightarrow> bool \<times> 'k"
  dns_setserver :: "nat \<Rightarrow> u32 \<Rightarrow> 'k \<Rightarrow> 'k"
  dns_getserver :: "nat \<Rightarrow> 'k \<Rightarrow> u32"
  dns_gethostbyname :: "string \<Rightarrow> 'k \<Rightarrow> (int \<times> u32) \<times> 'k"
  parse_ip :: "string \<Rightarrow> u32 option"
  sdk_delay :: "nat \<Rightarrow> 'k \<Rightarrow> 'k"

record 'k wifi =
  sdk_state :: 'k
  persistent :: bool
  forceSleepLastMode :: u8
  useStaticIp :: bool
  smartConfigStarted :: bool
  smartConfigDone :: bool
  scanAsync :: bool
  scanStarted :: bool
  scanComplete_flag :: bool
  scanCount :: nat
  scanResult :: "bss_info list option"

definition wifi_init :: "'k \<Rightarrow> 'k wifi" where
  "wifi_init k = \<lparr>sdk_state = k, persistent = True, forceSleepLastMode = 0, useStaticIp = False,
     smartConfigStarted = False, smartConfigDone = False, scanAsync = False, scanStarted = False,
     scanComplete_flag = False, scanCount = 0, scanResult = None\<rparr>"

text \<open>A call of the SDK from the classes, with and without a result.\<close>

definition sdk_ask :: "('k \<Rightarrow> 'a \<times> 'k) \<Rightarrow> 'k wifi \<Rightarrow> 'a \<times> 'k wifi" where
  "sdk_ask f s = (case f (sdk_state s) of (x, k) \<Rightarrow> (x, s\<lparr>sdk_state := k\<rparr>))"

definition sdk_do :: "('k \<Rightarrow> 'k) \<Rightarrow> 'k wifi \<Rightarrow> 'k wifi" where
  "sdk_do f s = s\<lparr>sdk_state := f (sdk_state s)\<rparr>"

text \<open>\<open>strlen\<close> and \<open>String(char*)\<close> on an array, and \<open>strcpy\<close> into one.\<close>

definition cstr :: "string \<Rightarrow> string option" where
  "cstr a = (if CHR 0x00 \<in> set a then Some (takeWhile (\<lambda>c. c \<noteq> CHR 0x00) a) else None)"

definition strcpy_to :: "string \<Rightarrow> string \<Rightarrow> string option" where
  "strcpy_to s a = (if length s < length a then Some (s @ CHR 0x00 # drop (length s + 1) a) else None)"

text \<open>\<open>strcmp(\<dots>) == 0\<close> on two arrays reads until the first difference or the first zero of both.\<close>

fun strcmp_eq :: "string \<Rightarrow> string \<Rightarrow> bool option" where
  "strcmp_eq (a # as) (b # bs) =
     (if a \<noteq> b then Some False else if a = CHR 0x00 then Some True else strcmp_eq as bs)"
| "strcmp_eq _ _ = None"

section \<open>Mode\<close>

definition WIFI_OFF :: u8 where "WIFI_OFF = 0"
definition WIFI_STA :: u8 where "WIFI_STA = 1"
definition WIFI_AP :: u8 where "WIFI_AP = 2"

definition getMode :: "'k sdk \<Rightarrow> 'k wifi \<Rightarrow> u8" where
  "getMode K s = wifi_get_opmode K (sdk_state s)"

definition wifi_mode :: "'k sdk \<Rightarrow> u8 \<Rightarrow> 'k wifi \<Rightarrow> bool \<times> 'k wifi" where
  "wifi_mode K m s =
     (if wifi_get_opmode K (sdk_state s) = m then (True, s)
      else if persistent s then sdk_ask (wifi_set_opmode K m) s
      else sdk_ask (wifi_set_opmode_current K m) s)"

definition enableSTA :: "'k sdk \<Rightarrow> bool \<Rightarrow> 'k wifi \<Rightarrow> bool \<times> 'k wifi" where
  "enableSTA K enable s =
     (let currentMode = getMode K s; isEnabled = (currentMode AND WIFI_STA \<noteq> 0) in
      if isEnabled \<noteq> enable then
        (if enable then wifi_mode K (currentMode OR WIFI_STA) s
         else wifi_mode K (currentMode AND NOT WIFI_STA) s)
      else (True, s))"

definition enableAP :: "'k sdk \<Rightarrow> bool \<Rightarrow> 'k wifi \<Rightarrow> bool \<times> 'k wifi" where
  "enableAP K enable s =
     (let currentMode = getMode K s; isEnabled = (currentMode AND WIFI_AP \<noteq> 0) in
      if isEnabled \<noteq> enable then
        (if enable then wifi_mode K (currentMode OR WIFI_AP) s
         else wifi_mode K (currentMode AND NOT WIFI_AP) s)
      else (True, s))"

definition set_persistent :: "bool \<Rightarrow> 'k wifi \<Rightarrow> 'k wifi" where
  "set_persistent b s = s\<lparr>persistent := b\<rparr>"

section \<open>Sleep, power, channel\<close>

definition forceSleepBegin :: "'k sdk \<Rightarrow> u32 \<Rightarrow> 'k wifi \<Rightarrow> bool \<times> 'k wifi" where
  "forceSleepBegin K sleepUs s =
     (let s = s\<lparr>forceSleepLastMode := getMode K s\<rparr>; (ok, s) = wifi_mode K WIFI_OFF s in
      if \<not> ok then (False, s)
      else (let sleepUs = (if sleepUs = 0 then 0xFFFFFFF else sleepUs);
                s = sdk_do (wifi_fpm_open K) (sdk_do (wifi_fpm_set_sleep_type K) s);
                (r, s) = sdk_ask (wifi_fpm_do_sleep K sleepUs) s
            in (r = 0, s)))"

definition forceSleepWake :: "'k sdk \<Rightarrow> 'k wifi \<Rightarrow> bool \<times> 'k wifi" where
  "forceSleepWake K s =
     (let s = sdk_do (wifi_fpm_close K) (sdk_do (wifi_fpm_do_wakeup K) s);
          (ok, s) = wifi_mode K (forceSleepLastMode s) s
      in if ok then (True, if forceSleepLastMode s AND WIFI_STA \<noteq> 0
                           then snd (sdk_ask (wifi_station_connect K) s) else s)
         else (False, s))"

text \<open>The power in dBm is a \<open>float\<close>; \<open>val\<close> is the \<open>uint8_t\<close> of four times the power.\<close>

definition setOutputPower :: "'k sdk \<Rightarrow> u32 \<Rightarrow> 'k wifi \<Rightarrow> 'k wifi option" where
  "setOutputPower K dBm s =
     (let top = f32_of_fp (Fin (41 / 2));
          dBm = (if f32_less top dBm then top else if f32_less dBm 0 then 0 else dBm)
      in case f32_decode (f32_mul dBm (f32_of_u32 4)) of
           Fin r \<Rightarrow> Some (sdk_do (system_phy_set_max_tpw K (nat \<lfloor>r\<rfloor>)) s)
         | _ \<Rightarrow> None)"

definition channel :: "'k sdk \<Rightarrow> 'k wifi \<Rightarrow> nat" where
  "channel K s = wifi_get_channel K (sdk_state s)"

definition setSleepMode :: "'k sdk \<Rightarrow> nat \<Rightarrow> 'k wifi \<Rightarrow> bool \<times> 'k wifi" where
  "setSleepMode K t = sdk_ask (wifi_set_sleep_type K t)"

definition getSleepMode :: "'k sdk \<Rightarrow> 'k wifi \<Rightarrow> nat" where
  "getSleepMode K s = wifi_get_sleep_type K (sdk_state s)"

definition setPhyMode :: "'k sdk \<Rightarrow> nat \<Rightarrow> 'k wifi \<Rightarrow> bool \<times> 'k wifi" where
  "setPhyMode K m = sdk_ask (wifi_set_phy_mode K m)"

definition getPhyMode :: "'k sdk \<Rightarrow> 'k wifi \<Rightarrow> nat" where
  "getPhyMode K s = wifi_get_phy_mode K (sdk_state s)"

section \<open>Host names\<close>

text \<open>\<open>dns_gethostbyname\<close> gives the error code and the address: for \<open>ERR_OK\<close> the address found at
  once, for \<open>ERR_INPROGRESS\<close> the one the callback stored before \<open>esp_yield\<close> returned, 0 when
  there was none.\<close>

definition ERR_OK :: int where "ERR_OK = 0"
definition ERR_INPROGRESS :: int where "ERR_INPROGRESS = - 5"

definition hostByName :: "'k sdk \<Rightarrow> string \<Rightarrow> 'k wifi \<Rightarrow> (nat \<times> u32) \<times> 'k wifi" where
  "hostByName K aHostname s =
     (case parse_ip K aHostname of
        Some a \<Rightarrow> ((1, a), s)
      | None \<Rightarrow>
          (let ((err, a), s) = sdk_ask (dns_gethostbyname K aHostname) s in
           if err = ERR_OK then ((1, a), s)
           else if err = ERR_INPROGRESS then (if a \<noteq> 0 then ((1, a), s) else ((0, 0), s))
           else ((0, 0), s)))"

section \<open>Events\<close>

text \<open>The events with their data, and the numbers of \<open>WiFiEvent\<close>.\<close>

datatype system_event =
    Sta_connected string "u8 list" nat
  | Sta_disconnected string "u8 list" nat
  | Sta_authmode nat nat
  | Sta_got_ip u32 u32 u32
  | Sta_dhcp_timeout
  | Ap_sta_connected "u8 list" nat
  | Ap_sta_disconnected "u8 list" nat
  | Ap_probe int "u8 list"

fun event_number :: "system_event \<Rightarrow> nat" where
  "event_number (Sta_connected _ _ _) = 0"
| "event_number (Sta_disconnected _ _ _) = 1"
| "event_number (Sta_authmode _ _) = 2"
| "event_number (Sta_got_ip _ _ _) = 3"
| "event_number Sta_dhcp_timeout = 4"
| "event_number (Ap_sta_connected _ _) = 5"
| "event_number (Ap_sta_disconnected _ _) = 6"
| "event_number (Ap_probe _ _) = 7"

definition WIFI_EVENT_ANY :: nat where "WIFI_EVENT_ANY = 8"

record 'u event_handler =
  handle_id :: nat
  mEvent :: nat
  mHandler :: "system_event \<Rightarrow> 'u \<Rightarrow> 'u option"
  mCanExpire :: bool

definition call_handler :: "'u event_handler \<Rightarrow> system_event \<Rightarrow> 'u \<Rightarrow> 'u option" where
  "call_handler h e u =
     (if event_number e = mEvent h \<or> mEvent h = WIFI_EVENT_ANY then mHandler h e u else Some u)"

text \<open>Registration. \<open>n\<close> is the identity of the new handler object.\<close>

definition onEvent :: "nat \<Rightarrow> (nat \<Rightarrow> 'u \<Rightarrow> 'u option) \<Rightarrow> nat \<Rightarrow> 'u event_handler list \<Rightarrow> 'u event_handler list" where
  "onEvent n f event hs = hs @ [\<lparr>handle_id = n, mEvent = event, mHandler = (\<lambda>e. f (event_number e)), mCanExpire = False\<rparr>]"

definition on_event_of ::
    "nat \<Rightarrow> nat \<Rightarrow> (system_event \<Rightarrow> 'u \<Rightarrow> 'u option) \<Rightarrow> 'u event_handler list \<Rightarrow> nat \<times> 'u event_handler list" where
  "on_event_of n event f hs = (n, hs @ [\<lparr>handle_id = n, mEvent = event, mHandler = f, mCanExpire = True\<rparr>])"

definition onStationModeConnected where
  "onStationModeConnected n f = on_event_of n 0 (\<lambda>e u. case e of
     Sta_connected ssid bssid ch \<Rightarrow> Option.bind (cstr ssid) (\<lambda>x. f x (take 6 bssid) ch u) | _ \<Rightarrow> None)"

definition onStationModeDisconnected where
  "onStationModeDisconnected n f = on_event_of n 1 (\<lambda>e u. case e of
     Sta_disconnected ssid bssid reason \<Rightarrow> Option.bind (cstr ssid) (\<lambda>x. f x (take 6 bssid) reason u) | _ \<Rightarrow> None)"

definition onStationModeAuthModeChanged where
  "onStationModeAuthModeChanged n f = on_event_of n 2 (\<lambda>e u. case e of
     Sta_authmode old new \<Rightarrow> f old new u | _ \<Rightarrow> None)"

definition onStationModeGotIP where
  "onStationModeGotIP n f = on_event_of n 3 (\<lambda>e u. case e of
     Sta_got_ip ip nm gw \<Rightarrow> f ip nm gw u | _ \<Rightarrow> None)"

definition onStationModeDHCPTimeout where
  "onStationModeDHCPTimeout n f = on_event_of n 4 (\<lambda>e u. f u)"

definition onSoftAPModeStationConnected where
  "onSoftAPModeStationConnected n f = on_event_of n 5 (\<lambda>e u. case e of
     Ap_sta_connected mac aid \<Rightarrow> f (take 6 mac) aid u | _ \<Rightarrow> None)"

definition onSoftAPModeStationDisconnected where
  "onSoftAPModeStationDisconnected n f = on_event_of n 6 (\<lambda>e u. case e of
     Ap_sta_disconnected mac aid \<Rightarrow> f (take 6 mac) aid u | _ \<Rightarrow> None)"

text \<open>\<open>_eventCallback\<close>: \<open>held u i\<close> says that the application still holds a handle of handler \<open>i\<close>, so
  that the list's is not the only one.\<close>

fun event_loop ::
    "('u \<Rightarrow> nat \<Rightarrow> bool) \<Rightarrow> system_event \<Rightarrow> 'u event_handler list \<Rightarrow> 'u \<Rightarrow> ('u event_handler list \<times> 'u) option" where
  "event_loop held e [] u = Some ([], u)"
| "event_loop held e (h # hs) u =
     (if mCanExpire h \<and> \<not> held u (handle_id h) then event_loop held e hs u
      else Option.bind (call_handler h e u) (\<lambda>u.
           Option.bind (event_loop held e hs u) (\<lambda>(hs, u). Some (h # hs, u))))"

definition eventCallback ::
    "('u \<Rightarrow> 'u option) \<Rightarrow> ('u \<Rightarrow> nat \<Rightarrow> bool) \<Rightarrow> system_event \<Rightarrow> 'u event_handler list \<Rightarrow> 'u
      \<Rightarrow> ('u event_handler list \<times> 'u) option" where
  "eventCallback stopAll held e hs u =
     Option.bind (if event_number e = 1 then stopAll u else Some u) (event_loop held e hs)"

section \<open>Lemmas\<close>

lemma sdk_simps [simp]:
  "sdk_state (sdk_do f s) = f (sdk_state s)" "persistent (sdk_do f s) = persistent s"
  "useStaticIp (sdk_do f s) = useStaticIp s" "forceSleepLastMode (sdk_do f s) = forceSleepLastMode s"
  "fst (sdk_ask g s) = fst (g (sdk_state s))" "sdk_state (snd (sdk_ask g s)) = snd (g (sdk_state s))"
  "persistent (snd (sdk_ask g s)) = persistent s" "useStaticIp (snd (sdk_ask g s)) = useStaticIp s"
  "forceSleepLastMode (snd (sdk_ask g s)) = forceSleepLastMode s"
  by (simp_all add: sdk_do_def sdk_ask_def split: prod.split)

lemma cstr_terminated [simp]: "CHR 0x00 \<notin> set s \<Longrightarrow> cstr (s @ CHR 0x00 # x) = Some s"
  unfolding cstr_def by (induction s) auto

lemma cstr_unterminated: "CHR 0x00 \<notin> set a \<Longrightarrow> cstr a = None"
  by (simp add: cstr_def)

lemma strcmp_terminated:
  "CHR 0x00 \<notin> set s \<Longrightarrow> CHR 0x00 \<notin> set t \<Longrightarrow> strcmp_eq (s @ CHR 0x00 # x) (t @ CHR 0x00 # y) = Some (s = t)"
proof (induction s arbitrary: t)
  case Nil
  then show ?case by (cases t) auto
next
  case (Cons a s)
  then show ?case by (cases t) auto
qed

lemma strcmp_unterminated:
  "CHR 0x00 \<in> set a \<Longrightarrow> CHR 0x00 \<notin> set b \<Longrightarrow> length a \<le> length b \<Longrightarrow> strcmp_eq a b = Some False"
  by (induction a b rule: strcmp_eq.induct) auto

lemma strcmp_same_unterminated: "CHR 0x00 \<notin> set a \<Longrightarrow> strcmp_eq a a = None"
  by (induction a) auto

lemma terminatedE:
  assumes "CHR 0x00 \<in> set a"
  obtains s x where "a = s @ CHR 0x00 # x" "CHR 0x00 \<notin> set s"
  using split_list_first [OF assms] by blast

text \<open>The documented behaviour of the SDK's mode: it is what the last successful call has set.\<close>

definition modes_kept :: "'k sdk \<Rightarrow> bool" where
  "modes_kept K \<longleftrightarrow>
     (\<forall>m k k'. wifi_set_opmode K m k = (True, k') \<longrightarrow> wifi_get_opmode K k' = m)
     \<and> (\<forall>m k k'. wifi_set_opmode_current K m k = (True, k') \<longrightarrow> wifi_get_opmode K k' = m)
     \<and> (\<forall>k. wifi_get_opmode K (wifi_fpm_set_sleep_type K k) = wifi_get_opmode K k)
     \<and> (\<forall>k. wifi_get_opmode K (wifi_fpm_open K k) = wifi_get_opmode K k)
     \<and> (\<forall>us k. wifi_get_opmode K (snd (wifi_fpm_do_sleep K us k)) = wifi_get_opmode K k)
     \<and> (\<forall>k. wifi_get_opmode K (snd (wifi_station_connect K k)) = wifi_get_opmode K k)"

lemma wifi_mode_set:
  assumes "modes_kept K" and "wifi_mode K m s = (True, s')"
  shows "getMode K s' = m" and "forceSleepLastMode s' = forceSleepLastMode s" and "persistent s' = persistent s"
  using assms by (auto simp: wifi_mode_def getMode_def modes_kept_def sdk_ask_def split: if_splits prod.splits)

lemma station_bit [simp]: "(m OR 1) AND 1 \<noteq> (0 :: u8)"
proof -
  have "(m OR 1) AND 1 = (1 :: u8)" by (rule bit_eqI) (auto simp: bit_simps)
  then show ?thesis by simp
qed

section \<open>Properties\<close>

text \<open>\<open>forceSleepBegin\<close> switches the radio off, and \<open>forceSleepWake\<close> restores the mode that it had
  before. When the sleep is begun twice, the second call takes the mode of the sleeping radio, and
  the radio stays off after the wake-up.\<close>

theorem sleep_round_trip:
  assumes "modes_kept K" and "forceSleepBegin K us s = (True, s1)"
  shows "getMode K s1 = WIFI_OFF
    \<and> (\<forall>s2. forceSleepWake K s1 = (True, s2) \<longrightarrow> getMode K s2 = getMode K s)
    \<and> (\<forall>us' s1' s2. forceSleepBegin K us' s1 = (True, s1') \<longrightarrow> forceSleepWake K s1' = (True, s2)
         \<longrightarrow> getMode K s2 = WIFI_OFF)"
proof -
  have begun: "getMode K b = WIFI_OFF \<and> forceSleepLastMode b = getMode K a"
    if "forceSleepBegin K u a = (True, b)" for u a b
  proof -
    let ?a = "a\<lparr>forceSleepLastMode := getMode K a\<rparr>"
    from that obtain c where c: "wifi_mode K WIFI_OFF ?a = (True, c)"
      by (auto simp: forceSleepBegin_def Let_def split: prod.splits if_splits)
    note wifi_mode_set [OF assms(1) c]
    then show ?thesis using that assms(1) c
      by (auto simp: forceSleepBegin_def getMode_def modes_kept_def sdk_ask_def split_beta Let_def)
  qed
  have woken: "getMode K b = forceSleepLastMode a" if "forceSleepWake K a = (True, b)" for a b
  proof -
    let ?a = "sdk_do (wifi_fpm_close K) (sdk_do (wifi_fpm_do_wakeup K) a)"
    from that obtain c where c: "wifi_mode K (forceSleepLastMode ?a) ?a = (True, c)"
      by (auto simp: forceSleepWake_def Let_def split: prod.splits if_splits)
    from wifi_mode_set(1) [OF assms(1) c] show ?thesis using that assms(1) c
      by (auto simp: forceSleepWake_def getMode_def modes_kept_def split: if_splits)
  qed
  show ?thesis using begun [OF assms(2)] begun woken by metis
qed

text \<open>An event reaches the handlers in the order of their registration, each at most once and only
  those registered for it or for every event. A handler that nobody holds any more is removed and not
  called, one registered by the deprecated \<open>onEvent\<close> never expires, and the first failure ends the delivery.
  Before a disconnection is delivered the clients are stopped.\<close>

theorem events_in_order:
  assumes "\<forall>u n. held u n = live n"
  shows "eventCallback stopAll held e hs u =
    (let kept = filter (\<lambda>h. mCanExpire h \<longrightarrow> live (handle_id h)) hs;
         called = filter (\<lambda>h. mEvent h = event_number e \<or> mEvent h = WIFI_EVENT_ANY) kept
     in map_option (Pair kept)
          (foldl (\<lambda>r h. Option.bind r (mHandler h e)) (if event_number e = 1 then stopAll u else Some u) called))"
proof -
  have none: "foldl (\<lambda>r h. Option.bind r (mHandler h e)) None xs = None" for xs :: "'a event_handler list"
    by (induction xs) auto
  have "event_loop held e hs u =
    (let kept = filter (\<lambda>h. mCanExpire h \<longrightarrow> live (handle_id h)) hs;
         called = filter (\<lambda>h. mEvent h = event_number e \<or> mEvent h = WIFI_EVENT_ANY) kept
     in map_option (Pair kept) (foldl (\<lambda>r h. Option.bind r (mHandler h e)) (Some u) called))" for u
  proof (induction hs arbitrary: u)
    case (Cons h hs)
    show ?case
    proof (cases "mHandler h e u")
      case None
      then show ?thesis using assms none Cons [of u] by (auto simp: call_handler_def Let_def split: Option.bind_splits)
    next
      case (Some v)
      then show ?thesis using assms Cons [of u] Cons [of v]
        by (auto simp: call_handler_def Let_def split: Option.bind_splits)
    qed
  qed simp
  then show ?thesis by (auto simp: eventCallback_def none Let_def split: Option.bind_splits)
qed

definition demo_handlers :: "nat list event_handler list" where
  "demo_handlers = onEvent 3 (\<lambda>n u. Some (u @ [3])) WIFI_EVENT_ANY
     (snd (on_event_of 2 1 (\<lambda>e u. Some (u @ [2])) (snd (on_event_of 1 1 (\<lambda>e u. Some (u @ [1])) []))))"

lemma events_in_order_witness:
  "map_option snd (eventCallback Some (\<lambda>u n. n \<noteq> 1) (Sta_disconnected [] [] 8) demo_handlers []) = Some [2, 3]"
  using events_in_order [of "\<lambda>u n. n \<noteq> 1" "\<lambda>n. n \<noteq> 1" Some "Sta_disconnected [] [] 8" demo_handlers "[]"]
  by (simp add: demo_handlers_def onEvent_def on_event_of_def WIFI_EVENT_ANY_def)

end
