(* ===== verification/Wifi_Sta.thy ===== *)
theory Wifi_Sta
  imports Wifi_Generic
begin

text \<open>
  The station (\<open>src/ESP8266WiFi/src/ESP8266WiFiSTA.cpp\<close>): connecting, its configuration and
  addresses, WPS and SmartConfig. \<open>stack\<close> is what an uninitialised local \<open>station_config\<close> holds.
  Waiting for a connection may last for ever and is a partial function.
\<close>

section \<open>Configuration\<close>

datatype wl_status_t = WL_IDLE_STATUS | WL_NO_SSID_AVAIL | WL_SCAN_COMPLETED | WL_CONNECTED
  | WL_CONNECT_FAILED | WL_CONNECTION_LOST | WL_DISCONNECTED

definition sta_config_equal :: "station_config \<Rightarrow> station_config \<Rightarrow> bool option" where
  "sta_config_equal lhs rhs = do {
     ssid \<leftarrow> strcmp_eq (c_ssid lhs) (c_ssid rhs);
     if \<not> ssid then Some False else do {
       password \<leftarrow> strcmp_eq (c_password lhs) (c_password rhs);
       Some (if \<not> password then False
             else if bssid_set lhs \<noteq> bssid_set rhs then False
             else if bssid_set lhs then take 6 (c_bssid lhs) = take 6 (c_bssid rhs)
             else True) } }"

definition wifi_status :: "'k sdk \<Rightarrow> 'k wifi \<Rightarrow> wl_status_t" where
  "wifi_status K s = (case wifi_station_get_connect_status K (sdk_state s) of
     STATION_GOT_IP \<Rightarrow> WL_CONNECTED
   | STATION_NO_AP_FOUND \<Rightarrow> WL_NO_SSID_AVAIL
   | STATION_CONNECT_FAIL \<Rightarrow> WL_CONNECT_FAILED
   | STATION_WRONG_PASSWORD \<Rightarrow> WL_CONNECT_FAILED
   | STATION_IDLE \<Rightarrow> WL_IDLE_STATUS
   | STATION_CONNECTING \<Rightarrow> WL_DISCONNECTED)"

definition store_config :: "'k sdk \<Rightarrow> station_config \<Rightarrow> 'k wifi \<Rightarrow> 'k wifi" where
  "store_config K conf s =
     (if persistent s then
        sdk_do (wifi_station_set_config K conf)
          (sdk_do (wifi_station_ap_number_set K 1) (sdk_do (wifi_station_ap_number_set K 2) s))
      else sdk_do (wifi_station_set_config_current K conf) s)"

section \<open>Connecting\<close>

text \<open>The configuration that \<open>begin\<close> fills in: 64 characters are a key and carry no zero.\<close>

definition fill_config ::
    "station_config \<Rightarrow> string \<Rightarrow> string option \<Rightarrow> u8 list option \<Rightarrow> station_config option" where
  "fill_config stack ssid passphrase bssid = do {
     a \<leftarrow> strcpy_to ssid (c_ssid stack);
     p \<leftarrow> (case passphrase of
         None \<Rightarrow> strcpy_to [] (c_password stack)
       | Some p \<Rightarrow> if length p = 64 then (if length (c_password stack) \<ge> 64 then Some (p @ drop 64 (c_password stack)) else None)
                   else strcpy_to p (c_password stack));
     Some (case bssid of
         Some b \<Rightarrow> stack\<lparr>c_ssid := a, c_password := p, bssid_set := True, c_bssid := take 6 b\<rparr>
       | None \<Rightarrow> stack\<lparr>c_ssid := a, c_password := p, bssid_set := False\<rparr>) }"

definition sta_connect :: "'k sdk \<Rightarrow> bool \<Rightarrow> int \<Rightarrow> 'k wifi \<Rightarrow> 'k wifi" where
  "sta_connect K connect ch s =
     (let s = (if connect then snd (sdk_ask (wifi_station_connect K) s) else s);
          s = (if ch > 0 \<and> ch \<le> 13 then sdk_do (wifi_set_channel K (nat ch)) s else s)
      in if \<not> useStaticIp s then sdk_do (wifi_station_dhcpc_start K) s else s)"

text \<open>\<open>begin(ssid, passphrase, channel, bssid, connect)\<close>; a null pointer is \<open>None\<close>.\<close>

definition sta_begin ::
    "'k sdk \<Rightarrow> station_config \<Rightarrow> string option \<Rightarrow> string option \<Rightarrow> int \<Rightarrow> u8 list option \<Rightarrow> bool
      \<Rightarrow> 'k wifi \<Rightarrow> (wl_status_t \<times> 'k wifi) option" where
  "sta_begin K stack ssid passphrase ch bssid connect s =
     (let (ok, s) = enableSTA K True s in
      if \<not> ok then Some (WL_CONNECT_FAILED, s)
      else case ssid of
        None \<Rightarrow> Some (WL_CONNECT_FAILED, s)
      | Some ssid \<Rightarrow>
          if ssid = [] \<or> length ssid > 31 then Some (WL_CONNECT_FAILED, s)
          else if passphrase \<noteq> None \<and> length (the passphrase) > 64 then Some (WL_CONNECT_FAILED, s)
          else do {
            conf \<leftarrow> fill_config stack ssid passphrase bssid;
            same \<leftarrow> sta_config_equal (wifi_station_get_config K (sdk_state s)) conf;
            let s = (if same then s else store_config K conf s);
            let s = sta_connect K connect ch s;
            Some (wifi_status K s, s) })"

definition sta_begin_saved :: "'k sdk \<Rightarrow> 'k wifi \<Rightarrow> wl_status_t \<times> 'k wifi" where
  "sta_begin_saved K s =
     (let (ok, s) = enableSTA K True s in
      if \<not> ok then (WL_CONNECT_FAILED, s)
      else (let s = sta_connect K True 0 s in (wifi_status K s, s)))"

definition sta_config ::
    "'k sdk \<Rightarrow> u32 \<Rightarrow> u32 \<Rightarrow> u32 \<Rightarrow> u32 \<Rightarrow> u32 \<Rightarrow> 'k wifi \<Rightarrow> bool \<times> 'k wifi" where
  "sta_config K local_ip gateway subnet dns1 dns2 s =
     (let (ok, s) = enableSTA K True s in
      if \<not> ok then (False, s)
      else if local_ip = 0 \<and> gateway = 0 \<and> subnet = 0 then
        (True, sdk_do (wifi_station_dhcpc_start K) (s\<lparr>useStaticIp := False\<rparr>))
      else
        (let s = sdk_do (wifi_station_dhcpc_stop K) s;
             (ok, s) = sdk_ask (wifi_set_ip_info K STATION_IF \<lparr>ip_addr = local_ip, ip_gw = gateway, ip_netmask = subnet\<rparr>) s
         in if \<not> ok then (False, s)
            else (let s = s\<lparr>useStaticIp := True\<rparr>;
                      s = (if dns1 \<noteq> 0 then sdk_do (dns_setserver K 0 dns1) s else s);
                      s = (if dns2 \<noteq> 0 then sdk_do (dns_setserver K 1 dns2) s else s)
                  in (True, s))))"

definition reconnect :: "'k sdk \<Rightarrow> 'k wifi \<Rightarrow> bool \<times> 'k wifi" where
  "reconnect K s =
     (if getMode K s AND WIFI_STA \<noteq> 0 then
        (let (ok, s) = sdk_ask (wifi_station_disconnect K) s in
         if ok then sdk_ask (wifi_station_connect K) s else (False, s))
      else (False, s))"

text \<open>\<open>disconnect\<close> stores an empty name and password; the rest of its configuration is uninitialised.\<close>

definition empty_config :: "station_config \<Rightarrow> station_config" where
  "empty_config stack = stack\<lparr>c_ssid := (c_ssid stack)[0 := CHR 0x00], c_password := (c_password stack)[0 := CHR 0x00]\<rparr>"

definition sta_disconnect :: "'k sdk \<Rightarrow> station_config \<Rightarrow> bool \<Rightarrow> 'k wifi \<Rightarrow> bool \<times> 'k wifi" where
  "sta_disconnect K stack wifioff s =
     (let conf = empty_config stack;
          s = (if persistent s then sdk_do (wifi_station_set_config K conf) s
               else sdk_do (wifi_station_set_config_current K conf) s);
          (ret, s) = sdk_ask (wifi_station_disconnect K) s
      in (ret, if wifioff then snd (enableSTA K False s) else s))"

definition isConnected :: "'k sdk \<Rightarrow> 'k wifi \<Rightarrow> bool" where
  "isConnected K s = (wifi_status K s = WL_CONNECTED)"

partial_function (option) await_status :: "'k sdk \<Rightarrow> 'k wifi \<Rightarrow> 'k wifi option" where
  "await_status K s =
     (if wifi_status K s = WL_DISCONNECTED then await_status K (sdk_do (sdk_delay K 100) s) else Some s)"

definition sta_waitForConnectResult :: "'k sdk \<Rightarrow> 'k wifi \<Rightarrow> (wl_status_t \<times> 'k wifi) option" where
  "sta_waitForConnectResult K s =
     (if wifi_get_opmode K (sdk_state s) AND 1 = 0 then Some (WL_DISCONNECTED, s)
      else map_option (\<lambda>s. (wifi_status K s, s)) (await_status K s))"

section \<open>Settings and addresses\<close>

definition setAutoConnect :: "'k sdk \<Rightarrow> bool \<Rightarrow> 'k wifi \<Rightarrow> bool \<times> 'k wifi" where
  "setAutoConnect K b = sdk_ask (wifi_station_set_auto_connect K b)"

definition getAutoConnect :: "'k sdk \<Rightarrow> 'k wifi \<Rightarrow> bool" where
  "getAutoConnect K s = (wifi_station_get_auto_connect K (sdk_state s) \<noteq> 0)"

definition setAutoReconnect :: "'k sdk \<Rightarrow> bool \<Rightarrow> 'k wifi \<Rightarrow> bool \<times> 'k wifi" where
  "setAutoReconnect K b = sdk_ask (wifi_station_set_reconnect_policy K b)"

text \<open>The three addresses ignore the result of \<open>wifi_get_ip_info\<close>; \<open>stack\<close> is the uninitialised structure.\<close>

definition station_ip_info :: "'k sdk \<Rightarrow> ip_info \<Rightarrow> 'k wifi \<Rightarrow> ip_info" where
  "station_ip_info K stack s = (case wifi_get_ip_info K STATION_IF (sdk_state s) of None \<Rightarrow> stack | Some i \<Rightarrow> i)"

definition sta_localIP :: "'k sdk \<Rightarrow> ip_info \<Rightarrow> 'k wifi \<Rightarrow> u32" where
  "sta_localIP K stack s = ip_addr (station_ip_info K stack s)"
definition sta_subnetMask :: "'k sdk \<Rightarrow> ip_info \<Rightarrow> 'k wifi \<Rightarrow> u32" where
  "sta_subnetMask K stack s = ip_netmask (station_ip_info K stack s)"
definition sta_gatewayIP :: "'k sdk \<Rightarrow> ip_info \<Rightarrow> 'k wifi \<Rightarrow> u32" where
  "sta_gatewayIP K stack s = ip_gw (station_ip_info K stack s)"
definition dnsIP :: "'k sdk \<Rightarrow> nat \<Rightarrow> 'k wifi \<Rightarrow> u32" where
  "dnsIP K n s = dns_getserver K n (sdk_state s)"

definition upper_hex :: "nat \<Rightarrow> char" where
  "upper_hex n = (if n < 10 then char_of (48 + n) else char_of (55 + n))"

definition hex2 :: "u8 \<Rightarrow> string" where
  "hex2 b = [upper_hex (unat b div 16), upper_hex (unat b mod 16)]"

text \<open>\<open>sprintf("%02X:%02X:%02X:%02X:%02X:%02X")\<close> of the six bytes of an address.\<close>

definition mac_string :: "u8 list \<Rightarrow> string" where
  "mac_string mac = hex2 (mac ! 0) @ concat (map (\<lambda>i. CHR '':'' # hex2 (mac ! i)) [1..<6])"

definition sta_macAddress :: "'k sdk \<Rightarrow> 'k wifi \<Rightarrow> u8 list" where
  "sta_macAddress K s = wifi_get_macaddr K STATION_IF (sdk_state s)"
definition sta_macAddress_str :: "'k sdk \<Rightarrow> 'k wifi \<Rightarrow> string" where
  "sta_macAddress_str K s = mac_string (wifi_get_macaddr K STATION_IF (sdk_state s))"

definition get_hostname :: "'k sdk \<Rightarrow> 'k wifi \<Rightarrow> string" where
  "get_hostname K s = wifi_station_get_hostname K (sdk_state s)"

definition set_hostname :: "'k sdk \<Rightarrow> string \<Rightarrow> 'k wifi \<Rightarrow> bool \<times> 'k wifi" where
  "set_hostname K aHostname s =
     (if length aHostname > 32 then (False, s) else sdk_ask (wifi_station_set_hostname K aHostname) s)"

definition sta_SSID :: "'k sdk \<Rightarrow> 'k wifi \<Rightarrow> string option" where
  "sta_SSID K s = cstr (c_ssid (wifi_station_get_config K (sdk_state s)))"
definition sta_psk :: "'k sdk \<Rightarrow> 'k wifi \<Rightarrow> string option" where
  "sta_psk K s = cstr (c_password (wifi_station_get_config K (sdk_state s)))"
definition sta_BSSID :: "'k sdk \<Rightarrow> 'k wifi \<Rightarrow> u8 list" where
  "sta_BSSID K s = c_bssid (wifi_station_get_config K (sdk_state s))"
definition sta_BSSIDstr :: "'k sdk \<Rightarrow> 'k wifi \<Rightarrow> string" where
  "sta_BSSIDstr K s = mac_string (c_bssid (wifi_station_get_config K (sdk_state s)))"
definition sta_RSSI :: "'k sdk \<Rightarrow> 'k wifi \<Rightarrow> int" where
  "sta_RSSI K s = wifi_station_get_rssi K (sdk_state s)"

section \<open>Diagnosis\<close>

text \<open>\<open>printDiag\<close> (\<open>src/ESP8266WiFi/src/ESP8266WiFi.cpp\<close>): what is printed. An enumeration is printed as its number.\<close>

fun station_status_number :: "station_status_t \<Rightarrow> nat" where
  "station_status_number STATION_IDLE = 0"
| "station_status_number STATION_CONNECTING = 1"
| "station_status_number STATION_WRONG_PASSWORD = 2"
| "station_status_number STATION_NO_AP_FOUND = 3"
| "station_status_number STATION_CONNECT_FAIL = 4"
| "station_status_number STATION_GOT_IP = 5"

definition println :: "string \<Rightarrow> string" where
  "println x = x @ [CHR 0x0D, CHR 0x0A]"

definition printDiag :: "'k sdk \<Rightarrow> 'k wifi \<Rightarrow> string option" where
  "printDiag K s = (let k = sdk_state s in do {
     mode \<leftarrow> arr_get [''NULL'', ''STA'', ''AP'', ''STA+AP''] (unat (wifi_get_opmode K k));
     phymode \<leftarrow> arr_get [[], ''B'', ''G'', ''N''] (wifi_get_phy_mode K k);
     let conf = wifi_station_get_config K k;
     ssid \<leftarrow> cstr (c_ssid conf);
     passphrase \<leftarrow> cstr (c_password conf);
     Some (concat [''Mode: '', println mode, ''PHY mode: '', println phymode,
       ''Channel: '', println (decimal (wifi_get_channel K k)),
       ''AP id: '', println (decimal (wifi_station_get_current_ap_id K k)),
       ''Status: '', println (decimal (station_status_number (wifi_station_get_connect_status K k))),
       ''Auto connect: '', println (decimal (wifi_station_get_auto_connect K k)),
       ''SSID ('', decimal (length ssid), ''): '', println ssid,
       ''Passphrase ('', decimal (length passphrase), ''): '', println passphrase,
       ''BSSID set: '', println (decimal (if bssid_set conf then 1 else 0))]) })"

section \<open>WPS and SmartConfig\<close>

datatype wps_cb_status = WPS_CB_ST_SUCCESS | WPS_CB_ST_FAILED | WPS_CB_ST_TIMEOUT | WPS_CB_ST_WEP

text \<open>\<open>yielded\<close> is what happens until the callback resumes \<open>beginWPSConfig\<close>.\<close>

definition beginWPSConfig ::
    "'k sdk \<Rightarrow> station_config \<Rightarrow> ('k wifi \<Rightarrow> 'k wifi) \<Rightarrow> 'k wifi \<Rightarrow> bool \<times> 'k wifi" where
  "beginWPSConfig K stack yielded s =
     (let (ok, s) = enableSTA K True s in if \<not> ok then (False, s) else
      let s = snd (sta_disconnect K stack False s);
          (ok, s) = sdk_ask (wifi_wps_disable K) s in if \<not> ok then (False, s) else
      let (ok, s) = sdk_ask (wifi_wps_enable K) s in if \<not> ok then (False, s) else
      let (ok, s) = sdk_ask (wifi_set_wps_cb K) s in if \<not> ok then (False, s) else
      let (ok, s) = sdk_ask (wifi_wps_start K) s in if \<not> ok then (False, s) else
      (True, yielded s))"

definition wps_status_cb :: "'k sdk \<Rightarrow> wps_cb_status \<Rightarrow> 'k wifi \<Rightarrow> 'k wifi" where
  "wps_status_cb K status s =
     (if status = WPS_CB_ST_SUCCESS
      then snd (sdk_ask (wifi_station_connect K) (snd (sdk_ask (wifi_wps_disable K) s)))
      else s)"

definition beginSmartConfig :: "'k sdk \<Rightarrow> 'k wifi \<Rightarrow> bool \<times> 'k wifi" where
  "beginSmartConfig K s =
     (if smartConfigStarted s then (False, s)
      else let (ok, s) = enableSTA K True s in if \<not> ok then (False, s) else
      let (ok, s) = sdk_ask (smartconfig_start K) s in
      if ok then (True, s\<lparr>smartConfigStarted := True, smartConfigDone := False\<rparr>) else (False, s))"

definition stopSmartConfig :: "'k sdk \<Rightarrow> 'k wifi \<Rightarrow> bool \<times> 'k wifi" where
  "stopSmartConfig K s =
     (if \<not> smartConfigStarted s then (True, s)
      else let (ok, s) = sdk_ask (smartconfig_stop K) s in
      if ok then (True, s\<lparr>smartConfigStarted := False\<rparr>) else (False, s))"

definition smartConfig_done :: "'k wifi \<Rightarrow> bool" where
  "smartConfig_done s = (if \<not> smartConfigStarted s then False else smartConfigDone s)"

datatype sc_status = SC_STATUS_LINK station_config | SC_STATUS_LINK_OVER | SC_STATUS_OTHER

fun smartConfigCallback :: "'k sdk \<Rightarrow> sc_status \<Rightarrow> 'k wifi \<Rightarrow> 'k wifi" where
  "smartConfigCallback K (SC_STATUS_LINK conf) s =
     (let s = sdk_do (wifi_station_set_config K conf) s;
          s = snd (sdk_ask (wifi_station_disconnect K) s);
          s = snd (sdk_ask (wifi_station_connect K) s)
      in s\<lparr>smartConfigDone := True\<rparr>)"
| "smartConfigCallback K SC_STATUS_LINK_OVER s = snd (stopSmartConfig K s)"
| "smartConfigCallback K SC_STATUS_OTHER s = s"

section \<open>What the SDK keeps\<close>

text \<open>The documented behaviour of the SDK: it keeps the configuration that was stored last and the mode that
  was set last, and the other calls of \<open>begin\<close> change neither.\<close>

definition config_kept :: "'k sdk \<Rightarrow> bool" where
  "config_kept K \<longleftrightarrow> modes_kept K
     \<and> (\<forall>c k. wifi_station_get_config K (wifi_station_set_config K c k) = c
          \<and> wifi_get_opmode K (wifi_station_set_config K c k) = wifi_get_opmode K k)
     \<and> (\<forall>c k. wifi_station_get_config K (wifi_station_set_config_current K c k) = c
          \<and> wifi_get_opmode K (wifi_station_set_config_current K c k) = wifi_get_opmode K k)
     \<and> (\<forall>n k. wifi_get_opmode K (wifi_station_ap_number_set K n k) = wifi_get_opmode K k)
     \<and> (\<forall>k. wifi_station_get_config K (snd (wifi_station_connect K k)) = wifi_station_get_config K k)
     \<and> (\<forall>n k. wifi_station_get_config K (wifi_set_channel K n k) = wifi_station_get_config K k
          \<and> wifi_get_opmode K (wifi_set_channel K n k) = wifi_get_opmode K k)
     \<and> (\<forall>k. wifi_station_get_config K (wifi_station_dhcpc_start K k) = wifi_station_get_config K k
          \<and> wifi_get_opmode K (wifi_station_dhcpc_start K k) = wifi_get_opmode K k)
     \<and> (\<forall>m k. wifi_station_get_config K (snd (wifi_set_opmode K m k)) = wifi_station_get_config K k)
     \<and> (\<forall>m k. wifi_station_get_config K (snd (wifi_set_opmode_current K m k)) = wifi_station_get_config K k)"

definition saved :: "'k sdk \<Rightarrow> 'k wifi \<Rightarrow> station_config" where
  "saved K s = wifi_station_get_config K (sdk_state s)"

lemma sta_connect_keeps:
  assumes "config_kept K"
  shows "saved K (sta_connect K connect ch s) = saved K s" and "getMode K (sta_connect K connect ch s) = getMode K s"
  using assms by (auto simp: config_kept_def modes_kept_def sta_connect_def saved_def getMode_def Let_def)

lemma store_config_keeps:
  assumes "config_kept K"
  shows "saved K (store_config K c s) = c" and "getMode K (store_config K c s) = getMode K s"
  using assms by (auto simp: config_kept_def store_config_def saved_def getMode_def)

lemma enableSTA_on: "getMode K s AND WIFI_STA \<noteq> 0 \<Longrightarrow> enableSTA K True s = (True, s)"
  by (simp add: enableSTA_def Let_def)

lemma enableSTA_keeps:
  assumes "config_kept K" and "fst (enableSTA K True s)"
  shows "saved K (snd (enableSTA K True s)) = saved K s" and "getMode K (snd (enableSTA K True s)) AND WIFI_STA \<noteq> 0"
proof -
  have m: "modes_kept K" using assms(1) by (simp add: config_kept_def)
  show "saved K (snd (enableSTA K True s)) = saved K s"
    using assms(1) by (auto simp: enableSTA_def wifi_mode_def Let_def saved_def config_kept_def)
  show "getMode K (snd (enableSTA K True s)) AND WIFI_STA \<noteq> 0"
  proof (cases "getMode K s AND WIFI_STA = 0")
    case True
    then obtain t where "wifi_mode K (getMode K s OR WIFI_STA) s = (True, t)" "snd (enableSTA K True s) = t"
      using assms(2) by (cases "wifi_mode K (getMode K s OR WIFI_STA) s") (auto simp: enableSTA_def Let_def)
    with wifi_mode_set(1) [OF m] show ?thesis by (simp add: WIFI_STA_def)
  qed (simp add: enableSTA_on)
qed

text \<open>The arrays of a configuration have 32 and 64 characters and 6 bytes.\<close>

definition config_shape :: "station_config \<Rightarrow> bool" where
  "config_shape c \<longleftrightarrow> length (c_ssid c) = 32 \<and> length (c_password c) = 64 \<and> length (c_bssid c) = 6"

definition credentials :: "string \<Rightarrow> string option \<Rightarrow> bool" where
  "credentials ssid pass \<longleftrightarrow> ssid \<noteq> [] \<and> length ssid \<le> 31 \<and> CHR 0x00 \<notin> set ssid
     \<and> (\<forall>p. pass = Some p \<longrightarrow> length p \<le> 64 \<and> CHR 0x00 \<notin> set p)"

lemma fill_config_fields:
  assumes "config_shape stack" and "credentials ssid pass" and "\<forall>b. bssid = Some b \<longrightarrow> length b = 6"
  obtains c x where "fill_config stack ssid pass bssid = Some c" "config_shape c" "c_ssid c = ssid @ CHR 0x00 # x"
    "\<forall>p. pass = Some p \<longrightarrow> length p < 64 \<longrightarrow> (\<exists>y. c_password c = p @ CHR 0x00 # y)"
    "pass = None \<longrightarrow> (\<exists>y. c_password c = CHR 0x00 # y)"
    "\<forall>p. pass = Some p \<longrightarrow> length p = 64 \<longrightarrow> c_password c = p"
    "bssid_set c = (bssid \<noteq> None)" "\<forall>b. bssid = Some b \<longrightarrow> c_bssid c = b"
proof (cases "fill_config stack ssid pass bssid")
  case None
  with assms show ?thesis
    by (auto simp: fill_config_def strcpy_to_def config_shape_def credentials_def split: option.splits if_splits)
next
  case (Some c)
  with assms show ?thesis
    by (intro that [OF Some, of "drop (length ssid + 1) (c_ssid stack)"])
       (auto simp: fill_config_def strcpy_to_def config_shape_def credentials_def split: option.splits if_splits)
qed

lemma same_config:
  assumes "config_shape c" and "CHR 0x00 \<in> set (c_ssid c)"
  shows "sta_config_equal c c = (if CHR 0x00 \<in> set (c_password c) then Some True else None)"
proof -
  from assms(2) obtain s x where "c_ssid c = s @ CHR 0x00 # x" "CHR 0x00 \<notin> set s" by (rule terminatedE)
  then have s: "strcmp_eq (c_ssid c) (c_ssid c) = Some True" by (simp add: strcmp_terminated)
  show ?thesis
  proof (cases "CHR 0x00 \<in> set (c_password c)")
    case True
    then obtain p y where "c_password c = p @ CHR 0x00 # y" "CHR 0x00 \<notin> set p" by (rule terminatedE)
    then show ?thesis using s by (simp add: sta_config_equal_def strcmp_terminated)
  qed (use s in \<open>simp add: sta_config_equal_def strcmp_same_unterminated\<close>)
qed

lemma configs_compared:
  assumes "CHR 0x00 \<in> set (c_ssid a)" and "CHR 0x00 \<in> set (c_password a)" and "CHR 0x00 \<in> set (c_ssid b)"
    and "length (c_password a) \<le> length (c_password b)"
  shows "sta_config_equal a b \<noteq> None"
    and "sta_config_equal a b = Some True \<Longrightarrow> cstr (c_ssid a) = cstr (c_ssid b) \<and> cstr (c_password a) = cstr (c_password b)
      \<and> bssid_set a = bssid_set b \<and> (bssid_set a \<longrightarrow> take 6 (c_bssid a) = take 6 (c_bssid b))
      \<and> CHR 0x00 \<in> set (c_password b)"
proof -
  obtain s x where s: "c_ssid a = s @ CHR 0x00 # x" "CHR 0x00 \<notin> set s" using assms(1) by (rule terminatedE)
  obtain t y where t: "c_ssid b = t @ CHR 0x00 # y" "CHR 0x00 \<notin> set t" using assms(3) by (rule terminatedE)
  obtain p z where p: "c_password a = p @ CHR 0x00 # z" "CHR 0x00 \<notin> set p" using assms(2) by (rule terminatedE)
  have "\<exists>r. strcmp_eq (c_password a) (c_password b) = Some r
      \<and> (r \<longrightarrow> cstr (c_password a) = cstr (c_password b) \<and> CHR 0x00 \<in> set (c_password b))"
  proof (cases "CHR 0x00 \<in> set (c_password b)")
    case True
    then obtain q w where "c_password b = q @ CHR 0x00 # w" "CHR 0x00 \<notin> set q" by (rule terminatedE)
    then show ?thesis using p by (simp add: strcmp_terminated)
  qed (use strcmp_unterminated assms(2,4) in blast)
  then show "sta_config_equal a b \<noteq> None"
    and "sta_config_equal a b = Some True \<Longrightarrow> cstr (c_ssid a) = cstr (c_ssid b) \<and> cstr (c_password a) = cstr (c_password b)
      \<and> bssid_set a = bssid_set b \<and> (bssid_set a \<longrightarrow> take 6 (c_bssid a) = take 6 (c_bssid b))
      \<and> CHR 0x00 \<in> set (c_password b)"
    using s t by (auto simp: sta_config_equal_def strcmp_terminated split: if_splits)
qed

lemma sta_begin_run:
  assumes "config_kept K" and "fst (enableSTA K True s)" and "credentials ssid pass"
    and "fill_config stack ssid pass bssid = Some c"
  shows "sta_begin K stack (Some ssid) pass ch bssid connect s =
    Option.bind (sta_config_equal (saved K s) c) (\<lambda>same.
      let t = sta_connect K connect ch (if same then snd (enableSTA K True s) else store_config K c (snd (enableSTA K True s)))
      in Some (wifi_status K t, t))"
  using assms(2-4) enableSTA_keeps(1) [OF assms(1,2)]
  by (auto simp: sta_begin_def credentials_def saved_def split_beta Let_def)

text \<open>After \<open>begin\<close> the station keeps a configuration that equals the one of the call.\<close>

lemma sta_begin_saved_config:
  assumes K: "config_kept K" and on: "fst (enableSTA K True s)" and cr: "credentials ssid pass"
    and c: "fill_config stack ssid pass bssid = Some c" and same: "sta_config_equal (saved K s) c = Some same"
  obtains t where "sta_begin K stack (Some ssid) pass ch bssid connect s = Some (wifi_status K t, t)"
    "saved K t = (if same then saved K s else c)" "enableSTA K True t = (True, t)"
proof -
  let ?s = "snd (enableSTA K True s)"
  let ?t = "sta_connect K connect ch (if same then ?s else store_config K c ?s)"
  note kept = sta_connect_keeps [OF K] store_config_keeps [OF K] enableSTA_keeps [OF K on]
  show ?thesis
  proof (rule that)
    show "sta_begin K stack (Some ssid) pass ch bssid connect s = Some (wifi_status K ?t, ?t)"
      using sta_begin_run [OF K on cr c] same by (simp add: Let_def)
    show "saved K ?t = (if same then saved K s else c)" using kept by simp
    show "enableSTA K True ?t = (True, ?t)" using kept by (intro enableSTA_on) simp
  qed
qed

section \<open>Properties\<close>

text \<open>C36: \<open>begin\<close> with a name of at most 31 characters and a passphrase of at most 63 returns, and the station's
  name, passphrase and access point are then those of the call. A second call with the same arguments
  finds the configuration unchanged: it connects again and stores nothing in the flash.\<close>

theorem begin_configures:
  assumes "config_kept K" and "fst (enableSTA K True s)" and "config_shape stack"
    and "credentials ssid (Some pass)" and "length pass < 64" and "\<forall>b. bssid = Some b \<longrightarrow> length b = 6"
    and "config_shape (saved K s)" and "CHR 0x00 \<in> set (c_ssid (saved K s))" and "CHR 0x00 \<in> set (c_password (saved K s))"
  shows "\<exists>st t. sta_begin K stack (Some ssid) (Some pass) ch bssid connect s = Some (st, t)
    \<and> sta_SSID K t = Some ssid \<and> sta_psk K t = Some pass \<and> (\<forall>b. bssid = Some b \<longrightarrow> sta_BSSID K t = b)
    \<and> sta_begin K stack (Some ssid) (Some pass) ch bssid connect t
        = Some (wifi_status K (sta_connect K connect ch t), sta_connect K connect ch t)"
proof -
  obtain c x where c: "fill_config stack ssid (Some pass) bssid = Some c" "config_shape c" "c_ssid c = ssid @ CHR 0x00 # x"
    "\<forall>p. Some pass = Some p \<longrightarrow> length p < 64 \<longrightarrow> (\<exists>y. c_password c = p @ CHR 0x00 # y)"
    "bssid_set c = (bssid \<noteq> None)" "\<forall>b. bssid = Some b \<longrightarrow> c_bssid c = b"
    by (rule fill_config_fields [OF assms(3,4,6)])
  obtain y where y: "c_password c = pass @ CHR 0x00 # y" using c(4) assms(5) by blast
  have nul: "CHR 0x00 \<notin> set ssid" "CHR 0x00 \<notin> set pass" using assms(4) by (auto simp: credentials_def)
  have cmp: "CHR 0x00 \<in> set (c_ssid c)" "length (c_password (saved K s)) \<le> length (c_password c)"
    using c(2,3) assms(7) by (simp_all add: config_shape_def)
  obtain same where same: "sta_config_equal (saved K s) c = Some same"
    using configs_compared(1) [OF assms(8,9) cmp] by blast
  obtain t where t: "sta_begin K stack (Some ssid) (Some pass) ch bssid connect s = Some (wifi_status K t, t)"
    "saved K t = (if same then saved K s else c)" "enableSTA K True t = (True, t)"
    by (rule sta_begin_saved_config [OF assms(1,2,4) c(1) same, where ch = ch and connect = connect])
  have own: "cstr (c_ssid c) = Some ssid" "cstr (c_password c) = Some pass" "sta_config_equal c c = Some True"
    using same_config [OF c(2) cmp(1)] c(3) y nul by simp_all
  have kept: "cstr (c_ssid (saved K t)) = Some ssid \<and> cstr (c_password (saved K t)) = Some pass
    \<and> (\<forall>b. bssid = Some b \<longrightarrow> c_bssid (saved K t) = b) \<and> sta_config_equal (saved K t) c = Some True"
  proof (cases same)
    case True
    with configs_compared(2) [OF assms(8,9) cmp] same own(1,2) c(5)
    have "cstr (c_ssid (saved K s)) = Some ssid" "cstr (c_password (saved K s)) = Some pass"
      "bssid \<noteq> None \<longrightarrow> take 6 (c_bssid (saved K s)) = take 6 (c_bssid c)" by auto
    moreover have "take 6 (c_bssid (saved K s)) = c_bssid (saved K s)" "take 6 (c_bssid c) = c_bssid c"
      using assms(7) c(2) by (simp_all add: config_shape_def)
    ultimately show ?thesis using True t(2) same c(6) by auto
  qed (use t(2) own c(6) in simp)
  have "sta_begin K stack (Some ssid) (Some pass) ch bssid connect t
      = Some (wifi_status K (sta_connect K connect ch t), sta_connect K connect ch t)"
    using sta_begin_run [OF assms(1) _ assms(4) c(1), of t] t(3) kept by (simp add: Let_def)
  then show ?thesis using t(1) kept by (auto simp: sta_SSID_def sta_psk_def sta_BSSID_def saved_def)
qed

text \<open>A key of 64 characters fills the array of the password without a zero. After \<open>begin\<close> with such a key
  \<open>psk\<close> reads behind the array, and so does the comparison of a second \<open>begin\<close> with the same arguments.\<close>

theorem key_unterminated:
  assumes "config_kept K" and "fst (enableSTA K True s)" and "config_shape stack"
    and "credentials ssid (Some key)" and "length key = 64" and "\<forall>b. bssid = Some b \<longrightarrow> length b = 6"
    and "config_shape (saved K s)" and "CHR 0x00 \<in> set (c_ssid (saved K s))" and "CHR 0x00 \<in> set (c_password (saved K s))"
  shows "\<exists>st t. sta_begin K stack (Some ssid) (Some key) ch bssid connect s = Some (st, t)
    \<and> sta_SSID K t = Some ssid \<and> sta_psk K t = None
    \<and> sta_begin K stack (Some ssid) (Some key) ch bssid connect t = None"
proof -
  obtain c x where c: "fill_config stack ssid (Some key) bssid = Some c" "config_shape c" "c_ssid c = ssid @ CHR 0x00 # x"
    "\<forall>p. Some key = Some p \<longrightarrow> length p = 64 \<longrightarrow> c_password c = p"
    by (rule fill_config_fields [OF assms(3,4,6)])
  have key: "c_password c = key" using c(4) assms(5) by blast
  have nul: "CHR 0x00 \<notin> set ssid" "CHR 0x00 \<notin> set key" using assms(4) by (auto simp: credentials_def)
  have cmp: "CHR 0x00 \<in> set (c_ssid c)" "length (c_password (saved K s)) \<le> length (c_password c)"
    using c(2,3) assms(7) by (simp_all add: config_shape_def)
  obtain same where same: "sta_config_equal (saved K s) c = Some same"
    using configs_compared(1) [OF assms(8,9) cmp] by blast
  with configs_compared(2) [OF assms(8,9) cmp] nul key have "\<not> same" by auto
  obtain t where t: "sta_begin K stack (Some ssid) (Some key) ch bssid connect s = Some (wifi_status K t, t)"
    "saved K t = (if same then saved K s else c)" "enableSTA K True t = (True, t)"
    by (rule sta_begin_saved_config [OF assms(1,2,4) c(1) same, where ch = ch and connect = connect])
  have tc: "saved K t = c" using t(2) \<open>\<not> same\<close> by simp
  have "sta_config_equal c c = None" using same_config [OF c(2) cmp(1)] nul key by simp
  then have "sta_begin K stack (Some ssid) (Some key) ch bssid connect t = None"
    using sta_begin_run [OF assms(1) _ assms(4) c(1), of t] t(3) tc by simp
  then show ?thesis using t(1) tc c(3) key nul by (auto simp: sta_SSID_def sta_psk_def saved_def cstr_unterminated)
qed

text \<open>Diagnosis prints the name and the key in clear, and reads behind the key when it has 64 characters.\<close>

lemma printDiag_shows_key:
  assumes "arr_get [''NULL'', ''STA'', ''AP'', ''STA+AP''] (unat (wifi_get_opmode K (sdk_state s))) \<noteq> None"
    and "arr_get [[], ''B'', ''G'', ''N''] (wifi_get_phy_mode K (sdk_state s)) \<noteq> None"
    and "sta_SSID K s = Some name"
  shows "case sta_psk K s of None \<Rightarrow> printDiag K s = None
     | Some key \<Rightarrow> \<exists>u v. printDiag K s = Some (u @ ''SSID ('' @ decimal (length name) @ ''): '' @ println name
         @ ''Passphrase ('' @ decimal (length key) @ ''): '' @ println key @ v)"
proof -
  obtain m p where m: "arr_get [''NULL'', ''STA'', ''AP'', ''STA+AP''] (unat (wifi_get_opmode K (sdk_state s))) = Some m"
    "arr_get [[], ''B'', ''G'', ''N''] (wifi_get_phy_mode K (sdk_state s)) = Some p" using assms(1,2) by blast
  let ?k = "sdk_state s"
  let ?u = "concat [''Mode: '', println m, ''PHY mode: '', println p, ''Channel: '', println (decimal (wifi_get_channel K ?k)),
    ''AP id: '', println (decimal (wifi_station_get_current_ap_id K ?k)),
    ''Status: '', println (decimal (station_status_number (wifi_station_get_connect_status K ?k))),
    ''Auto connect: '', println (decimal (wifi_station_get_auto_connect K ?k))]"
  let ?v = "''BSSID set: '' @ println (decimal (if bssid_set (wifi_station_get_config K ?k) then 1 else 0))"
  have "printDiag K s = Some (?u @ ''SSID ('' @ decimal (length name) @ ''): '' @ println name
      @ ''Passphrase ('' @ decimal (length key) @ ''): '' @ println key @ ?v)" if "sta_psk K s = Some key" for key
    using m assms(3) that by (simp add: printDiag_def sta_SSID_def sta_psk_def Let_def)
  moreover have "printDiag K s = None" if "sta_psk K s = None"
    using m assms(3) that by (simp add: printDiag_def sta_SSID_def sta_psk_def Let_def)
  ultimately show ?thesis by (cases "sta_psk K s") (simp_all only: option.case, blast)
qed

text \<open>An SDK that keeps the configuration, the mode and the result of the last scan.\<close>

record chip =
  k_mode :: u8
  k_conf :: station_config
  k_status :: station_status_t

definition demo_sdk :: "chip sdk" where
  "demo_sdk = \<lparr>
     wifi_get_opmode = k_mode,
     wifi_set_opmode = (\<lambda>m k. (True, k\<lparr>k_mode := m\<rparr>)),
     wifi_set_opmode_current = (\<lambda>m k. (True, k\<lparr>k_mode := m\<rparr>)),
     wifi_station_get_config = k_conf,
     wifi_station_set_config = (\<lambda>c k. k\<lparr>k_conf := c\<rparr>),
     wifi_station_set_config_current = (\<lambda>c k. k\<lparr>k_conf := c\<rparr>),
     wifi_station_ap_number_set = (\<lambda>_ k. k),
     wifi_station_connect = (\<lambda>k. (True, k\<lparr>k_status := STATION_GOT_IP\<rparr>)),
     wifi_station_disconnect = (\<lambda>k. (True, k\<lparr>k_status := STATION_IDLE\<rparr>)),
     wifi_station_get_connect_status = k_status,
     wifi_station_dhcpc_start = id,
     wifi_station_dhcpc_stop = id,
     wifi_station_set_auto_connect = (\<lambda>_ k. (True, k)),
     wifi_station_get_current_ap_id = (\<lambda>_. 0),
     wifi_station_get_auto_connect = (\<lambda>_. 1),
     wifi_station_set_reconnect_policy = (\<lambda>_ k. (True, k)),
     wifi_station_get_hostname = (\<lambda>_. ''esp''),
     wifi_station_set_hostname = (\<lambda>_ k. (True, k)),
     wifi_station_get_rssi = (\<lambda>_. - 60),
     wifi_station_scan = (\<lambda>_ k. (True, k)),
     wifi_get_channel = (\<lambda>_. 1),
     wifi_set_channel = (\<lambda>_ k. k),
     wifi_get_ip_info = (\<lambda>_ _. None),
     wifi_set_ip_info = (\<lambda>_ _ k. (True, k)),
     wifi_get_macaddr = (\<lambda>_ _. replicate 6 0),
     wifi_set_sleep_type = (\<lambda>_ k. (True, k)),
     wifi_get_sleep_type = (\<lambda>_. 2),
     wifi_set_phy_mode = (\<lambda>_ k. (True, k)),
     wifi_get_phy_mode = (\<lambda>_. 3),
     system_phy_set_max_tpw = (\<lambda>_ k. k),
     wifi_fpm_set_sleep_type = id,
     wifi_fpm_open = id,
     wifi_fpm_do_sleep = (\<lambda>_ k. (0, k)),
     wifi_fpm_do_wakeup = id,
     wifi_fpm_close = id,
     wifi_softap_get_config = (\<lambda>_. \<lparr>ap_ssid = ''ESP'' @ replicate 29 (CHR 0x00), ap_password = replicate 64 (CHR 0x00),
       ap_ssid_len = 3, ap_channel = 1, ap_open = True, ap_ssid_hidden = 0, ap_max_connection = 4,
       ap_beacon_interval = 100\<rparr>),
     wifi_softap_set_config = (\<lambda>_ k. (True, k)),
     wifi_softap_set_config_current = (\<lambda>_ k. (True, k)),
     wifi_softap_dhcps_started = (\<lambda>_. True),
     wifi_softap_dhcps_start = (\<lambda>k. (True, k)),
     wifi_softap_dhcps_stop = (\<lambda>k. (True, k)),
     wifi_softap_set_dhcps_lease = (\<lambda>_ _ k. (True, k)),
     wifi_softap_set_dhcps_lease_time = (\<lambda>_ k. (True, k)),
     wifi_softap_set_dhcps_offer_router = (\<lambda>_ k. (True, k)),
     wifi_softap_get_station_num = (\<lambda>_. 0),
     wifi_wps_disable = (\<lambda>k. (True, k)),
     wifi_wps_enable = (\<lambda>k. (True, k)),
     wifi_set_wps_cb = (\<lambda>k. (True, k)),
     wifi_wps_start = (\<lambda>k. (True, k)),
     smartconfig_start = (\<lambda>k. (True, k)),
     smartconfig_stop = (\<lambda>k. (True, k)),
     dns_setserver = (\<lambda>_ _ k. k),
     dns_getserver = (\<lambda>_ _. 0),
     dns_gethostbyname = (\<lambda>_ k. ((0, 0), k)),
     parse_ip = (\<lambda>_. None),
     sdk_delay = (\<lambda>_ k. k)\<rparr>"

definition demo_config :: station_config where
  "demo_config = \<lparr>c_ssid = replicate 32 (CHR 0x00), c_password = replicate 64 (CHR 0x00), bssid_set = False,
     c_bssid = replicate 6 0\<rparr>"

definition demo_station :: "chip wifi" where
  "demo_station = wifi_init \<lparr>k_mode = WIFI_AP, k_conf = demo_config, k_status = STATION_IDLE\<rparr>"

lemma demo_sdk_kept: "modes_kept demo_sdk" "config_kept demo_sdk"
  by (auto simp: modes_kept_def config_kept_def demo_sdk_def)

lemma demo_station_shape:
  "config_shape demo_config" "saved demo_sdk demo_station = demo_config" "fst (enableSTA demo_sdk True demo_station)"
  "CHR 0x00 \<in> set (c_ssid demo_config)" "CHR 0x00 \<in> set (c_password demo_config)"
  by (simp_all add: config_shape_def demo_config_def saved_def demo_station_def wifi_init_def demo_sdk_def enableSTA_def
      getMode_def wifi_mode_def Let_def WIFI_AP_def WIFI_STA_def sdk_ask_def)

lemma begin_configures_witness:
  "\<exists>st t. sta_begin demo_sdk demo_config (Some ''home'') (Some ''secret'') 6 None True demo_station = Some (st, t)
    \<and> sta_SSID demo_sdk t = Some ''home'' \<and> sta_psk demo_sdk t = Some ''secret''"
  using begin_configures [OF demo_sdk_kept(2) demo_station_shape(3,1), of "''home''" "''secret''" None 6 True]
    demo_station_shape by (simp add: credentials_def) blast

lemma key_unterminated_witness:
  "\<exists>st t. sta_begin demo_sdk demo_config (Some ''home'') (Some (replicate 64 (CHR ''k''))) 6 None True demo_station = Some (st, t)
    \<and> sta_psk demo_sdk t = None"
  using key_unterminated [OF demo_sdk_kept(2) demo_station_shape(3,1), of "''home''" "replicate 64 (CHR ''k'')" None 6 True]
    demo_station_shape by (simp add: credentials_def) blast

lemma demo_sdk_modes [simp]:
  "wifi_get_opmode demo_sdk = k_mode" "wifi_set_opmode demo_sdk m k = (True, k\<lparr>k_mode := m\<rparr>)"
  "wifi_set_opmode_current demo_sdk m k = (True, k\<lparr>k_mode := m\<rparr>)" "wifi_fpm_do_sleep demo_sdk us k = (0, k)"
  by (simp_all add: demo_sdk_def)

lemma demo_sleep: "\<exists>t. forceSleepBegin demo_sdk us s = (True, t)" "\<exists>t. forceSleepWake demo_sdk s = (True, t)"
  by (auto simp: forceSleepBegin_def forceSleepWake_def wifi_mode_def sdk_ask_def split_beta Let_def)

lemma sleep_round_trip_witness:
  "\<exists>s1 s2. forceSleepBegin demo_sdk 0 demo_station = (True, s1) \<and> forceSleepWake demo_sdk s1 = (True, s2)
    \<and> getMode demo_sdk s2 = WIFI_AP"
proof -
  obtain s1 where s1: "forceSleepBegin demo_sdk 0 demo_station = (True, s1)" using demo_sleep(1) by blast
  obtain s2 where s2: "forceSleepWake demo_sdk s1 = (True, s2)" using demo_sleep(2) by blast
  have "getMode demo_sdk demo_station = WIFI_AP" by (simp add: getMode_def demo_station_def wifi_init_def)
  then show ?thesis using sleep_round_trip [OF demo_sdk_kept(1) s1] s1 s2 by auto
qed

end
