(* ===== verification/Wifi_Ap.thy ===== *)
theory Wifi_Ap
  imports Wifi_Sta
begin

text \<open>
  The access point (\<open>src/ESP8266WiFi/src/ESP8266WiFiAP.cpp\<close>): its configuration, its address and the
  range of its DHCP server, whose bounds are computed in single bytes.
\<close>

definition softap_config_equal :: "softap_config \<Rightarrow> softap_config \<Rightarrow> bool option" where
  "softap_config_equal lhs rhs = do {
     ssid \<leftarrow> strcmp_eq (ap_ssid lhs) (ap_ssid rhs);
     if \<not> ssid then Some False else do {
       password \<leftarrow> strcmp_eq (ap_password lhs) (ap_password rhs);
       Some (if \<not> password then False
             else if ap_channel lhs \<noteq> ap_channel rhs then False
             else if ap_ssid_hidden lhs \<noteq> ap_ssid_hidden rhs then False
             else True) } }"

text \<open>\<open>ip[3] += n\<close>: the last byte of an address, which is the highest byte of its word.\<close>

definition last_byte :: "u32 \<Rightarrow> nat" where "last_byte a = unat a div 2 ^ 24"

definition add_last_byte :: "nat \<Rightarrow> u32 \<Rightarrow> u32" where
  "add_last_byte n a = of_nat (unat a mod 2 ^ 24 + (last_byte a + n) mod 256 * 2 ^ 24)"

definition lease_range :: "u32 \<Rightarrow> u32 \<times> u32" where
  "lease_range local_ip = (let ip = add_last_byte 99 local_ip in (ip, add_last_byte 100 ip))"

definition softAPConfig :: "'k sdk \<Rightarrow> u32 \<Rightarrow> u32 \<Rightarrow> u32 \<Rightarrow> 'k wifi \<Rightarrow> bool \<times> 'k wifi" where
  "softAPConfig K local_ip gateway subnet s =
     (let (ok, s) = enableAP K True s in
      if \<not> ok then (False, s)
      else
        (let info = \<lparr>ip_addr = local_ip, ip_gw = gateway, ip_netmask = subnet\<rparr>;
             s = snd (sdk_ask (wifi_softap_dhcps_stop K) s);
             (r1, s) = sdk_ask (wifi_set_ip_info K SOFTAP_IF info) s;
             (lo, hi) = lease_range local_ip;
             (r2, s) = sdk_ask (wifi_softap_set_dhcps_lease K lo hi) s;
             (r3, s) = sdk_ask (wifi_softap_set_dhcps_lease_time K 720) s;
             (r4, s) = sdk_ask (wifi_softap_set_dhcps_offer_router K True) s;
             (r5, s) = sdk_ask (wifi_softap_dhcps_start K) s;
             r6 = (case wifi_get_ip_info K SOFTAP_IF (sdk_state s) of
                     None \<Rightarrow> False
                   | Some i \<Rightarrow> if ip_addr i = 0 then False else if local_ip \<noteq> ip_addr i then False else True)
         in (r1 \<and> r2 \<and> r3 \<and> r4 \<and> r5 \<and> r6, s)))"

text \<open>The configuration filled in by \<open>softAP\<close>; \<open>stack\<close> is the uninitialised local.\<close>

definition fill_ap :: "softap_config \<Rightarrow> string \<Rightarrow> string option \<Rightarrow> int \<Rightarrow> int \<Rightarrow> softap_config option" where
  "fill_ap stack ssid passphrase ch hidden = do {
     a \<leftarrow> strcpy_to ssid (ap_ssid stack);
     let c = stack\<lparr>ap_ssid := a, ap_ssid_len := of_nat (length ssid), ap_channel := of_int ch,
               ap_ssid_hidden := of_int hidden, ap_max_connection := 4, ap_beacon_interval := 100\<rparr>;
     if passphrase = None \<or> passphrase = Some [] then do {
       p \<leftarrow> strcpy_to [] (ap_password stack);
       Some (c\<lparr>ap_open := True, ap_password := p\<rparr>) }
     else do {
       p \<leftarrow> strcpy_to (the passphrase) (ap_password stack);
       Some (c\<lparr>ap_open := False, ap_password := p\<rparr>) } }"

text \<open>The part of \<open>softAP\<close> after the configuration: the DHCP server and a check of the address.\<close>

definition softAP_address :: "'k sdk \<Rightarrow> 'k wifi \<Rightarrow> bool \<times> 'k wifi" where
  "softAP_address K s =
     (let (ret, s) = (if \<not> wifi_softap_dhcps_started K (sdk_state s) then sdk_ask (wifi_softap_dhcps_start K) s
                      else (True, s))
      in case wifi_get_ip_info K SOFTAP_IF (sdk_state s) of
           None \<Rightarrow> (False, s)
         | Some i \<Rightarrow> if ip_addr i = 0 then softAPConfig K 0x01F4A8C0 0x01F4A8C0 0x00FFFFFF s else (ret, s))"

definition softAP ::
    "'k sdk \<Rightarrow> softap_config \<Rightarrow> string option \<Rightarrow> string option \<Rightarrow> int \<Rightarrow> int \<Rightarrow> 'k wifi \<Rightarrow> (bool \<times> 'k wifi) option" where
  "softAP K stack ssid passphrase ch hidden s =
     (let (ok, s) = enableAP K True s in
      if \<not> ok then Some (False, s)
      else case ssid of
        None \<Rightarrow> Some (False, s)
      | Some ssid \<Rightarrow>
          if length ssid = 0 \<or> length ssid > 31 then Some (False, s)
          else if passphrase \<noteq> None \<and> 0 < length (the passphrase)
                  \<and> (length (the passphrase) > 63 \<or> length (the passphrase) < 8) then Some (False, s)
          else do {
            conf \<leftarrow> fill_ap stack ssid passphrase ch hidden;
            same \<leftarrow> softap_config_equal conf (wifi_softap_get_config K (sdk_state s));
            let (ret, s) = (if same then (True, s)
                 else if persistent s then sdk_ask (wifi_softap_set_config K conf) s
                 else sdk_ask (wifi_softap_set_config_current K conf) s);
            Some (if \<not> ret then (False, s) else softAP_address K s) })"

definition softAPdisconnect :: "'k sdk \<Rightarrow> softap_config \<Rightarrow> bool \<Rightarrow> 'k wifi \<Rightarrow> bool \<times> 'k wifi" where
  "softAPdisconnect K stack wifioff s =
     (let conf = stack\<lparr>ap_ssid := (ap_ssid stack)[0 := CHR 0x00], ap_password := (ap_password stack)[0 := CHR 0x00]\<rparr>;
          (ret, s) = (if persistent s then sdk_ask (wifi_softap_set_config K conf) s
                      else sdk_ask (wifi_softap_set_config_current K conf) s)
      in if wifioff then enableAP K False s else (ret, s))"

definition softAPgetStationNum :: "'k sdk \<Rightarrow> 'k wifi \<Rightarrow> nat" where
  "softAPgetStationNum K s = wifi_softap_get_station_num K (sdk_state s)"

definition softAPIP :: "'k sdk \<Rightarrow> ip_info \<Rightarrow> 'k wifi \<Rightarrow> u32" where
  "softAPIP K stack s = ip_addr (case wifi_get_ip_info K SOFTAP_IF (sdk_state s) of None \<Rightarrow> stack | Some i \<Rightarrow> i)"

definition softAPmacAddress :: "'k sdk \<Rightarrow> 'k wifi \<Rightarrow> u8 list" where
  "softAPmacAddress K s = wifi_get_macaddr K SOFTAP_IF (sdk_state s)"

definition softAPmacAddress_str :: "'k sdk \<Rightarrow> 'k wifi \<Rightarrow> string" where
  "softAPmacAddress_str K s = mac_string (wifi_get_macaddr K SOFTAP_IF (sdk_state s))"

section \<open>The range of the DHCP server\<close>

lemma add_last_byte_parts:
  "last_byte (add_last_byte n a) = (last_byte a + n) mod 256"
  "unat (add_last_byte n a) mod 2 ^ 24 = unat a mod 2 ^ 24"
proof -
  let ?l = "unat a mod 2 ^ 24" and ?h = "(last_byte a + n) mod 256"
  have "?l < 2 ^ 24" by simp
  moreover have "?h * 2 ^ 24 \<le> 255 * 2 ^ 24" using mod_less_divisor [of 256 "last_byte a + n"] by (intro mult_le_mono1) linarith
  ultimately have "?l + ?h * 2 ^ 24 < 2 ^ 32" by simp
  moreover have "unat (of_nat x :: u32) = x" if "x < 2 ^ 32" for x
    using that by (simp add: unat_of_nat take_bit_nat_eq_self)
  ultimately have u: "unat (add_last_byte n a) = ?l + ?h * 2 ^ 24" unfolding add_last_byte_def by blast
  show "last_byte (add_last_byte n a) = ?h" using u by (simp add: last_byte_def)
  show "unat (add_last_byte n a) mod 2 ^ 24 = ?l" using u by simp
qed

text \<open>The range of addresses that \<open>softAPConfig\<close> leases lies in the network of the access point's first three
  bytes; its bounds are the last byte plus 99 and plus 199, computed in a byte. They are in order exactly
  when the last byte is at most 56 or at least 157, and then the access point's own address is
  outside the range; for a last byte from 57 to 156 the range ends before it begins.\<close>

theorem lease_range_wraps:
  "(case lease_range local_ip of (lo, hi) \<Rightarrow>
      unat lo mod 2 ^ 24 = unat local_ip mod 2 ^ 24 \<and> unat hi mod 2 ^ 24 = unat local_ip mod 2 ^ 24
    \<and> (last_byte lo \<le> last_byte hi \<longleftrightarrow> last_byte local_ip \<le> 56 \<or> 157 \<le> last_byte local_ip)
    \<and> (last_byte lo \<le> last_byte hi \<longrightarrow> \<not> (last_byte lo \<le> last_byte local_ip \<and> last_byte local_ip \<le> last_byte hi)))"
proof -
  obtain lo hi where r: "lease_range local_ip = (lo, hi)" by (cases "lease_range local_ip")
  then have hi: "hi = add_last_byte 100 (add_last_byte 99 local_ip)" and lo: "lo = add_last_byte 99 local_ip"
    by (auto simp: lease_range_def Let_def)
  let ?b = "last_byte local_ip"
  have b: "?b < 256" unfolding last_byte_def by (rule less_mult_imp_div_less, rule less_le_trans [OF unsigned_less]) simp
  have "last_byte lo = (?b + 99) mod 256" "last_byte hi = (?b + 199) mod 256"
    by (simp_all add: lo hi add_last_byte_parts mod_simps add.commute)
  moreover consider "?b \<le> 56" | "57 \<le> ?b" "?b \<le> 156" | "157 \<le> ?b" by linarith
  then have "(?b + 99) mod 256 = (if ?b \<le> 156 then ?b + 99 else ?b - 157)
      \<and> (?b + 199) mod 256 = (if ?b \<le> 56 then ?b + 199 else ?b - 57)"
    using b by cases (simp_all add: mod_if)
  moreover have "unat lo mod 2 ^ 24 = unat local_ip mod 2 ^ 24" "unat hi mod 2 ^ 24 = unat local_ip mod 2 ^ 24"
    unfolding lo hi add_last_byte_parts by (rule refl)+
  ultimately show ?thesis using b unfolding r prod.case by (simp split: if_splits) linarith
qed

lemma lease_range_wraps_witness: "lease_range 0x4001A8C0 = (0xA301A8C0, 0x0701A8C0)
    \<and> \<not> last_byte 0xA301A8C0 \<le> last_byte 0x0701A8C0"
  using lease_range_wraps [of "0x4001A8C0"] by (simp add: lease_range_def add_last_byte_def last_byte_def)

end
