(* ===== verification/Wifi_Scan.thy ===== *)
theory Wifi_Scan
  imports Wifi_Sta
begin

text \<open>
  Scanning for networks (\<open>src/ESP8266WiFi/src/ESP8266WiFiScan.cpp\<close>) and the choice of the best of
  several known networks (\<open>ESP8266WiFiMulti.cpp\<close>). The result of a scan is the array of the last
  one, or null; an index behind the array is \<open>None\<close>. A pointer to a passphrase is null, a text, or
  an uninitialised word, whose use is \<open>None\<close>.
\<close>

section \<open>Scanning\<close>

definition to_i8 :: "nat \<Rightarrow> int" where
  "to_i8 n = (let m = int (n mod 256) in if m < 128 then m else m - 256)"

definition WIFI_SCAN_RUNNING :: int where "WIFI_SCAN_RUNNING = - 1"
definition WIFI_SCAN_FAILED :: int where "WIFI_SCAN_FAILED = - 2"

definition scanComplete :: "'k wifi \<Rightarrow> int" where
  "scanComplete s = (if scanStarted s then WIFI_SCAN_RUNNING
     else if scanComplete_flag s then to_i8 (scanCount s) else WIFI_SCAN_FAILED)"

definition scanDelete :: "'k wifi \<Rightarrow> 'k wifi" where
  "scanDelete s = (let s = (if scanResult s \<noteq> None then s\<lparr>scanResult := None, scanCount := 0\<rparr> else s)
     in s\<lparr>scanComplete_flag := False\<rparr>)"

text \<open>The callback: the SDK's list, \<open>None\<close> for a status other than \<open>OK\<close>, is copied into an array.\<close>

definition scanDone :: "bss_info list option \<Rightarrow> 'k wifi \<Rightarrow> 'k wifi" where
  "scanDone result s =
     (let s = (case result of
                 None \<Rightarrow> s\<lparr>scanCount := 0, scanResult := None\<rparr>
               | Some l \<Rightarrow> s\<lparr>scanCount := length l, scanResult := (if l = [] then None else Some l)\<rparr>)
      in s\<lparr>scanStarted := False, scanComplete_flag := True\<rparr>)"

text \<open>\<open>yielded\<close> is what happens while a synchronous scan waits in \<open>esp_yield\<close>.\<close>

definition scanNetworks ::
    "'k sdk \<Rightarrow> station_config \<Rightarrow> ('k wifi \<Rightarrow> 'k wifi) \<Rightarrow> bool \<Rightarrow> bool \<Rightarrow> 'k wifi \<Rightarrow> int \<times> 'k wifi" where
  "scanNetworks K stack yielded async show_hidden s =
     (if scanStarted s then (WIFI_SCAN_RUNNING, s)
      else
        (let s = s\<lparr>scanAsync := async\<rparr>;
             s = snd (enableSTA K True s);
             status = wifi_station_get_connect_status K (sdk_state s);
             s = (if status \<noteq> STATION_GOT_IP \<and> status \<noteq> STATION_IDLE then snd (sta_disconnect K stack False s) else s);
             s = scanDelete s;
             (ok, s) = sdk_ask (wifi_station_scan K show_hidden) s
         in if ok then
              (let s = s\<lparr>scanComplete_flag := False, scanStarted := True\<rparr> in
               if scanAsync s then (WIFI_SCAN_RUNNING, s)
               else (let s = yielded s in (to_i8 (scanCount s), s)))
            else (WIFI_SCAN_FAILED, s)))"

text \<open>\<open>_getScanInfoByIndex\<close> and a read through its result: null, an element, or beyond the array.\<close>

definition scan_info :: "nat \<Rightarrow> 'k wifi \<Rightarrow> bss_info option option" where
  "scan_info i s = (case scanResult s of
     None \<Rightarrow> Some None
   | Some l \<Rightarrow> if i > scanCount s then Some None else if i < length l then Some (Some (l ! i)) else None)"

definition on_info :: "'a \<Rightarrow> (bss_info \<Rightarrow> 'a option) \<Rightarrow> nat \<Rightarrow> 'k wifi \<Rightarrow> 'a option" where
  "on_info dflt f i s = Option.bind (scan_info i s) (\<lambda>it. case it of None \<Rightarrow> Some dflt | Some b \<Rightarrow> f b)"

definition ENC_TYPE_NONE :: nat where "ENC_TYPE_NONE = 7"

definition enc_type :: "auth_mode \<Rightarrow> nat" where
  "enc_type a = (case a of AUTH_OPEN \<Rightarrow> ENC_TYPE_NONE | AUTH_WEP \<Rightarrow> 5 | AUTH_WPA_PSK \<Rightarrow> 2
     | AUTH_WPA2_PSK \<Rightarrow> 4 | AUTH_WPA_WPA2_PSK \<Rightarrow> 8 | AUTH_MAX \<Rightarrow> 255)"

definition encryptionType :: "nat \<Rightarrow> 'k wifi \<Rightarrow> nat option" where
  "encryptionType = on_info 255 (\<lambda>b. Some (enc_type (b_authmode b)))"

definition scan_SSID :: "nat \<Rightarrow> 'k wifi \<Rightarrow> string option" where
  "scan_SSID = on_info [] (\<lambda>b. cstr (b_ssid b))"
definition scan_RSSI :: "nat \<Rightarrow> 'k wifi \<Rightarrow> int option" where
  "scan_RSSI = on_info 0 (\<lambda>b. Some (b_rssi b))"
definition scan_BSSID :: "nat \<Rightarrow> 'k wifi \<Rightarrow> u8 list option option" where
  "scan_BSSID = on_info None (\<lambda>b. Some (Some (b_bssid b)))"
definition scan_BSSIDstr :: "nat \<Rightarrow> 'k wifi \<Rightarrow> string option" where
  "scan_BSSIDstr = on_info [] (\<lambda>b. Some (mac_string (b_bssid b)))"
definition scan_channel :: "nat \<Rightarrow> 'k wifi \<Rightarrow> nat option" where
  "scan_channel = on_info 0 (\<lambda>b. Some (b_channel b))"
definition scan_isHidden :: "nat \<Rightarrow> 'k wifi \<Rightarrow> bool option" where
  "scan_isHidden = on_info False (\<lambda>b. Some (b_hidden b))"

text \<open>\<open>getNetworkInfo\<close>: \<open>Some None\<close> is the result \<open>false\<close>, which leaves the variables as they were.\<close>

record network_info =
  n_ssid :: string
  n_enc :: nat
  n_rssi :: int
  n_bssid :: "u8 list"
  n_channel :: nat
  n_hidden :: bool

definition getNetworkInfo :: "nat \<Rightarrow> 'k wifi \<Rightarrow> network_info option option" where
  "getNetworkInfo i s = on_info None (\<lambda>b. do {
     x \<leftarrow> cstr (b_ssid b);
     e \<leftarrow> encryptionType i s;
     Some (Some \<lparr>n_ssid = x, n_enc = e, n_rssi = b_rssi b, n_bssid = b_bssid b, n_channel = b_channel b,
       n_hidden = b_hidden b\<rparr>) }) i s"

section \<open>Several networks\<close>

datatype char_ptr = Null | Text string | Garbage

record WifiAPlist =
  e_ssid :: string
  e_passphrase :: char_ptr

text \<open>\<open>APlistAdd\<close>: the member \<open>passphrase\<close> of the local \<open>newAP\<close> holds \<open>garbage\<close> until it is assigned. The
  heap is not exhausted.\<close>

definition APlistAdd :: "char_ptr \<Rightarrow> string option \<Rightarrow> string option \<Rightarrow> WifiAPlist list \<Rightarrow> bool \<times> WifiAPlist list" where
  "APlistAdd garbage ssid passphrase aps =
     (case ssid of
        None \<Rightarrow> (False, aps)
      | Some x \<Rightarrow>
          if x = [] \<or> length x > 31 then (False, aps)
          else if passphrase \<noteq> None \<and> length (the passphrase) > 63 then (False, aps)
          else (True, aps @ [\<lparr>e_ssid = x,
             e_passphrase = (if passphrase \<noteq> None \<and> the passphrase \<noteq> [] then Text (the passphrase) else garbage)\<rparr>]))"

definition addAP :: "char_ptr \<Rightarrow> string option \<Rightarrow> string option \<Rightarrow> WifiAPlist list \<Rightarrow> bool \<times> WifiAPlist list" where
  "addAP = APlistAdd"

text \<open>\<open>APlistClean\<close>, also the destructor: \<open>free\<close> of an uninitialised pointer is undefined.\<close>

definition APlistClean :: "WifiAPlist list \<Rightarrow> WifiAPlist list option" where
  "APlistClean aps = (if \<exists>e \<in> set aps. e_passphrase e = Garbage then None else Some [])"

definition INT_MIN :: int where "INT_MIN = - (2 ^ 31)"

text \<open>The best network so far: the known entry, the network found, and its strength. Where
  \<open>getNetworkInfo\<close> fails, the loop goes on with an empty name and uninitialised numbers.\<close>

type_synonym best = "(WifiAPlist \<times> network_info) option \<times> int"

definition consider_network :: "WifiAPlist list \<Rightarrow> network_info \<Rightarrow> best \<Rightarrow> best" where
  "consider_network aps n b =
     (case find (\<lambda>e. n_ssid n = e_ssid e) aps of
        None \<Rightarrow> b
      | Some e \<Rightarrow> if n_rssi n > snd b \<and> (n_enc n = ENC_TYPE_NONE \<or> e_passphrase e \<noteq> Null)
                  then (Some (e, n), n_rssi n) else b)"

fun best_network :: "WifiAPlist list \<Rightarrow> nat list \<Rightarrow> 'k wifi \<Rightarrow> best \<Rightarrow> best option" where
  "best_network aps [] s b = Some b"
| "best_network aps (i # is) s b = do {
     r \<leftarrow> getNetworkInfo i s;
     case r of
       None \<Rightarrow> if \<exists>e \<in> set aps. e_ssid e = [] then None else best_network aps is s b
     | Some n \<Rightarrow> best_network aps is s (consider_network aps n b) }"

definition read_ptr :: "char_ptr \<Rightarrow> string option option" where
  "read_ptr p = (case p of Null \<Rightarrow> Some None | Text x \<Rightarrow> Some (Some x) | Garbage \<Rightarrow> None)"

partial_function (option) await_result :: "'k sdk \<Rightarrow> wl_status_t \<Rightarrow> 'k wifi \<Rightarrow> (wl_status_t \<times> 'k wifi) option" where
  "await_result K status s =
     (if status \<noteq> WL_CONNECTED \<and> status \<noteq> WL_NO_SSID_AVAIL \<and> status \<noteq> WL_CONNECT_FAILED
      then (let s = sdk_do (sdk_delay K 10) s in await_result K (wifi_status K s) s)
      else Some (status, s))"

definition multi_run ::
    "'k sdk \<Rightarrow> station_config \<Rightarrow> WifiAPlist list \<Rightarrow> 'k wifi \<Rightarrow> (wl_status_t \<times> 'k wifi) option" where
  "multi_run K stack aps s =
     (let status = wifi_status K s in
      if status = WL_DISCONNECTED \<or> status = WL_NO_SSID_AVAIL \<or> status = WL_IDLE_STATUS \<or> status = WL_CONNECT_FAILED
      then
        (let r = scanComplete s in
         if r = WIFI_SCAN_RUNNING then Some (WL_NO_SSID_AVAIL, s)
         else if r > 0 then do {
           (best, db) \<leftarrow> best_network aps [0..<nat r] s (None, INT_MIN);
           let s = scanDelete s;
           case best of
             None \<Rightarrow> Some (status, s)
           | Some (e, n) \<Rightarrow> do {
               pass \<leftarrow> read_ptr (e_passphrase e);
               (st, s) \<leftarrow> sta_begin K stack (Some (e_ssid e)) pass (int (n_channel n)) (Some (take 6 (n_bssid n))) True s;
               await_result K (wifi_status K s) s } }
         else
           (let s = snd (sta_disconnect K stack False s)
            in Some (status, snd (scanNetworks K stack id True False s))))
      else Some (status, s))"

section \<open>What a scan finds\<close>

definition info_of :: "bss_info \<Rightarrow> network_info option" where
  "info_of b = map_option (\<lambda>x. \<lparr>n_ssid = x, n_enc = enc_type (b_authmode b), n_rssi = b_rssi b, n_bssid = b_bssid b,
     n_channel = b_channel b, n_hidden = b_hidden b\<rparr>) (cstr (b_ssid b))"

lemma scanDone_fields [simp]:
  "scanStarted (scanDone r s) = False" "scanComplete_flag (scanDone r s) = True"
  "scanCount (scanDone r s) = (case r of None \<Rightarrow> 0 | Some l \<Rightarrow> length l)"
  "scanResult (scanDone r s) = (case r of None \<Rightarrow> None | Some l \<Rightarrow> if l = [] then None else Some l)"
  by (auto simp: scanDone_def Let_def split: option.splits)

lemma to_i8_small [simp]: "n < 128 \<Longrightarrow> to_i8 n = int n"
  by (simp add: to_i8_def)

lemma on_info_scanned:
  "l \<noteq> [] \<Longrightarrow> on_info d f i (scanDone (Some l) s) =
     (if i < length l then f (l ! i) else if i = length l then None else Some d)"
  by (auto simp: on_info_def scan_info_def)

lemmas accessor_defs = scan_SSID_def encryptionType_def scan_RSSI_def scan_BSSID_def scan_BSSIDstr_def scan_channel_def
  scan_isHidden_def

lemma getNetworkInfo_scanned:
  "i < length l \<Longrightarrow> getNetworkInfo i (scanDone (Some l) s) = map_option Some (info_of (l ! i))"
  by (cases "l = []") (auto simp: getNetworkInfo_def on_info_scanned encryptionType_def info_of_def
      split: Option.bind_splits)

text \<open>The entry whose passphrase opens a network.\<close>

definition usable :: "WifiAPlist list \<Rightarrow> network_info \<Rightarrow> WifiAPlist option" where
  "usable aps n = (case find (\<lambda>e. n_ssid n = e_ssid e) aps of
     None \<Rightarrow> None | Some e \<Rightarrow> if n_enc n = ENC_TYPE_NONE \<or> e_passphrase e \<noteq> Null then Some e else None)"

lemma consider_usable:
  "consider_network aps n b = (case usable aps n of None \<Rightarrow> b
     | Some e \<Rightarrow> if n_rssi n > snd b then (Some (e, n), n_rssi n) else b)"
  by (auto simp: consider_network_def usable_def split: option.splits)

lemma best_network_fold:
  "\<forall>i \<in> set is. i < length l \<and> info_of (l ! i) \<noteq> None \<Longrightarrow>
   best_network aps is (scanDone (Some l) s) b
     = Some (fold (consider_network aps) (map (\<lambda>i. the (info_of (l ! i))) is) b)"
  by (induction "is" arbitrary: b) (auto simp: getNetworkInfo_scanned)

text \<open>The first of the strongest usable networks.\<close>

definition strongest :: "WifiAPlist list \<Rightarrow> network_info list \<Rightarrow> (WifiAPlist \<times> network_info) option \<Rightarrow> bool" where
  "strongest aps ns b = (case b of
     None \<Rightarrow> \<forall>n \<in> set ns. usable aps n = None
   | Some (e, n) \<Rightarrow> usable aps n = Some e \<and> (\<exists>xs ys. ns = xs @ n # ys
       \<and> (\<forall>m \<in> set xs. usable aps m \<noteq> None \<longrightarrow> n_rssi m < n_rssi n)
       \<and> (\<forall>m \<in> set ys. usable aps m \<noteq> None \<longrightarrow> n_rssi m \<le> n_rssi n)))"

lemma strongestI:
  assumes "usable aps n = Some e" and "ns = xs @ n # ys"
    and "\<forall>m \<in> set xs. usable aps m \<noteq> None \<longrightarrow> n_rssi m < n_rssi n"
    and "\<forall>m \<in> set ys. usable aps m \<noteq> None \<longrightarrow> n_rssi m \<le> n_rssi n"
  shows "strongest aps ns (Some (e, n))"
  unfolding strongest_def option.case prod.case using assms by blast

lemma strongest_last:
  assumes "usable aps m = Some e" and "\<forall>k \<in> set ns. usable aps k \<noteq> None \<longrightarrow> n_rssi k < n_rssi m"
  shows "strongest aps (ns @ [m]) (Some (e, m))"
  by (rule strongestI [where xs = ns and ys = "[]"]) (use assms in auto)

lemma strongest_snoc:
  assumes "strongest aps ns b" and "snd B = (case b of None \<Rightarrow> INT_MIN | Some (e, n) \<Rightarrow> n_rssi n)" and "fst B = b"
    and "INT_MIN < n_rssi m"
  shows "strongest aps (ns @ [m]) (fst (consider_network aps m B))"
    and "snd (consider_network aps m B) = (case fst (consider_network aps m B) of None \<Rightarrow> INT_MIN | Some (e, n) \<Rightarrow> n_rssi n)"
proof -
  show "snd (consider_network aps m B) = (case fst (consider_network aps m B) of None \<Rightarrow> INT_MIN | Some (e, n) \<Rightarrow> n_rssi n)"
    using assms(2,3) by (auto simp: consider_usable split: option.splits)
  show "strongest aps (ns @ [m]) (fst (consider_network aps m B))"
  proof (cases b)
    case None
    with assms have "\<forall>n \<in> set ns. usable aps n = None" "snd B = INT_MIN" "fst B = None"
      by (auto simp: strongest_def)
    then show ?thesis using assms(4)
      by (cases "usable aps m") (auto simp: consider_usable intro!: strongest_last, simp add: strongest_def)
  next
    case (Some p)
    then obtain e n where b: "b = Some (e, n)" by (cases p) auto
    with assms(1) obtain xs ys where ns: "ns = xs @ n # ys" "usable aps n = Some e"
      "\<forall>m \<in> set xs. usable aps m \<noteq> None \<longrightarrow> n_rssi m < n_rssi n"
      "\<forall>m \<in> set ys. usable aps m \<noteq> None \<longrightarrow> n_rssi m \<le> n_rssi n"
      by (auto simp: strongest_def)
    have best: "\<forall>k \<in> set ns. usable aps k \<noteq> None \<longrightarrow> n_rssi k \<le> n_rssi n" using ns by fastforce
    show ?thesis
    proof (cases "usable aps m \<noteq> None \<and> n_rssi m > n_rssi n")
      case True
      then obtain f where f: "usable aps m = Some f" by auto
      have "\<forall>k \<in> set ns. usable aps k \<noteq> None \<longrightarrow> n_rssi k < n_rssi m" using best True by fastforce
      then show ?thesis using True f b assms(2,3) strongest_last [OF f] by (simp add: consider_usable)
    next
      case False
      then have "fst (consider_network aps m B) = Some (e, n)"
        using b assms(2,3) by (auto simp: consider_usable split: option.splits)
      moreover have "ns @ [m] = xs @ n # (ys @ [m])" using ns(1) by simp
      moreover have "\<forall>k \<in> set (ys @ [m]). usable aps k \<noteq> None \<longrightarrow> n_rssi k \<le> n_rssi n" using ns(4) False by auto
      ultimately show ?thesis using strongestI [OF ns(2) _ ns(3)] by simp
    qed
  qed
qed

lemma strongest_fold:
  "\<forall>n \<in> set ns. INT_MIN < n_rssi n \<Longrightarrow>
     strongest aps ns (fst (fold (consider_network aps) ns (None, INT_MIN)))
   \<and> snd (fold (consider_network aps) ns (None, INT_MIN))
       = (case fst (fold (consider_network aps) ns (None, INT_MIN)) of None \<Rightarrow> INT_MIN | Some (e, n) \<Rightarrow> n_rssi n)"
proof (induction ns rule: rev_induct)
  case Nil
  show ?case by (simp add: strongest_def)
next
  case (snoc m ns)
  then show ?case using strongest_snoc [OF _ _ refl, of aps ns "fold (consider_network aps) ns (None, INT_MIN)" m] by simp
qed

section \<open>Properties\<close>

text \<open>A scan that found fewer than 128 networks reports their number, and the accessors give the
  data of every network by its index. The index one behind the last passes the check of
  \<open>_getScanInfoByIndex\<close>, and every accessor then reads behind the array (\<open>None\<close>). The number of 128 to
  255 networks turns negative in the \<open>int8_t\<close> result.\<close>

theorem scan_results:
  assumes "l \<noteq> []"
  shows "(if length l < 128 then scanComplete (scanDone (Some l) s) = int (length l)
          else length l < 256 \<longrightarrow> scanComplete (scanDone (Some l) s) < 0)
    \<and> (\<forall>i < length l. scan_RSSI i (scanDone (Some l) s) = Some (b_rssi (l ! i))
         \<and> scan_channel i (scanDone (Some l) s) = Some (b_channel (l ! i))
         \<and> getNetworkInfo i (scanDone (Some l) s) = map_option Some (info_of (l ! i)))
    \<and> scan_RSSI (length l) (scanDone (Some l) s) = None \<and> getNetworkInfo (length l) (scanDone (Some l) s) = None
    \<and> (\<forall>i > length l. scan_RSSI i (scanDone (Some l) s) = Some 0
         \<and> getNetworkInfo i (scanDone (Some l) s) = Some None)"
proof (intro conjI allI impI)
  show "if length l < 128 then scanComplete (scanDone (Some l) s) = int (length l)
        else length l < 256 \<longrightarrow> scanComplete (scanDone (Some l) s) < 0"
    by (auto simp: scanComplete_def to_i8_def)
qed (use assms in \<open>simp_all add: accessor_defs on_info_scanned getNetworkInfo_scanned,
       simp_all add: getNetworkInfo_def on_info_scanned\<close>)

text \<open>C37: \<open>ESP8266WiFiMulti::run\<close> with the result of a finished scan connects to the first of the strongest
  networks whose name is known and that is open or has a passphrase, with its channel and its
  address; when there is none it reports the old status. In both cases it deletes the result.\<close>

theorem multi_run_strongest:
  assumes "wifi_status K s \<in> {WL_DISCONNECTED, WL_NO_SSID_AVAIL, WL_IDLE_STATUS, WL_CONNECT_FAILED}"
    and "s = scanDone (Some l) s0" and "l \<noteq> []" and "length l < 128"
    and "\<forall>b \<in> set l. CHR 0x00 \<in> set (b_ssid b) \<and> INT_MIN < b_rssi b"
  shows "\<exists>best. strongest aps (map (\<lambda>b. the (info_of b)) l) best \<and> multi_run K stack aps s =
     (case best of
        None \<Rightarrow> Some (wifi_status K s, scanDelete s)
      | Some (e, n) \<Rightarrow> do {
          pass \<leftarrow> read_ptr (e_passphrase e);
          (st, s) \<leftarrow> sta_begin K stack (Some (e_ssid e)) pass (int (n_channel n)) (Some (take 6 (n_bssid n))) True
            (scanDelete s);
          await_result K (wifi_status K s) s })"
proof -
  let ?ns = "map (\<lambda>b. the (info_of b)) l"
  let ?best = "fst (fold (consider_network aps) ?ns (None, INT_MIN))"
  have ok: "\<forall>i \<in> set [0..<length l]. i < length l \<and> info_of (l ! i) \<noteq> None"
    using assms(5) by (auto simp: info_of_def cstr_def)
  have "map (\<lambda>i. the (info_of (l ! i))) [0..<length l] = ?ns" by (rule nth_equalityI) auto
  with best_network_fold [OF ok, of aps s0 "(None, INT_MIN)"] assms(2)
  have run: "best_network aps [0..<length l] s (None, INT_MIN) = Some (fold (consider_network aps) ?ns (None, INT_MIN))"
    by simp
  have "INT_MIN < n_rssi (the (info_of b))" if "b \<in> set l" for b using assms(5) that by (auto simp: info_of_def cstr_def)
  then have "strongest aps ?ns ?best" by (intro strongest_fold [THEN conjunct1]) auto
  moreover have "scanComplete s = int (length l)" using assms(2-4) by (simp add: scanComplete_def)
  then have "multi_run K stack aps s =
     (case ?best of None \<Rightarrow> Some (wifi_status K s, scanDelete s)
      | Some (e, n) \<Rightarrow> do {
          pass \<leftarrow> read_ptr (e_passphrase e);
          (st, s) \<leftarrow> sta_begin K stack (Some (e_ssid e)) pass (int (n_channel n)) (Some (take 6 (n_bssid n))) True
            (scanDelete s);
          await_result K (wifi_status K s) s })"
    using assms(1,3) run
    by (simp add: multi_run_def WIFI_SCAN_RUNNING_def split_beta Let_def)
  ultimately show ?thesis by blast
qed

text \<open>Two known networks and a stronger unknown one.\<close>

definition demo_scan :: "bss_info list" where
  "demo_scan = map (\<lambda>(x, r). \<lparr>b_ssid = x @ [CHR 0x00], b_authmode = AUTH_WPA2_PSK, b_rssi = r,
     b_bssid = replicate 6 0, b_channel = 6, b_hidden = False\<rparr>) [(''far'', - 80), (''other'', - 30), (''near'', - 50)]"

lemma demo_scan_ok:
  "demo_scan \<noteq> []" "length demo_scan = 3" "\<forall>b \<in> set demo_scan. CHR 0x00 \<in> set (b_ssid b) \<and> INT_MIN < b_rssi b"
  by (simp_all add: demo_scan_def INT_MIN_def)

lemma demo_networks:
  "map (\<lambda>b. the (info_of b)) demo_scan = map (\<lambda>(x, r). \<lparr>n_ssid = x, n_enc = 4, n_rssi = r,
     n_bssid = replicate 6 0, n_channel = 6, n_hidden = False\<rparr>) [(''far'', - 80), (''other'', - 30), (''near'', - 50)]"
  by (simp add: demo_scan_def info_of_def cstr_def enc_type_def)

lemma scan_results_witness: "scan_RSSI 3 (scanDone (Some demo_scan) demo_station) = None"
  using scan_results [OF demo_scan_ok(1), of demo_station] unfolding demo_scan_ok(2) by blast

lemma multi_run_strongest_witness:
  "\<exists>e n. strongest [\<lparr>e_ssid = ''far'', e_passphrase = Text ''x''\<rparr>, \<lparr>e_ssid = ''near'', e_passphrase = Null\<rparr>]
     (map (\<lambda>b. the (info_of b)) demo_scan) (Some (e, n)) \<and> e_ssid e = ''far'' \<and> n_rssi n = - 80"
proof -
  let ?aps = "[\<lparr>e_ssid = ''far'', e_passphrase = Text ''x''\<rparr>, \<lparr>e_ssid = ''near'', e_passphrase = Null\<rparr>]"
  let ?ns = "map (\<lambda>b. the (info_of b)) demo_scan"
  have idle: "wifi_status demo_sdk (scanDone (Some demo_scan) demo_station)
      \<in> {WL_DISCONNECTED, WL_NO_SSID_AVAIL, WL_IDLE_STATUS, WL_CONNECT_FAILED}"
    by (simp add: wifi_status_def demo_sdk_def demo_station_def wifi_init_def scanDone_def Let_def)
  have len: "length demo_scan < 128" by (simp add: demo_scan_ok)
  have only: "usable ?aps n = Some e \<longrightarrow> e_ssid e = ''far'' \<and> n_rssi n = - 80" if "n \<in> set ?ns" for n e
    using that unfolding demo_networks by (auto simp: usable_def ENC_TYPE_NONE_def)
  obtain best where best: "strongest ?aps ?ns best"
    using multi_run_strongest [OF idle refl demo_scan_ok(1) len demo_scan_ok(3), of ?aps demo_config] by blast
  show ?thesis
  proof (cases best)
    case None
    with best have "\<forall>n \<in> set ?ns. usable ?aps n = None" by (simp add: strongest_def)
    then show ?thesis unfolding demo_networks by (simp add: usable_def)
  next
    case (Some p)
    then obtain e n where p: "best = Some (e, n)" by (cases p) auto
    have "\<exists>xs ys. ?ns = xs @ n # ys" "usable ?aps n = Some e"
      using best p unfolding strongest_def by simp_all blast
    then have "n \<in> set ?ns" "usable ?aps n = Some e" unfolding in_set_conv_decomp by blast+
    with only best p show ?thesis by blast
  qed
qed

end
