(* ===== verification/Wifi_Secure.thy ===== *)
theory Wifi_Secure
  imports Wifi_Client
begin

text \<open>
  TLS connections (\<open>src/ESP8266WiFi/src/WiFiClientSecure.cpp\<close>): \<open>SSLContext\<close> with its reference count
  and its decoded data, the client objects that point to it besides their TCP connection, the key and the
  certificate that all of them share, the check of a server against a fingerprint and its name, and
  the ports through which the TLS library reaches the connection. The library is a record of its
  functions. \<open>None\<close> is the use of a null or freed pointer, or a loop that does not end.
\<close>

unbundle bit_operations_syntax

section \<open>The TLS library\<close>

text \<open>A session is its number. Calls that send or receive see the connection that the ports use and the
  network; they are \<open>None\<close> when a port fails.\<close>

record ('p, 'x) axtls =
  ssl_ctx_new :: "'x \<Rightarrow> nat \<times> 'x"
  ssl_ctx_free :: "nat \<Rightarrow> 'x \<Rightarrow> 'x"
  ssl_client_new :: "nat \<Rightarrow> string option \<Rightarrow> nat option \<Rightarrow> 'p net \<times> 'x \<Rightarrow> (nat \<times> 'p net \<times> 'x) option"
  ssl_handshake_status :: "nat \<Rightarrow> 'x \<Rightarrow> int"
  ssl_read :: "nat \<Rightarrow> nat option \<Rightarrow> 'p net \<times> 'x \<Rightarrow> ((int \<times> string) \<times> 'p net \<times> 'x) option"
  ssl_write :: "nat \<Rightarrow> string \<Rightarrow> nat option \<Rightarrow> 'p net \<times> 'x \<Rightarrow> (int \<times> 'p net \<times> 'x) option"
  ssl_free :: "nat \<Rightarrow> nat option \<Rightarrow> 'p net \<times> 'x \<Rightarrow> (unit \<times> 'p net \<times> 'x) option"
  ssl_match_fingerprint :: "nat \<Rightarrow> u8 list \<Rightarrow> 'x \<Rightarrow> int"
  ssl_get_cert_subject_alt_dnsname :: "nat \<Rightarrow> nat \<Rightarrow> 'x \<Rightarrow> string option"
  ssl_get_cert_dn :: "nat \<Rightarrow> 'x \<Rightarrow> string option"
  sys_millis :: "'x \<Rightarrow> u32 \<times> 'x"
  sys_yield :: "'p net \<times> 'x \<Rightarrow> 'p net \<times> 'x"

definition SSL_OK :: int where "SSL_OK = 0"
definition SSL_CLOSE_NOTIFY :: int where "SSL_CLOSE_NOTIFY = - 3"
definition SSL_ERROR_CONN_LOST :: int where "SSL_ERROR_CONN_LOST = - 256"

section \<open>State\<close>

record sslctx =
  ssl :: "nat option"
  ssl_refcnt :: int
  read_buf :: string

text \<open>A key or a certificate of all clients: null, data of the program, data on the heap, or a pointer to
  memory that was given back.\<close>

datatype blob = No_data | Static_data string | Heap_data string | Freed_data

record credential =
  cred_data :: blob
  cred_len :: nat
  cred_dynamic :: bool

record ('p, 'x) tls =
  tcp :: "'p net"
  ax :: 'x
  sslctxs :: "nat \<Rightarrow> sslctx option"
  ssl_of :: "nat \<Rightarrow> nat option option"
  fresh_ssl :: nat
  ssl_ctx :: nat
  ssl_ctx_refcnt :: int
  io_ctx :: "nat option"
  s_pk_refcnt :: int
  private_key :: credential
  certificate :: credential

definition no_credential :: credential where
  "no_credential = \<lparr>cred_data = No_data, cred_len = 0, cred_dynamic = False\<rparr>"

definition tls_init :: "'p net \<Rightarrow> 'x \<Rightarrow> ('p, 'x) tls" where
  "tls_init n x = \<lparr>tcp = n, ax = x, sslctxs = (\<lambda>_. None), ssl_of = (\<lambda>_. None), fresh_ssl = 0, ssl_ctx = 0,
     ssl_ctx_refcnt = 0, io_ctx = None, s_pk_refcnt = 0, private_key = no_credential, certificate = no_credential\<rparr>"

text \<open>A call of the library.\<close>

definition tls_io ::
    "(nat option \<Rightarrow> 'p net \<times> 'x \<Rightarrow> ('a \<times> 'p net \<times> 'x) option) \<Rightarrow> ('p, 'x) tls \<Rightarrow> ('a \<times> ('p, 'x) tls) option" where
  "tls_io f s = map_option (\<lambda>(r, n, x). (r, s\<lparr>tcp := n, ax := x\<rparr>)) (f (io_ctx s) (tcp s, ax s))"

definition tls_millis :: "('p, 'x) axtls \<Rightarrow> ('p, 'x) tls \<Rightarrow> u32 \<times> ('p, 'x) tls" where
  "tls_millis X s = (case sys_millis X (ax s) of (m, x) \<Rightarrow> (m, s\<lparr>ax := x\<rparr>))"

definition tls_yield :: "('p, 'x) axtls \<Rightarrow> ('p, 'x) tls \<Rightarrow> ('p, 'x) tls" where
  "tls_yield X s = (case sys_yield X (tcp s, ax s) of (n, x) \<Rightarrow> s\<lparr>tcp := n, ax := x\<rparr>)"

section \<open>SSLContext\<close>

definition SSLContext_new :: "('p, 'x) axtls \<Rightarrow> ('p, 'x) tls \<Rightarrow> nat \<times> ('p, 'x) tls" where
  "SSLContext_new X s =
     (let s = (if ssl_ctx_refcnt s = 0 then (case ssl_ctx_new X (ax s) of (c, x) \<Rightarrow> s\<lparr>ssl_ctx := c, ax := x\<rparr>) else s);
          s = s\<lparr>ssl_ctx_refcnt := ssl_ctx_refcnt s + 1\<rparr>; a = fresh_ssl s
      in (a, s\<lparr>sslctxs := (sslctxs s)(a \<mapsto> \<lparr>ssl = None, ssl_refcnt = 0, read_buf = []\<rparr>), fresh_ssl := a + 1\<rparr>))"

definition SSLContext_delete :: "('p, 'x) axtls \<Rightarrow> nat \<Rightarrow> ('p, 'x) tls \<Rightarrow> ('p, 'x) tls option" where
  "SSLContext_delete X a s = do {
     c \<leftarrow> sslctxs s a;
     s \<leftarrow> (case ssl c of None \<Rightarrow> Some s | Some h \<Rightarrow> map_option snd (tls_io (ssl_free X h) s));
     let s = s\<lparr>ssl_ctx_refcnt := ssl_ctx_refcnt s - 1\<rparr>;
     let s = (if ssl_ctx_refcnt s = 0 then s\<lparr>ax := ssl_ctx_free X (ssl_ctx s) (ax s)\<rparr> else s);
     Some (s\<lparr>io_ctx := None, sslctxs := (sslctxs s)(a := None)\<rparr>) }"

definition ssl_ref :: "nat \<Rightarrow> ('p, 'x) tls \<Rightarrow> ('p, 'x) tls option" where
  "ssl_ref a s = do {
     c \<leftarrow> sslctxs s a;
     Some (s\<lparr>sslctxs := (sslctxs s)(a \<mapsto> c\<lparr>ssl_refcnt := ssl_refcnt c + 1\<rparr>)\<rparr>) }"

definition ssl_unref :: "('p, 'x) axtls \<Rightarrow> nat \<Rightarrow> ('p, 'x) tls \<Rightarrow> ('p, 'x) tls option" where
  "ssl_unref X a s = do {
     c \<leftarrow> sslctxs s a;
     let c = c\<lparr>ssl_refcnt := ssl_refcnt c - 1\<rparr>;
     let s = s\<lparr>sslctxs := (sslctxs s)(a \<mapsto> c)\<rparr>;
     if ssl_refcnt c = 0 then SSLContext_delete X a s else Some s }"

definition ssl_status :: "('p, 'x) axtls \<Rightarrow> nat \<Rightarrow> ('p, 'x) tls \<Rightarrow> int" where
  "ssl_status X h s = ssl_handshake_status X h (ax s)"

text \<open>The handshake: reading until it is complete, an error, or the timeout.\<close>

partial_function (option) handshake :: "('p, 'x) axtls \<Rightarrow> nat \<Rightarrow> u32 \<Rightarrow> u32 \<Rightarrow> ('p, 'x) tls \<Rightarrow> ('p, 'x) tls option" where
  "handshake X h t timeout_ms s = (case tls_millis X s of (m, s) \<Rightarrow>
     if m - t < timeout_ms \<and> ssl_status X h s \<noteq> SSL_OK then
       Option.bind (tls_io (ssl_read X h) s) (\<lambda>((rc, _), s). if rc < SSL_OK then Some s else handshake X h t timeout_ms s)
     else Some s)"

definition SSLContext_connect ::
    "('p, 'x) axtls \<Rightarrow> nat \<Rightarrow> nat option \<Rightarrow> string option \<Rightarrow> u32 \<Rightarrow> ('p, 'x) tls \<Rightarrow> ('p, 'x) tls option" where
  "SSLContext_connect X a ctx hostName timeout_ms s = do {
     let s = s\<lparr>io_ctx := ctx\<rparr>;
     c \<leftarrow> sslctxs s a;
     (h, s) \<leftarrow> tls_io (ssl_client_new X (ssl_ctx s) hostName) s;
     let s = s\<lparr>sslctxs := (sslctxs s)(a \<mapsto> c\<lparr>ssl := Some h\<rparr>)\<rparr>;
     let (t, s) = tls_millis X s;
     handshake X h t timeout_ms s }"

definition SSLContext_stop :: "nat \<Rightarrow> ('p, 'x) tls \<Rightarrow> ('p, 'x) tls option" where
  "SSLContext_stop a s = map_option (\<lambda>_. s\<lparr>io_ctx := None\<rparr>) (sslctxs s a)"

definition SSLContext_connected :: "('p, 'x) axtls \<Rightarrow> nat \<Rightarrow> ('p, 'x) tls \<Rightarrow> bool option" where
  "SSLContext_connected X a s =
     map_option (\<lambda>c. case ssl c of None \<Rightarrow> False | Some h \<Rightarrow> ssl_status X h s = SSL_OK) (sslctxs s a)"

text \<open>\<open>_readAll\<close>: data of the next record, or nothing; an error ends the session.\<close>

definition readAll :: "('p, 'x) axtls \<Rightarrow> nat \<Rightarrow> ('p, 'x) tls \<Rightarrow> (nat \<times> ('p, 'x) tls) option" where
  "readAll X a s = do {
     c \<leftarrow> sslctxs s a;
     case ssl c of
       None \<Rightarrow> Some (0, s)
     | Some h \<Rightarrow> do {
         ((rc, d), s) \<leftarrow> tls_io (ssl_read X h) s;
         if rc \<le> 0 then
           (if rc < SSL_OK \<and> rc \<noteq> SSL_CLOSE_NOTIFY \<and> rc \<noteq> SSL_ERROR_CONN_LOST then do {
              (_, s) \<leftarrow> tls_io (ssl_free X h) s;
              Some (0, s\<lparr>sslctxs := (sslctxs s)(a \<mapsto> c\<lparr>ssl := None\<rparr>)\<rparr>) }
            else Some (0, s))
         else Some (nat rc, s\<lparr>sslctxs := (sslctxs s)(a \<mapsto> c\<lparr>read_buf := take (nat rc) d\<rparr>)\<rparr>) } }"

text \<open>What the reading functions begin with: \<open>_available\<close>, or else \<open>_readAll\<close>.\<close>

definition fill :: "('p, 'x) axtls \<Rightarrow> nat \<Rightarrow> ('p, 'x) tls \<Rightarrow> (nat \<times> ('p, 'x) tls) option" where
  "fill X a s = do {
     c \<leftarrow> sslctxs s a;
     if read_buf c = [] then readAll X a s else Some (length (read_buf c), s) }"

definition SSLContext_read :: "('p, 'x) axtls \<Rightarrow> nat \<Rightarrow> nat \<Rightarrow> ('p, 'x) tls \<Rightarrow> (string \<times> ('p, 'x) tls) option" where
  "SSLContext_read X sz a s = do {
     (n, s) \<leftarrow> fill X a s;
     c \<leftarrow> sslctxs s a;
     Some (take sz (read_buf c), s\<lparr>sslctxs := (sslctxs s)(a \<mapsto> c\<lparr>read_buf := drop sz (read_buf c)\<rparr>)\<rparr>) }"

definition SSLContext_read1 :: "('p, 'x) axtls \<Rightarrow> nat \<Rightarrow> ('p, 'x) tls \<Rightarrow> (int \<times> ('p, 'x) tls) option" where
  "SSLContext_read1 X a s = do {
     (n, s) \<leftarrow> fill X a s;
     c \<leftarrow> sslctxs s a;
     (case read_buf c of
        [] \<Rightarrow> Some (- 1, s)
      | b # r \<Rightarrow> Some (int (of_char b), s\<lparr>sslctxs := (sslctxs s)(a \<mapsto> c\<lparr>read_buf := r\<rparr>)\<rparr>)) }"

definition SSLContext_peek :: "('p, 'x) axtls \<Rightarrow> nat \<Rightarrow> ('p, 'x) tls \<Rightarrow> (int \<times> ('p, 'x) tls) option" where
  "SSLContext_peek X a s = do {
     (n, s) \<leftarrow> fill X a s;
     c \<leftarrow> sslctxs s a;
     Some (case read_buf c of [] \<Rightarrow> - 1 | b # r \<Rightarrow> int (of_char b), s) }"

text \<open>The result without data is -1, converted to \<open>size_t\<close>.\<close>

definition SSLContext_peekBytes :: "('p, 'x) axtls \<Rightarrow> nat \<Rightarrow> nat \<Rightarrow> ('p, 'x) tls \<Rightarrow> ((u32 \<times> string) \<times> ('p, 'x) tls) option" where
  "SSLContext_peekBytes X sz a s = do {
     (n, s) \<leftarrow> fill X a s;
     c \<leftarrow> sslctxs s a;
     Some (if n = 0 then (- 1, []) else (of_nat (length (take sz (read_buf c))), take sz (read_buf c)), s) }"

section \<open>Keys and certificates\<close>

text \<open>\<open>clear_private_key\<close> and \<open>clear_certificate\<close>; giving the same memory back twice is undefined.\<close>

definition clear_credential :: "credential \<Rightarrow> credential option" where
  "clear_credential k =
     (if cred_data k \<noteq> No_data \<and> cred_dynamic k then
        (if cred_data k = Freed_data then None else Some (k\<lparr>cred_data := No_data, cred_len := 0, cred_dynamic := False\<rparr>))
      else Some (k\<lparr>cred_data := No_data, cred_len := 0\<rparr>))"

definition set_credential :: "string \<Rightarrow> nat \<Rightarrow> credential \<Rightarrow> credential option" where
  "set_credential d sz k = map_option (\<lambda>k. k\<lparr>cred_data := Static_data d, cred_len := sz\<rparr>) (clear_credential k)"

text \<open>\<open>incoming\<close> is what the stream delivers before its timeout. The pointer to the memory of a load that fails
  is kept.\<close>

definition load_credential :: "string \<Rightarrow> nat \<Rightarrow> credential \<Rightarrow> (bool \<times> credential) option" where
  "load_credential incoming sz k = do {
     k \<leftarrow> clear_credential k;
     if length (take sz incoming) \<noteq> sz then Some (False, k\<lparr>cred_data := Freed_data\<rparr>)
     else Some (True, k\<lparr>cred_data := Heap_data (take sz incoming), cred_dynamic := True, cred_len := sz\<rparr>) }"


definition setCertificate :: "string \<Rightarrow> nat \<Rightarrow> ('p, 'x) tls \<Rightarrow> ('p, 'x) tls option" where
  "setCertificate d sz s = map_option (\<lambda>k. s\<lparr>certificate := k\<rparr>) (set_credential d sz (certificate s))"

definition setPrivateKey :: "string \<Rightarrow> nat \<Rightarrow> ('p, 'x) tls \<Rightarrow> ('p, 'x) tls option" where
  "setPrivateKey d sz s = map_option (\<lambda>k. s\<lparr>private_key := k\<rparr>) (set_credential d sz (private_key s))"

definition loadCertificate :: "string \<Rightarrow> nat \<Rightarrow> ('p, 'x) tls \<Rightarrow> (bool \<times> ('p, 'x) tls) option" where
  "loadCertificate incoming sz s = map_option (\<lambda>(b, k). (b, s\<lparr>certificate := k\<rparr>)) (load_credential incoming sz (certificate s))"

definition loadPrivateKey :: "string \<Rightarrow> nat \<Rightarrow> ('p, 'x) tls \<Rightarrow> (bool \<times> ('p, 'x) tls) option" where
  "loadPrivateKey incoming sz s = map_option (\<lambda>(b, k). (b, s\<lparr>private_key := k\<rparr>)) (load_credential incoming sz (private_key s))"

section \<open>Client objects\<close>

definition secure_new :: "nat \<Rightarrow> ('p, 'x) tls \<Rightarrow> ('p, 'x) tls" where
  "secure_new i s = s\<lparr>tcp := client_new i (tcp s), ssl_of := (ssl_of s)(i \<mapsto> None), s_pk_refcnt := s_pk_refcnt s + 1\<rparr>"

definition secure_copy :: "nat \<Rightarrow> nat \<Rightarrow> ('p, 'x) tls \<Rightarrow> ('p, 'x) tls option" where
  "secure_copy i other s = do {
     n \<leftarrow> client_copy i other (tcp s);
     p \<leftarrow> ssl_of s other;
     let s = s\<lparr>tcp := n, ssl_of := (ssl_of s)(i \<mapsto> p)\<rparr>;
     case p of None \<Rightarrow> Some s | Some a \<Rightarrow> ssl_ref a s }"

definition secure_assign :: "'p lwip \<Rightarrow> nat \<Rightarrow> nat \<Rightarrow> ('p, 'x) tls \<Rightarrow> ('p, 'x) tls option" where
  "secure_assign L i other s = do {
     n \<leftarrow> client_assign L i other (tcp s);
     p \<leftarrow> ssl_of s other;
     let s = s\<lparr>tcp := n, ssl_of := (ssl_of s)(i \<mapsto> p)\<rparr>;
     case p of None \<Rightarrow> Some s | Some a \<Rightarrow> ssl_ref a s }"

definition secure_destroy :: "('p, 'x) axtls \<Rightarrow> 'p lwip \<Rightarrow> nat \<Rightarrow> ('p, 'x) tls \<Rightarrow> ('p, 'x) tls option" where
  "secure_destroy X L i s = do {
     p \<leftarrow> ssl_of s i;
     s \<leftarrow> (case p of None \<Rightarrow> Some s | Some a \<Rightarrow> ssl_unref X a s);
     let s = s\<lparr>s_pk_refcnt := s_pk_refcnt s - 1\<rparr>;
     s \<leftarrow> (if s_pk_refcnt s = 0 then do {
            k \<leftarrow> clear_credential (private_key s);
            c \<leftarrow> clear_credential (certificate s);
            Some (s\<lparr>private_key := k, certificate := c\<rparr>) }
          else Some s);
     n \<leftarrow> client_destroy L i (tcp s);
     Some (s\<lparr>tcp := n, ssl_of := (ssl_of s)(i := None)\<rparr>) }"

text \<open>\<open>_ssl->unref(); _ssl = nullptr\<close>.\<close>

definition drop_ssl :: "('p, 'x) axtls \<Rightarrow> nat \<Rightarrow> ('p, 'x) tls \<Rightarrow> ('p, 'x) tls option" where
  "drop_ssl X i s = do {
     p \<leftarrow> ssl_of s i;
     s \<leftarrow> (case p of None \<Rightarrow> Some s | Some a \<Rightarrow> ssl_unref X a s);
     Some (s\<lparr>ssl_of := (ssl_of s)(i \<mapsto> None)\<rparr>) }"

definition connectSSL :: "('p, 'x) axtls \<Rightarrow> nat \<Rightarrow> string option \<Rightarrow> ('p, 'x) tls \<Rightarrow> (int \<times> ('p, 'x) tls) option" where
  "connectSSL X i hostName s = do {
     s \<leftarrow> drop_ssl X i s;
     let (a, s) = SSLContext_new X s;
     let s = s\<lparr>ssl_of := (ssl_of s)(i \<mapsto> Some a)\<rparr>;
     s \<leftarrow> ssl_ref a s;
     c \<leftarrow> clients (tcp s) i;
     s \<leftarrow> SSLContext_connect X a c hostName 5000 s;
     x \<leftarrow> sslctxs s a;
     h \<leftarrow> ssl x;
     if ssl_status X h s \<noteq> SSL_OK then map_option (Pair 0) (drop_ssl X i s) else Some (1, s) }"

definition secure_stop :: "'p lwip \<Rightarrow> nat \<Rightarrow> ('p, 'x) tls \<Rightarrow> ('p, 'x) tls option" where
  "secure_stop L i s = do {
     p \<leftarrow> ssl_of s i;
     s \<leftarrow> (case p of None \<Rightarrow> Some s | Some a \<Rightarrow> SSLContext_stop a s);
     n \<leftarrow> client_stop L i (tcp s);
     Some (s\<lparr>tcp := n\<rparr>) }"

text \<open>\<open>WiFiClient::connect\<close> first calls the virtual \<open>stop\<close>, which is the one of this class; the client has no
  connection then, and the rest of the base class's \<open>connect\<close> follows.\<close>

definition secure_connect ::
    "('p, 'x) axtls \<Rightarrow> 'p lwip \<Rightarrow> nat \<Rightarrow> bool \<Rightarrow> bool \<Rightarrow> 'p option \<Rightarrow> u32 \<Rightarrow> string option \<Rightarrow> ('p, 'x) tls
      \<Rightarrow> (int \<times> ('p, 'x) tls) option" where
  "secure_connect X L i route pcb_new established garbage hostName s = do {
     c \<leftarrow> clients (tcp s) i;
     s \<leftarrow> (if c \<noteq> None then secure_stop L i s else Some s);
     (r, n) \<leftarrow> client_connect L i route pcb_new established garbage (tcp s);
     let s = s\<lparr>tcp := n\<rparr>;
     if r = 0 then Some (0, s) else connectSSL X i hostName s }"

definition secure_connect_host ::
    "('p, 'x) axtls \<Rightarrow> 'p lwip \<Rightarrow> nat \<Rightarrow> string \<Rightarrow> u32 option \<Rightarrow> (u32 \<Rightarrow> bool) \<Rightarrow> bool \<Rightarrow> 'p option \<Rightarrow> u32 \<Rightarrow> ('p, 'x) tls
      \<Rightarrow> (int \<times> ('p, 'x) tls) option" where
  "secure_connect_host X L i name resolved route pcb_new established garbage s =
     (case resolved of
        None \<Rightarrow> Some (0, s)
      | Some addr \<Rightarrow> secure_connect X L i (route addr) pcb_new established garbage (Some name) s)"

text \<open>\<open>d\<close> is the result without an \<open>SSLContext\<close>.\<close>

definition at_ssl :: "nat \<Rightarrow> 'r \<Rightarrow> (nat \<Rightarrow> ('p, 'x) tls \<Rightarrow> ('r \<times> ('p, 'x) tls) option) \<Rightarrow> ('p, 'x) tls
    \<Rightarrow> ('r \<times> ('p, 'x) tls) option" where
  "at_ssl i d f s = Option.bind (ssl_of s i) (\<lambda>p. case p of None \<Rightarrow> Some (d, s) | Some a \<Rightarrow> f a s)"

definition secure_write :: "('p, 'x) axtls \<Rightarrow> nat \<Rightarrow> string \<Rightarrow> ('p, 'x) tls \<Rightarrow> (nat \<times> ('p, 'x) tls) option" where
  "secure_write X i d = at_ssl i 0 (\<lambda>a s. do {
     c \<leftarrow> sslctxs s a;
     h \<leftarrow> ssl c;
     (rc, s) \<leftarrow> tls_io (ssl_write X h d) s;
     if rc \<ge> 0 then Some (nat rc, s)
     else if rc \<noteq> SSL_CLOSE_NOTIFY then map_option (Pair 0) (drop_ssl X i s)
     else Some (0, s) })"

definition secure_read :: "('p, 'x) axtls \<Rightarrow> nat \<Rightarrow> nat \<Rightarrow> ('p, 'x) tls \<Rightarrow> (string \<times> ('p, 'x) tls) option" where
  "secure_read X i sz = at_ssl i [] (SSLContext_read X sz)"

definition secure_read1 :: "('p, 'x) axtls \<Rightarrow> nat \<Rightarrow> ('p, 'x) tls \<Rightarrow> (int \<times> ('p, 'x) tls) option" where
  "secure_read1 X i = at_ssl i (- 1) (SSLContext_read1 X)"

definition secure_peek :: "('p, 'x) axtls \<Rightarrow> nat \<Rightarrow> ('p, 'x) tls \<Rightarrow> (int \<times> ('p, 'x) tls) option" where
  "secure_peek X i = at_ssl i (- 1) (SSLContext_peek X)"

definition secure_available :: "('p, 'x) axtls \<Rightarrow> nat \<Rightarrow> ('p, 'x) tls \<Rightarrow> (nat \<times> ('p, 'x) tls) option" where
  "secure_available X i = at_ssl i 0 (fill X)"

text \<open>The wait of \<open>peekBytes\<close> for enough data or the timeout.\<close>

partial_function (option) secure_wait ::
    "('p, 'x) axtls \<Rightarrow> nat \<Rightarrow> nat \<Rightarrow> u32 \<Rightarrow> u32 \<Rightarrow> ('p, 'x) tls \<Rightarrow> ('p, 'x) tls option" where
  "secure_wait X i len startMillis timeout s = Option.bind (secure_available X i s) (\<lambda>(n, s).
     if n < len then (case tls_millis X s of (m, s) \<Rightarrow>
       if m - startMillis < timeout then secure_wait X i len startMillis timeout (tls_yield X s) else Some s)
     else Some s)"

definition secure_peekBytes ::
    "('p, 'x) axtls \<Rightarrow> nat \<Rightarrow> nat \<Rightarrow> u32 \<Rightarrow> ('p, 'x) tls \<Rightarrow> ((u32 \<times> string) \<times> ('p, 'x) tls) option" where
  "secure_peekBytes X i len timeout = at_ssl i (0, []) (\<lambda>a s. do {
     let (t, s) = tls_millis X s;
     s \<leftarrow> secure_wait X i len t timeout s;
     at_ssl i (0, []) (\<lambda>a s. do {
       (n, s) \<leftarrow> secure_available X i s;
       (count, s) \<leftarrow> (if n < len then secure_available X i s else Some (len, s));
       SSLContext_peekBytes X count a s }) s })"

definition secure_connected :: "('p, 'x) axtls \<Rightarrow> 'p lwip \<Rightarrow> nat \<Rightarrow> ('p, 'x) tls \<Rightarrow> (bool \<times> ('p, 'x) tls) option" where
  "secure_connected X L i = at_ssl i False (\<lambda>a s. do {
     (n, s) \<leftarrow> fill X a s;
     if n \<noteq> 0 then Some (True, s)
     else do {
       c \<leftarrow> clients (tcp s) i;
       case c of
         None \<Rightarrow> Some (False, s)
       | Some b \<Rightarrow> do {
           x \<leftarrow> ctxs (tcp s) b;
           if ctx_state L x = ESTABLISHED then map_option (\<lambda>r. (r, s)) (SSLContext_connected X a s)
           else Some (False, s) } } })"

section \<open>Verification of the server\<close>

definition parseHexNibble :: "char \<Rightarrow> u8 option" where
  "parseHexNibble pb =
     (let n = (of_char pb :: nat) in
      if 48 \<le> n \<and> n \<le> 57 then Some (of_nat (n - 48))
      else if 97 \<le> n \<and> n \<le> 102 then Some (of_nat (n - 97 + 10))
      else if 65 \<le> n \<and> n \<le> 70 then Some (of_nat (n - 65 + 10))
      else None)"

definition separator :: "char \<Rightarrow> bool" where
  "separator c \<longleftrightarrow> c = CHR '' '' \<or> c = CHR '':''"

text \<open>The loop over the bytes of the fingerprint; \<open>fp\<close> is the text from \<open>pos\<close> on.\<close>

fun parse_fingerprint :: "nat \<Rightarrow> string \<Rightarrow> u8 list option" where
  "parse_fingerprint 0 fp = Some []"
| "parse_fingerprint (Suc n) fp =
     (case dropWhile separator fp of
        h # l # r \<Rightarrow> do {
          high \<leftarrow> parseHexNibble h;
          low \<leftarrow> parseHexNibble l;
          bs \<leftarrow> parse_fingerprint n r;
          Some ((low OR push_bit 4 high) # bs) }
      | _ \<Rightarrow> None)"

definition matchName :: "string \<Rightarrow> string \<Rightarrow> bool" where
  "matchName name domainName =
     (let wildcardPos = indexOf (CHR ''*'') 0 name in
      if wildcardPos = - 1 then name = domainName
      else let firstDotPos = indexOf (CHR ''.'') 0 name in
      if wildcardPos > firstDotPos then False
      else if wildcardPos \<noteq> 0 \<or> firstDotPos \<noteq> 1 then False
      else let domainNameFirstDotPos = indexOf (CHR ''.'') 0 domainName in
      if domainNameFirstDotPos < 0 then False
      else substring_from domainNameFirstDotPos domainName = substring_from firstDotPos name)"

definition to_lower :: "char \<Rightarrow> char" where
  "to_lower c = (let n = (of_char c :: nat) in if 65 \<le> n \<and> n \<le> 90 then char_of (n + 32) else c)"

partial_function (option) match_alt_names :: "('p, 'x) axtls \<Rightarrow> nat \<Rightarrow> 'x \<Rightarrow> string \<Rightarrow> nat \<Rightarrow> bool option" where
  "match_alt_names X h x domain i = (case ssl_get_cert_subject_alt_dnsname X h i x of
     None \<Rightarrow> Some False
   | Some san \<Rightarrow> if matchName san domain then Some True else match_alt_names X h x domain (i + 1))"

definition secure_verify :: "('p, 'x) axtls \<Rightarrow> nat \<Rightarrow> string \<Rightarrow> string option \<Rightarrow> ('p, 'x) tls \<Rightarrow> bool option" where
  "secure_verify X i fp domain_name s = do {
     p \<leftarrow> ssl_of s i;
     case p of
       None \<Rightarrow> Some False
     | Some a \<Rightarrow>
         (case parse_fingerprint 20 fp of
            None \<Rightarrow> Some False
          | Some sha1 \<Rightarrow> do {
              c \<leftarrow> sslctxs s a;
              h \<leftarrow> ssl c;
              if ssl_match_fingerprint X h sha1 (ax s) \<noteq> 0 then Some False
              else do {
                let domain = map to_lower (case domain_name of None \<Rightarrow> [] | Some d \<Rightarrow> d);
                san \<leftarrow> match_alt_names X h (ax s) domain 0;
                Some (san \<or> (case ssl_get_cert_dn X h (ax s) of None \<Rightarrow> False | Some cn \<Rightarrow> matchName cn domain)) } }) }"

section \<open>The ports of the library\<close>

text \<open>\<open>ax_port_read\<close> and \<open>ax_port_write\<close> act on the connection that was used last, whoever's it is.\<close>

definition ax_port_read :: "'p lwip \<Rightarrow> nat \<Rightarrow> ('p, 'x) tls \<Rightarrow> ((int \<times> string) \<times> ('p, 'x) tls) option" where
  "ax_port_read L count s = (case io_ctx s of
     None \<Rightarrow> Some ((- 1, []), s)
   | Some a \<Rightarrow> do {
       c \<leftarrow> ctxs (tcp s) a;
       if ctx_state L c \<noteq> ESTABLISHED \<and> ctx_getSize c = 0 then Some ((- 1, []), s)
       else do {
         (d, c) \<leftarrow> ctx_read L count c;
         Some ((if d = [] then - 1 else int (length d), d), s\<lparr>tcp := (tcp s)\<lparr>ctxs := (ctxs (tcp s))(a \<mapsto> c)\<rparr>\<rparr>) } })"

definition ax_port_write :: "'p lwip \<Rightarrow> string \<Rightarrow> event list \<Rightarrow> ('p, 'x) tls \<Rightarrow> (int \<times> ('p, 'x) tls) option" where
  "ax_port_write L d es s = (case io_ctx s of
     None \<Rightarrow> Some (- 1, s)
   | Some a \<Rightarrow> do {
       c \<leftarrow> ctxs (tcp s) a;
       if ctx_state L c \<noteq> ESTABLISHED then Some (- 1, s)
       else (case ctx_write L d es c of (r, es, c) \<Rightarrow>
         Some (int (unat r), s\<lparr>tcp := (tcp s)\<lparr>ctxs := (ctxs (tcp s))(a \<mapsto> c)\<rparr>\<rparr>)) })"

section \<open>Checking a server\<close>

lemma indexOf0: "indexOf c 0 s = (if c \<in> set s then int (length (takeWhile (\<lambda>x. x \<noteq> c) s)) else - 1)"
  by (simp add: indexOf_def)

lemma drop_takeWhile: "drop (length (takeWhile P xs)) xs = dropWhile P xs"
  by (induction xs) auto

lemma split_first:
  "c \<in> set d \<Longrightarrow> dropWhile (\<lambda>x. x \<noteq> c) d = c # r \<longleftrightarrow> (\<exists>l. d = l @ c # r \<and> c \<notin> set l)"
proof (induction d)
  case (Cons a d)
  show ?case
  proof (cases "a = c")
    case True
    then show ?thesis by (auto simp: Cons_eq_append_conv)
  next
    case False
    then show ?thesis using Cons by (auto simp: Cons_eq_append_conv)
  qed
qed simp

definition covers_name :: "string \<Rightarrow> string \<Rightarrow> bool" where
  "covers_name name domain \<longleftrightarrow> (CHR ''*'' \<notin> set name \<and> name = domain)
     \<or> (\<exists>rest l. name = ''*.'' @ rest \<and> domain = l @ ''.'' @ rest \<and> CHR ''.'' \<notin> set l)"

lemma matchName_covers:
  assumes "length name < 2 ^ 32" and "length domain < 2 ^ 32"
  shows "matchName name domain = covers_name name domain"
proof (cases "CHR ''*'' \<in> set name")
  case False
  then show ?thesis by (auto simp: matchName_def covers_name_def indexOf0)
next
  case star: True
  show ?thesis
  proof (cases "\<exists>rest. name = ''*.'' @ rest")
    case False
    have "\<not> (indexOf (CHR ''*'') 0 name = 0 \<and> indexOf (CHR ''.'') 0 name = 1)"
    proof
      assume a: "indexOf (CHR ''*'') 0 name = 0 \<and> indexOf (CHR ''.'') 0 name = 1"
      then obtain r where r: "name = CHR ''*'' # r"
        using star by (cases name) (auto simp: indexOf0 split: if_splits)
      with a have "\<exists>q. r = CHR ''.'' # q"
        by (cases r) (auto simp: indexOf0 split: if_splits)
      with r False show False by auto
    qed
    then have "\<not> matchName name domain" using star by (auto simp: matchName_def indexOf0 Let_def)
    with star False show ?thesis by (auto simp: covers_name_def)
  next
    case True
    then obtain rest where n: "name = ''*.'' @ rest" by blast
    have l: "length (takeWhile (\<lambda>x. x \<noteq> CHR ''.'') domain) \<le> length domain" by (rule length_takeWhile_le)
    have s: "substring_from 1 name = CHR ''.'' # rest"
      using substring_from_nat [of 1 name] assms(1) n by simp
    have d: "substring_from (int (length (takeWhile (\<lambda>x. x \<noteq> CHR ''.'') domain))) domain
        = dropWhile (\<lambda>x. x \<noteq> CHR ''.'') domain"
      using substring_from_nat [OF l] assms(2) by (simp add: drop_takeWhile)
    have "matchName name domain \<longleftrightarrow> CHR ''.'' \<in> set domain
        \<and> dropWhile (\<lambda>x. x \<noteq> CHR ''.'') domain = CHR ''.'' # rest"
      using n s d by (auto simp: matchName_def indexOf0 Let_def)
    also have "\<dots> \<longleftrightarrow> covers_name name domain"
      using n split_first [of "CHR ''.''" domain rest] by (auto simp: covers_name_def)
    finally show ?thesis .
  qed
qed

lemma to_lower_not_upper: "of_char (to_lower c) < (65 :: nat) \<or> 90 < (of_char (to_lower c) :: nat)"
  by (auto simp: to_lower_def Let_def of_char_of take_bit_eq_mod)

text \<open>A name with a capital letter covers no domain: the domain is in small letters.\<close>

lemma upper_name_uncovered:
  assumes "c \<in> set name" and "65 \<le> (of_char c :: nat)" and "of_char c \<le> (90 :: nat)"
  shows "\<not> covers_name name (map to_lower domain)"
proof
  assume v: "covers_name name (map to_lower domain)"
  have "c \<notin> set (map to_lower domain)" using to_lower_not_upper assms(2,3) by (auto simp: not_less) (metis not_less)
  moreover have "set rest \<subseteq> set (map to_lower domain)" if "map to_lower domain = l @ ''.'' @ rest" for l rest
    using arg_cong [OF that, of set] by auto
  ultimately show False using v assms unfolding covers_name_def by fastforce
qed

text \<open>A fingerprint written as hex digits, each byte after any separators, its digits in either case.\<close>

definition hex_nibble :: "bool \<Rightarrow> nat \<Rightarrow> char" where
  "hex_nibble up n = char_of (if n < 10 then n + 48 else if up then n + 55 else n + 87)"

definition hex_byte :: "string \<times> bool \<times> bool \<Rightarrow> u8 \<Rightarrow> string" where
  "hex_byte = (\<lambda>(sep, u1, u2) b. sep @ [hex_nibble u1 (unat b div 16), hex_nibble u2 (unat b mod 16)])"

definition fingerprint_text :: "(string \<times> bool \<times> bool) list \<Rightarrow> u8 list \<Rightarrow> string" where
  "fingerprint_text styles bs = concat (map2 hex_byte styles bs)"

lemma parse_nibble: "n < 16 \<Longrightarrow> parseHexNibble (hex_nibble u n) = Some (of_nat n)"
  by (auto simp: parseHexNibble_def hex_nibble_def Let_def of_char_of take_bit_eq_mod)

lemma nibble_not_separator: "n < 16 \<Longrightarrow> \<not> separator (hex_nibble u n)"
proof
  assume n: "n < 16" and "separator (hex_nibble u n)"
  then have "parseHexNibble (hex_nibble u n) = None"
    by (auto simp: separator_def parseHexNibble_def)
  with parse_nibble [OF n] show False by simp
qed

lemma nibbles_join: "of_nat (unat b mod 16) OR push_bit 4 (of_nat (unat b div 16)) = (b :: u8)"
proof -
  have "\<forall>n \<in> set [0..<256]. of_nat (n mod 16) OR push_bit 4 (of_nat (n div 16)) = (of_nat n :: u8)"
    by code_simp
  then have "of_nat (n mod 16) OR push_bit 4 (of_nat (n div 16)) = (of_nat n :: u8)" if "n < 256" for n
    by (rule bspec) (use that in simp)
  from this [of "unat b"] show ?thesis using unsigned_less [of b] by simp
qed

lemma parse_fingerprint_text:
  assumes "length styles = length bs" and "\<forall>(sep, u) \<in> set styles. \<forall>c \<in> set sep. separator c"
  shows "parse_fingerprint (length bs) (fingerprint_text styles bs @ more_text) = Some bs"
  using assms
proof (induction styles bs rule: list_induct2)
  case (Cons st styles b bs)
  obtain sep u1 u2 where st: "st = (sep, u1, u2)" by (cases st)
  have b: "unat b div 16 < 16" by (rule less_mult_imp_div_less, rule less_le_trans [OF unsigned_less]) simp
  have "dropWhile separator (sep @ hex_nibble u1 (unat b div 16) # r) = hex_nibble u1 (unat b div 16) # r" for r
    using Cons.prems st nibble_not_separator [OF b] by (auto simp: dropWhile_append)
  with Cons st b show ?case
    by (simp add: fingerprint_text_def hex_byte_def parse_nibble nibbles_join)
qed (simp add: fingerprint_text_def)

lemma alt_names_scan:
  assumes "\<And>i. ssl_get_cert_subject_alt_dnsname X h i x = (if i < length names then Some (names ! i) else None)"
    and "i \<le> length names"
  shows "match_alt_names X h x domain i = Some (\<exists>n \<in> set (drop i names). matchName n domain)"
  using assms(2)
proof (induction "length names - i" arbitrary: i)
  case 0
  then show ?case by (simp add: match_alt_names.simps assms(1))
next
  case (Suc k)
  then have i: "i < length names" by simp
  then have "drop i names = names ! i # drop (Suc i) names" by (simp add: Cons_nth_drop_Suc)
  with Suc i show ?case by (subst match_alt_names.simps) (simp add: assms(1))
qed

section \<open>Lifetime of the contexts\<close>

interpretation tls: refcounted ssl_refcnt "\<lambda>n c. c\<lparr>ssl_refcnt := n\<rparr>"
  by unfold_locales simp

definition tls_ok :: "('p, 'x) tls \<Rightarrow> bool" where
  "tls_ok s \<longleftrightarrow> tls.covered (sslctxs s) (ssl_of s) \<and> (\<forall>a \<ge> fresh_ssl s. sslctxs s a = None)"

text \<open>What does not touch the contexts or the pointers to them.\<close>

definition same_ssl :: "('p, 'x) tls \<Rightarrow> ('p, 'x) tls \<Rightarrow> bool" where
  "same_ssl s s' \<longleftrightarrow> sslctxs s' = sslctxs s \<and> ssl_of s' = ssl_of s \<and> fresh_ssl s' = fresh_ssl s"

lemma same_ssl_simps [simp]:
  "same_ssl s s" "same_ssl s (s'\<lparr>tcp := n\<rparr>) = same_ssl s s'" "same_ssl s (s'\<lparr>ax := x\<rparr>) = same_ssl s s'"
  "same_ssl s (s'\<lparr>io_ctx := c\<rparr>) = same_ssl s s'" "same_ssl s (s'\<lparr>ssl_ctx := h\<rparr>) = same_ssl s s'"
  "same_ssl s (s'\<lparr>ssl_ctx_refcnt := r\<rparr>) = same_ssl s s'" "same_ssl s (s'\<lparr>s_pk_refcnt := r\<rparr>) = same_ssl s s'"
  "same_ssl s (s'\<lparr>private_key := k\<rparr>) = same_ssl s s'" "same_ssl s (s'\<lparr>certificate := k\<rparr>) = same_ssl s s'"
  by (simp_all add: same_ssl_def)

lemma same_ssl_trans: "same_ssl s s' \<Longrightarrow> same_ssl s' t \<Longrightarrow> same_ssl s t"
  by (simp add: same_ssl_def)

lemma same_ssl_ok: "same_ssl s s' \<Longrightarrow> tls_ok s \<Longrightarrow> tls_ok s'"
  by (simp add: same_ssl_def tls_ok_def)

lemma tls_io_same: "tls_io f s = Some (r, s') \<Longrightarrow> same_ssl s s'"
  by (auto simp: tls_io_def)

lemma tls_time_same: "tls_millis X s = (m, s') \<Longrightarrow> same_ssl s s'" "same_ssl s (tls_yield X s)"
  by (auto simp: tls_millis_def tls_yield_def split: prod.splits)

lemma handshake_same: "handshake X h t limit s = Some s' \<Longrightarrow> same_ssl s s'"
proof (rule handshake.raw_induct [of "\<lambda>X h t limit s s'. same_ssl s s'"])
  fix loop X h t limit s s'
  assume ih: "\<And>X h t limit s s'. loop X h t limit s = Some s' \<Longrightarrow> same_ssl s s'"
    and eq: "(case tls_millis X s of (m, s) \<Rightarrow>
        if m - t < limit \<and> ssl_status X h s \<noteq> SSL_OK then
          Option.bind (tls_io (ssl_read X h) s) (\<lambda>((rc, _), s). if rc < SSL_OK then Some s else loop X h t limit s)
        else Some s) = Some s'"
  obtain m u where u: "tls_millis X s = (m, u)" by (cases "tls_millis X s")
  have "same_ssl u s'"
    using eq u ih by (auto simp: bind_eq_Some_conv split: if_splits dest!: tls_io_same intro: same_ssl_trans)
  then show "same_ssl s s'" using tls_time_same(1) [OF u] same_ssl_trans by blast
qed

text \<open>A context's contents change, its count stays.\<close>

lemma tls_ok_update:
  assumes "tls_ok s" and "sslctxs s a = Some c" and "ssl_refcnt d = ssl_refcnt c"
  shows "tls_ok (s\<lparr>sslctxs := (sslctxs s)(a \<mapsto> d)\<rparr>)"
  using assms tls.covered_update [of "sslctxs s" "ssl_of s" a c d] by (auto simp: tls_ok_def)

lemma same_sslD: "same_ssl s s' \<Longrightarrow> sslctxs s' = sslctxs s \<and> ssl_of s' = ssl_of s"
  by (simp add: same_ssl_def)

definition kept_ssl :: "('p, 'x) tls \<Rightarrow> ('p, 'x) tls \<Rightarrow> bool" where
  "kept_ssl s s' \<longleftrightarrow> (tls_ok s \<longrightarrow> tls_ok s') \<and> ssl_of s' = ssl_of s"

lemma kept_sslI: "same_ssl s s' \<Longrightarrow> kept_ssl s s'"
  by (auto simp: kept_ssl_def same_ssl_def tls_ok_def)

lemma kept_ssl_ok: "kept_ssl s s' \<Longrightarrow> tls_ok s \<Longrightarrow> tls_ok s'"
  by (simp add: kept_ssl_def)

lemma kept_ssl_trans: "kept_ssl s s' \<Longrightarrow> kept_ssl s' t \<Longrightarrow> kept_ssl s t"
  by (simp add: kept_ssl_def)

lemma kept_ssl_update:
  "sslctxs s a = Some c \<Longrightarrow> ssl_refcnt d = ssl_refcnt c \<Longrightarrow> kept_ssl s (s\<lparr>sslctxs := (sslctxs s)(a \<mapsto> d)\<rparr>)"
  using tls_ok_update by (auto simp: kept_ssl_def)

lemma readAll_kept:
  assumes "readAll X a s = Some (n, s')"
  shows "kept_ssl s s'"
proof -
  obtain c where c: "sslctxs s a = Some c" using assms by (auto simp: readAll_def bind_eq_Some_conv)
  have "\<exists>u d. same_ssl s u \<and> (s' = u \<or> s' = u\<lparr>sslctxs := (sslctxs u)(a \<mapsto> d)\<rparr> \<and> ssl_refcnt d = ssl_refcnt c)"
  proof (cases "ssl c")
    case None
    with assms c show ?thesis by (intro exI [of _ s]) (simp add: readAll_def)
  next
    case (Some h)
    then obtain rc d u where u: "tls_io (ssl_read X h) s = Some ((rc, d), u)"
      using assms c by (auto simp: readAll_def bind_eq_Some_conv)
    note su = tls_io_same [OF u]
    show ?thesis
    proof (cases "rc \<le> 0 \<and> rc < SSL_OK \<and> rc \<noteq> SSL_CLOSE_NOTIFY \<and> rc \<noteq> SSL_ERROR_CONN_LOST")
      case True
      then obtain r v where v: "tls_io (ssl_free X h) u = Some (r, v)"
        and s': "s' = v\<lparr>sslctxs := (sslctxs v)(a \<mapsto> c\<lparr>ssl := None\<rparr>)\<rparr>"
        using assms c Some u by (auto simp: readAll_def bind_eq_Some_conv)
      have "same_ssl s v" using su tls_io_same [OF v] by (rule same_ssl_trans)
      with s' show ?thesis by (intro exI [of _ v] exI [of _ "c\<lparr>ssl := None\<rparr>"]) simp
    next
      case False
      then have "s' = u \<or> s' = u\<lparr>sslctxs := (sslctxs u)(a \<mapsto> c\<lparr>read_buf := take (nat rc) d\<rparr>)\<rparr>"
        using assms c Some u by (auto simp: readAll_def split: if_splits)
      with su show ?thesis by (intro exI [of _ u] exI [of _ "c\<lparr>read_buf := take (nat rc) d\<rparr>"]) auto
    qed
  qed
  then obtain u d where u: "same_ssl s u" "s' = u \<or> s' = u\<lparr>sslctxs := (sslctxs u)(a \<mapsto> d)\<rparr> \<and> ssl_refcnt d = ssl_refcnt c"
    by blast
  have "sslctxs u a = Some c" using u(1) c by (simp add: same_ssl_def)
  then have "kept_ssl u s'" using u(2) kept_ssl_update [of u a c d] kept_sslI [of u u] by auto
  then show ?thesis using kept_sslI [OF u(1)] kept_ssl_trans by blast
qed

lemma fill_kept: "fill X a s = Some (n, s') \<Longrightarrow> kept_ssl s s'"
  by (auto simp: fill_def bind_eq_Some_conv kept_sslI split: if_splits dest: readAll_kept)

lemma kept_ssl_then_update:
  "kept_ssl s u \<Longrightarrow> sslctxs u a = Some c \<Longrightarrow> ssl_refcnt d = ssl_refcnt c
    \<Longrightarrow> kept_ssl s (u\<lparr>sslctxs := (sslctxs u)(a \<mapsto> d)\<rparr>)"
  by (rule kept_ssl_trans [OF _ kept_ssl_update])

lemma reads_kept:
  "SSLContext_read X sz a s = Some (d, s') \<Longrightarrow> kept_ssl s s'"
  "SSLContext_peek X a s = Some (b, s') \<Longrightarrow> kept_ssl s s'"
  "SSLContext_peekBytes X sz a s = Some (e, s') \<Longrightarrow> kept_ssl s s'"
  by (auto simp: SSLContext_read_def SSLContext_peek_def SSLContext_peekBytes_def
      bind_eq_Some_conv dest!: fill_kept intro: kept_ssl_then_update)

lemma read1_kept:
  assumes "SSLContext_read1 X a s = Some (b, s')"
  shows "kept_ssl s s'"
proof -
  obtain n u c where u: "fill X a s = Some (n, u)" "sslctxs u a = Some c"
    using assms by (auto simp: SSLContext_read1_def bind_eq_Some_conv)
  show ?thesis
    using assms u fill_kept [OF u(1)] kept_ssl_then_update [OF fill_kept [OF u(1)] u(2)]
    by (cases "read_buf c") (auto simp: SSLContext_read1_def)
qed

lemma at_ssl_kept:
  "at_ssl i d f s = Some (r, s') \<Longrightarrow> (\<And>a r s'. f a s = Some (r, s') \<Longrightarrow> kept_ssl s s') \<Longrightarrow> kept_ssl s s'"
  by (auto simp: at_ssl_def bind_eq_Some_conv kept_sslI split: option.splits)

lemma secure_reads_kept:
  "secure_read X i sz s = Some (w, s') \<Longrightarrow> kept_ssl s s'"
  "secure_read1 X i s = Some (b, s') \<Longrightarrow> kept_ssl s s'"
  "secure_peek X i s = Some (b, s') \<Longrightarrow> kept_ssl s s'"
  "secure_available X i s = Some (n, s') \<Longrightarrow> kept_ssl s s'"
  unfolding secure_read_def secure_read1_def secure_peek_def secure_available_def
  by (erule at_ssl_kept, erule reads_kept read1_kept fill_kept)+

lemma unref_ok:
  assumes "tls_ok s" and "ssl_of s i = Some (Some a)" and "ssl_unref X a s = Some s'"
  shows "tls_ok (s'\<lparr>ssl_of := (ssl_of s)(i \<mapsto> None)\<rparr>)" "ssl_of s' = ssl_of s"
proof -
  obtain c where c: "sslctxs s a = Some c" using assms(3) by (auto simp: ssl_unref_def bind_eq_Some_conv)
  let ?d = "c\<lparr>ssl_refcnt := ssl_refcnt c - 1\<rparr>"
  have r: "sslctxs s' = (if ssl_refcnt ?d = 0 then (sslctxs s)(a := None) else (sslctxs s)(a \<mapsto> ?d))
      \<and> ssl_of s' = ssl_of s \<and> fresh_ssl s' = fresh_ssl s"
    using assms(3) c
    by (auto simp: ssl_unref_def SSLContext_delete_def Let_def bind_eq_Some_conv same_ssl_def
        split: option.splits if_splits dest!: tls_io_same)
  then show "ssl_of s' = ssl_of s" by simp
  have "tls.covered (sslctxs s') ((ssl_of s)(i \<mapsto> None))"
    using tls.covered_release [of "sslctxs s" "ssl_of s" i a c ?d] assms(1,2) c r by (simp add: tls_ok_def)
  moreover have "\<forall>b \<ge> fresh_ssl s. sslctxs s' b = None" using assms(1) c r by (auto simp: tls_ok_def)
  ultimately show "tls_ok (s'\<lparr>ssl_of := (ssl_of s)(i \<mapsto> None)\<rparr>)" using r by (simp add: tls_ok_def)
qed

lemma drop_ssl_ok:
  assumes "tls_ok s" and "drop_ssl X i s = Some s'"
  shows "tls_ok s'" "ssl_of s' = (ssl_of s)(i \<mapsto> None)"
proof -
  obtain p where p: "ssl_of s i = Some p" using assms(2) by (auto simp: drop_ssl_def bind_eq_Some_conv)
  have "tls_ok s' \<and> ssl_of s' = (ssl_of s)(i \<mapsto> None)"
  proof (cases p)
    case None
    have "tls_ok (s\<lparr>ssl_of := (ssl_of s)(i \<mapsto> None)\<rparr>)"
      using assms(1) by (simp add: tls_ok_def tls.covered_forget)
    with assms(2) p None show ?thesis by (auto simp: drop_ssl_def)
  next
    case (Some a)
    then obtain u where u: "ssl_unref X a s = Some u" "s' = u\<lparr>ssl_of := (ssl_of u)(i \<mapsto> None)\<rparr>"
      using assms(2) p by (auto simp: drop_ssl_def bind_eq_Some_conv)
    with unref_ok [OF assms(1) _ u(1), of i] p Some show ?thesis by simp
  qed
  then show "tls_ok s'" "ssl_of s' = (ssl_of s)(i \<mapsto> None)" by blast+
qed

lemma ref_ok:
  assumes "tls_ok s" and "ssl_ref a (s\<lparr>ssl_of := (ssl_of s)(i \<mapsto> Some a)\<rparr>) = Some s'"
  shows "tls_ok s'"
  using assms by (auto simp: ssl_ref_def bind_eq_Some_conv tls_ok_def intro!: tls.covered_acquire)


lemma SSLContext_connect_kept:
  assumes "SSLContext_connect X a c hostName limit s = Some s'"
  shows "kept_ssl s s'"
proof -
  let ?s = "s\<lparr>io_ctx := c\<rparr>"
  obtain d h u where d: "sslctxs s a = Some d"
    and u: "tls_io (ssl_client_new X (ssl_ctx ?s) hostName) ?s = Some (h, u)"
    using assms by (auto simp: SSLContext_connect_def bind_eq_Some_conv)
  let ?u = "u\<lparr>sslctxs := (sslctxs u)(a \<mapsto> d\<lparr>ssl := Some h\<rparr>)\<rparr>"
  obtain t v where v: "tls_millis X ?u = (t, v)" by (cases "tls_millis X ?u")
  have "handshake X h t limit v = Some s'"
    using assms d u v by (simp add: SSLContext_connect_def)
  then have "kept_ssl ?u s'"
    using kept_ssl_trans kept_sslI tls_time_same(1) [OF v] handshake_same by blast
  moreover have "kept_ssl s u" using kept_sslI [OF tls_io_same [OF u]] kept_sslI [of s ?s] kept_ssl_trans by fastforce
  moreover have "sslctxs u a = Some d" using tls_io_same [OF u] d by (simp add: same_ssl_def)
  ultimately show ?thesis using kept_ssl_trans kept_ssl_then_update [of s u a d "d\<lparr>ssl := Some h\<rparr>"] by fastforce
qed

lemma connectSSL_ok:
  assumes "tls_ok s" and "connectSSL X i hostName s = Some (r, s')"
  shows "tls_ok s'"
proof -
  obtain u where u: "drop_ssl X i s = Some u" using assms(2) by (auto simp: connectSSL_def bind_eq_Some_conv)
  obtain a v where v: "SSLContext_new X u = (a, v)" by (cases "SSLContext_new X u")
  have ok: "tls_ok u" using drop_ssl_ok(1) [OF assms(1) u] .
  then have "sslctxs u (fresh_ssl u) = None" by (simp add: tls_ok_def)
  then have "tls.covered ((sslctxs u)(fresh_ssl u \<mapsto> \<lparr>ssl = None, ssl_refcnt = 0, read_buf = []\<rparr>)) (ssl_of u)"
    using ok by (intro tls.covered_new) (simp_all add: tls_ok_def)
  then have "tls_ok v" using ok v
    by (cases "ssl_ctx_refcnt u = 0") (auto simp: SSLContext_new_def tls_ok_def Let_def split: prod.splits)
  moreover obtain w where w: "ssl_ref a (v\<lparr>ssl_of := (ssl_of v)(i \<mapsto> Some a)\<rparr>) = Some w"
    using assms(2) u v by (auto simp: connectSSL_def bind_eq_Some_conv)
  ultimately have okw: "tls_ok w" by (rule ref_ok)
  obtain c x where x: "SSLContext_connect X a c hostName 5000 w = Some x"
    and s': "s' = x \<or> drop_ssl X i x = Some s'"
    using assms(2) u v w by (auto simp: connectSSL_def bind_eq_Some_conv split: if_splits)
  have "tls_ok x" using okw SSLContext_connect_kept [OF x] by (simp add: kept_ssl_def)
  with s' show ?thesis using drop_ssl_ok(1) by auto
qed


lemma secure_wait_kept: "secure_wait X i len t limit s = Some s' \<Longrightarrow> kept_ssl s s'"
proof (rule secure_wait.raw_induct [of "\<lambda>X i len t limit s s'. kept_ssl s s'"])
  fix loop X i len t limit s s'
  assume ih: "\<And>X i len t limit s s'. loop X i len t limit s = Some s' \<Longrightarrow> kept_ssl s s'"
    and eq: "Option.bind (secure_available X i s) (\<lambda>(n, s).
        if n < len then (case tls_millis X s of (m, s) \<Rightarrow>
          if m - t < limit then loop X i len t limit (tls_yield X s) else Some s)
        else Some s) = Some s'"
  then obtain n u where u: "secure_available X i s = Some (n, u)" by (auto simp: bind_eq_Some_conv)
  obtain m v where v: "tls_millis X u = (m, v)" by (cases "tls_millis X u")
  have uv: "kept_ssl u v" "kept_ssl v (tls_yield X v)"
    using tls_time_same(1) [OF v] tls_time_same(2) kept_sslI by blast+
  have "s' = u \<or> s' = v \<or> kept_ssl (tls_yield X v) s'"
    using eq u v ih by (auto split: if_splits)
  then have "kept_ssl u s'" using uv kept_sslI [of u u] kept_ssl_trans by (metis same_ssl_simps(1))
  then show "kept_ssl s s'" using secure_reads_kept(4) [OF u] kept_ssl_trans by blast
qed (auto)

lemma secure_peekBytes_kept:
  assumes "secure_peekBytes X i len limit s = Some (r, s')"
  shows "kept_ssl s s'"
  using assms unfolding secure_peekBytes_def
proof (rule at_ssl_kept)
  fix a r s s'
  assume eq: "do {
      let (t, s) = tls_millis X s;
      s \<leftarrow> secure_wait X i len t limit s;
      at_ssl i (0, []) (\<lambda>a s. do {
        (n, s) \<leftarrow> secure_available X i s;
        (count, s) \<leftarrow> (if n < len then secure_available X i s else Some (len, s));
        SSLContext_peekBytes X count a s }) s } = Some (r, s')"
  obtain t u where u: "tls_millis X s = (t, u)" by (cases "tls_millis X s")
  with eq obtain v where v: "secure_wait X i len t limit u = Some v" by (auto simp: bind_eq_Some_conv)
  have "kept_ssl v s'" if looked: "do {
      (n, s) \<leftarrow> secure_available X i v;
      (count, s) \<leftarrow> (if n < len then secure_available X i s else Some (len, s));
      SSLContext_peekBytes X count a s } = Some (r, s')" for a r s'
  proof -
    obtain n w where w: "secure_available X i v = Some (n, w)"
      using looked by (auto simp: bind_eq_Some_conv)
    with looked obtain m z where z: "w = z \<or> secure_available X i w = Some (m, z)"
      "SSLContext_peekBytes X m a z = Some (r, s')"
      by (cases "n < len") (auto simp: bind_eq_Some_conv)
    have "kept_ssl w z" using z(1) secure_reads_kept(4) kept_sslI [of w w] by auto
    with secure_reads_kept(4) [OF w] reads_kept(3) [OF z(2)] show ?thesis using kept_ssl_trans by blast
  qed
  then have "kept_ssl v s'"
    using eq u v by (auto intro: at_ssl_kept [of i "(0, [])" _ v r])
  then show "kept_ssl s s'"
    using kept_sslI [OF tls_time_same(1) [OF u]] secure_wait_kept [OF v] kept_ssl_trans by blast
qed

lemma secure_write_ok:
  assumes "tls_ok s" and "secure_write X i d s = Some (r, s')"
  shows "tls_ok s'"
proof -
  have "s' = s \<or> (\<exists>u. same_ssl s u \<and> (s' = u \<or> drop_ssl X i u = Some s'))"
    using assms(2) by (auto simp: secure_write_def at_ssl_def bind_eq_Some_conv
        split: option.splits if_splits dest!: tls_io_same)
  then show ?thesis using assms(1) same_ssl_ok drop_ssl_ok(1) by blast
qed

lemma secure_connected_kept: "secure_connected X L i s = Some (r, s') \<Longrightarrow> kept_ssl s s'"
  unfolding secure_connected_def
  by (erule at_ssl_kept) (auto simp: bind_eq_Some_conv split: option.splits if_splits dest!: fill_kept)

lemma stop_same: "secure_stop L i s = Some s' \<Longrightarrow> same_ssl s s'"
  by (auto simp: secure_stop_def SSLContext_stop_def bind_eq_Some_conv split: option.splits)

lemma secure_connect_ok:
  assumes "tls_ok s" and "secure_connect X L i route pcb_new p g hostName s = Some (r, s')"
  shows "tls_ok s'"
proof -
  obtain c u where u: "(if c \<noteq> None then secure_stop L i s else Some s) = Some u" "clients (tcp s) i = Some c"
    using assms(2) by (auto simp: secure_connect_def bind_eq_Some_conv)
  then have "tls_ok u" using assms(1) same_ssl_ok [OF stop_same [of L i s u]] by (auto split: if_splits)
  moreover obtain q n where "client_connect L i route pcb_new p g (tcp u) = Some (q, n)"
    using assms(2) u by (auto simp: secure_connect_def bind_eq_Some_conv)
  moreover have "tls_ok (u\<lparr>tcp := n\<rparr>)" using \<open>tls_ok u\<close> by (simp add: tls_ok_def)
  ultimately show ?thesis using assms(2) u connectSSL_ok
    by (auto simp: secure_connect_def Let_def split: if_splits)
qed

lemma take_ssl_ok:
  assumes "tls_ok s"
    and "(case p of None \<Rightarrow> Some (s\<lparr>ssl_of := (ssl_of s)(i \<mapsto> p)\<rparr>)
      | Some a \<Rightarrow> ssl_ref a (s\<lparr>ssl_of := (ssl_of s)(i \<mapsto> p)\<rparr>)) = Some s'"
  shows "tls_ok s'"
proof (cases p)
  case None
  with assms show ?thesis by (auto simp: tls_ok_def tls.covered_forget)
next
  case (Some a)
  with assms(2) ref_ok [OF assms(1), of a i s'] show ?thesis by simp
qed

lemma secure_copy_ok:
  assumes "tls_ok s" and "secure_copy i j s = Some s' \<or> secure_assign L i j s = Some s'"
  shows "tls_ok s'"
proof -
  obtain n and p :: "nat option" where p: "(case p of None \<Rightarrow> Some (s\<lparr>tcp := n, ssl_of := (ssl_of s)(i \<mapsto> p)\<rparr>)
      | Some a \<Rightarrow> ssl_ref a (s\<lparr>tcp := n, ssl_of := (ssl_of s)(i \<mapsto> p)\<rparr>)) = Some s'"
    using assms(2) by (auto simp: secure_copy_def secure_assign_def Let_def bind_eq_Some_conv)
  have "tls_ok (s\<lparr>tcp := n\<rparr>)" using assms(1) by (simp add: tls_ok_def)
  from take_ssl_ok [OF this, where p = p and i = i and s' = s'] p show ?thesis by (cases p) simp_all
qed

lemma secure_destroy_ok:
  assumes "tls_ok s" and "secure_destroy X L i s = Some s'"
  shows "tls_ok s'"
proof -
  obtain p u v n where p: "ssl_of s i = Some p"
    and u: "(case p of None \<Rightarrow> Some s | Some a \<Rightarrow> ssl_unref X a s) = Some u"
    and v: "same_ssl u v" "s' = v\<lparr>tcp := n, ssl_of := (ssl_of v)(i := None)\<rparr>"
  proof -
    obtain p u where p: "ssl_of s i = Some p" "(case p of None \<Rightarrow> Some s | Some a \<Rightarrow> ssl_unref X a s) = Some u"
      using assms(2) by (auto simp: secure_destroy_def bind_eq_Some_conv)
    let ?u = "u\<lparr>s_pk_refcnt := s_pk_refcnt u - 1\<rparr>"
    obtain v n where v: "(if s_pk_refcnt ?u = 0 then do {
            k \<leftarrow> clear_credential (private_key ?u);
            c \<leftarrow> clear_credential (certificate ?u);
            Some (?u\<lparr>private_key := k, certificate := c\<rparr>) }
          else Some ?u) = Some v" and n: "s' = v\<lparr>tcp := n, ssl_of := (ssl_of v)(i := None)\<rparr>"
      using assms(2) p by (auto simp: secure_destroy_def Let_def bind_eq_Some_conv split: if_splits)
    from v have "same_ssl u v" by (auto simp: bind_eq_Some_conv split: if_splits)
    with p n show thesis by (intro that) auto
  qed
  have "tls_ok (u\<lparr>ssl_of := (ssl_of u)(i := None)\<rparr>)"
  proof (cases p)
    case None
    with assms(1) u show ?thesis by (auto simp: tls_ok_def tls.covered_forget)
  next
    case (Some a)
    with u p unref_ok [OF assms(1), of i a X u] tls.covered_forget(2) [of "sslctxs u" "(ssl_of s)(i \<mapsto> None)" i]
    show ?thesis by (simp add: tls_ok_def)
  qed
  with v show ?thesis by (simp add: same_ssl_def tls_ok_def)
qed

section \<open>Reachable states\<close>

inductive secure_step :: "('p, 'x) axtls \<Rightarrow> 'p lwip \<Rightarrow> ('p, 'x) tls \<Rightarrow> ('p, 'x) tls \<Rightarrow> bool" for X L where
  new: "ssl_of s i = None \<Longrightarrow> secure_step X L s (secure_new i s)"
| copy: "ssl_of s i = None \<Longrightarrow> secure_copy i j s = Some s' \<Longrightarrow> secure_step X L s s'"
| assign: "secure_assign L i j s = Some s' \<Longrightarrow> secure_step X L s s'"
| destroy: "secure_destroy X L i s = Some s' \<Longrightarrow> secure_step X L s s'"
| connect: "secure_connect X L i route pcb_new p g name s = Some (r, s') \<Longrightarrow> secure_step X L s s'"
| connect_host: "secure_connect_host X L i name addr up pcb_new p g s = Some (r, s') \<Longrightarrow> secure_step X L s s'"
| send_data: "secure_write X i d s = Some (n, s') \<Longrightarrow> secure_step X L s s'"
| read: "secure_read X i sz s = Some (d, s') \<Longrightarrow> secure_step X L s s'"
| read1: "secure_read1 X i s = Some (b, s') \<Longrightarrow> secure_step X L s s'"
| peek: "secure_peek X i s = Some (b, s') \<Longrightarrow> secure_step X L s s'"
| peekBytes: "secure_peekBytes X i len limit s = Some (e, s') \<Longrightarrow> secure_step X L s s'"
| available: "secure_available X i s = Some (n, s') \<Longrightarrow> secure_step X L s s'"
| connected: "secure_connected X L i s = Some (c, s') \<Longrightarrow> secure_step X L s s'"
| stop: "secure_stop L i s = Some s' \<Longrightarrow> secure_step X L s s'"
| set_cert: "setCertificate d sz s = Some s' \<Longrightarrow> secure_step X L s s'"
| set_key: "setPrivateKey d sz s = Some s' \<Longrightarrow> secure_step X L s s'"
| load_cert: "loadCertificate w sz s = Some (c, s') \<Longrightarrow> secure_step X L s s'"
| load_key: "loadPrivateKey w sz s = Some (c, s') \<Longrightarrow> secure_step X L s s'"
| port_read: "ax_port_read L n s = Some (e, s') \<Longrightarrow> secure_step X L s s'"
| port_write: "ax_port_write L d es s = Some (r, s') \<Longrightarrow> secure_step X L s s'"

lemma credential_same:
  "setCertificate d sz s = Some s' \<Longrightarrow> same_ssl s s'" "setPrivateKey d sz s = Some s' \<Longrightarrow> same_ssl s s'"
  "loadCertificate w sz s = Some (c, s') \<Longrightarrow> same_ssl s s'" "loadPrivateKey w sz s = Some (c, s') \<Longrightarrow> same_ssl s s'"
  by (auto simp: setCertificate_def setPrivateKey_def loadCertificate_def loadPrivateKey_def)

lemma port_same:
  "ax_port_read L n s = Some (e, s') \<Longrightarrow> same_ssl s s'" "ax_port_write L d es s = Some (r, s') \<Longrightarrow> same_ssl s s'"
  by (auto simp: ax_port_read_def ax_port_write_def bind_eq_Some_conv split: option.splits if_splits prod.splits)

lemmas keeping = secure_reads_kept secure_peekBytes_kept secure_connected_kept
  stop_same [THEN kept_sslI] credential_same [THEN kept_sslI] port_same [THEN kept_sslI]

lemma secure_step_ok: "secure_step X L s s' \<Longrightarrow> tls_ok s \<Longrightarrow> tls_ok s'"
proof (induction rule: secure_step.induct)
  case (new s i)
  then show ?case by (simp add: secure_new_def tls_ok_def tls.covered_forget)
next
  case (connect_host i name addr up pcb_new p g s r s')
  then show ?case by (auto simp: secure_connect_host_def split: option.splits intro: secure_connect_ok)
qed (blast intro: kept_ssl_ok keeping secure_copy_ok secure_destroy_ok secure_write_ok secure_connect_ok)+

lemma tls_run_ok: "(secure_step X L)\<^sup>*\<^sup>* s s' \<Longrightarrow> tls_ok s \<Longrightarrow> tls_ok s'"
  by (induction rule: rtranclp.induct) (auto dest: secure_step_ok)

lemma tls_init_ok: "tls_ok (tls_init n x)"
  by (simp add: tls_ok_def tls_init_def tls.covered_empty)

section \<open>A small library\<close>

definition demo_axtls :: "('p, nat) axtls" where
  "demo_axtls = \<lparr>ssl_ctx_new = (\<lambda>x. (0, x)), ssl_ctx_free = (\<lambda>_ x. x), ssl_client_new = (\<lambda>_ _ _ (n, x). Some (7, n, x)),
     ssl_handshake_status = (\<lambda>_ x. if x = 0 then 1 else 0), ssl_read = (\<lambda>_ _ (n, x). Some ((0, []), n, x + 1)),
     ssl_write = (\<lambda>_ d _ (n, x). Some (int (length d), n, x)), ssl_free = (\<lambda>_ _ (n, x). Some ((), n, x)),
     ssl_match_fingerprint = (\<lambda>_ sha1 _. if sha1 = replicate 20 0xAB then 0 else 1),
     ssl_get_cert_subject_alt_dnsname = (\<lambda>_ k _. if k < 1 then Some ''*.example.org'' else None),
     ssl_get_cert_dn = (\<lambda>_ _. Some ''example.org''),
     sys_millis = (\<lambda>x. (of_nat x, x)), sys_yield = (\<lambda>q. q)\<rparr>"

definition demo_secure :: "(nat, nat) tls" where
  "demo_secure = snd (the (secure_connect demo_axtls counting_lwip 3 True True (Some 0) 0 (Some ''www.example.org'')
     (secure_new 3 (tls_init net_init 0))))"

lemmas demo_secure_simps = demo_secure_def secure_connect_def secure_new_def tls_init_def client_new_def net_init_def
  client_connect_def client_connected_cb_def new_ctx_def ctx_ref_def ClientContext_def connectSSL_def drop_ssl_def
  SSLContext_new_def ssl_ref_def SSLContext_connect_def tls_io_def tls_millis_def ssl_status_def handshake.simps
  SSL_OK_def demo_axtls_def

lemma demo_secure_connects:
  "secure_connect demo_axtls counting_lwip 3 True True (Some 0) 0 (Some ''www.example.org'')
     (secure_new 3 (tls_init net_init 0)) = Some (1, demo_secure)"
  by (simp add: demo_secure_simps)

lemma demo_secure_is:
  "ssl_of demo_secure = [3 \<mapsto> Some 0]" "sslctxs demo_secure 0 = Some \<lparr>ssl = Some 7, ssl_refcnt = 1, read_buf = []\<rparr>"
  "clients (tcp demo_secure) 3 = Some (Some 0)" "io_ctx demo_secure = Some 0" "s_pk_refcnt demo_secure = 1"
  "ctxs (tcp demo_secure) 0 = Some ((ClientContext 0 0)\<lparr>refcnt := 1\<rparr>)"
  by (simp_all add: demo_secure_simps)

lemma demo_secure_run: "(secure_step demo_axtls counting_lwip)\<^sup>*\<^sup>* (tls_init net_init 0) demo_secure"
proof -
  have "secure_step demo_axtls counting_lwip (tls_init net_init 0) (secure_new 3 (tls_init net_init 0))"
    by (rule secure_step.new) (simp add: tls_init_def)
  from rtranclp.intros(2) [OF r_into_rtranclp [of "secure_step demo_axtls counting_lwip", OF this] secure_step.connect [OF demo_secure_connects]]
  show ?thesis .
qed

section \<open>Properties\<close>

text \<open>C39: the check of a server is exact: with a fingerprint written as twenty hexadecimal bytes, in either
  case and with any spaces and colons before each, \<open>verify\<close> returns, and accepts if and only if the
  library finds the fingerprint right and one of the names of the certificate, an alternative name or the
  common name, is the domain in small letters or a wildcard for its first label.\<close>

theorem verify_exact:
  assumes "ssl_of s i = Some (Some a)" and "sslctxs s a = Some c" and "ssl c = Some h"
    and "length sha1 = 20" and "length styles = 20" and "\<forall>(sep, u) \<in> set styles. \<forall>c \<in> set sep. separator c"
    and "\<And>k. ssl_get_cert_subject_alt_dnsname X h k (ax s) = (if k < length names then Some (names ! k) else None)"
    and "\<forall>n \<in> set names \<union> set_option (ssl_get_cert_dn X h (ax s)). length n < 2 ^ 32"
    and "length domain < 2 ^ 32"
  shows "secure_verify X i (fingerprint_text styles sha1 @ more_text) (Some domain) s
    = Some (ssl_match_fingerprint X h sha1 (ax s) = 0
        \<and> (\<exists>n \<in> set names \<union> set_option (ssl_get_cert_dn X h (ax s)). covers_name n (map to_lower domain)))"
proof -
  have p: "parse_fingerprint 20 (fingerprint_text styles sha1 @ more_text) = Some sha1"
    using parse_fingerprint_text [of styles sha1 more_text] assms(4-6) by simp
  have "matchName n (map to_lower domain) = covers_name n (map to_lower domain)"
    if "n \<in> set names \<union> set_option (ssl_get_cert_dn X h (ax s))" for n
    using matchName_covers [of n "map to_lower domain"] that assms(8,9) by auto
  then show ?thesis
    using assms(1-3) p alt_names_scan [of X h "ax s" names 0, OF assms(7)]
    by (auto simp: secure_verify_def Let_def split: option.splits)
qed

lemma verify_exact_witness:
  "secure_verify demo_axtls 3 (fingerprint_text (replicate 20 ('':'', True, False)) (replicate 20 171)) (Some ''WWW.example.org'')
     demo_secure = Some True"
proof -
  have "map to_lower ''WWW.example.org'' = ''www.example.org''" by code_simp
  then have c: "covers_name ''*.example.org'' (map to_lower ''WWW.example.org'')"
    by (simp only: covers_name_def) (auto intro!: exI [of _ "''www''"])
  have n: "ssl_get_cert_subject_alt_dnsname demo_axtls 7 k (ax demo_secure)
      = (if k < length [''*.example.org''] then Some ([''*.example.org''] ! k) else None)" for k
    by (simp add: demo_axtls_def)
  have d: "ssl_get_cert_dn demo_axtls 7 (ax demo_secure) = Some ''example.org''"
    "ssl_match_fingerprint demo_axtls 7 (replicate 20 171) (ax demo_secure) = 0"
    by (simp_all add: demo_axtls_def)
  show ?thesis
    using verify_exact [OF _ _ _ _ _ _ n, of 3 0 _ "replicate 20 171" "replicate 20 ('':'', True, False)" "''WWW.example.org''" "[]"]
      c by (simp add: d demo_secure_is separator_def del: list.map)
qed

text \<open>C40: whatever clients are made, copied, assigned, connected, used and destroyed, whatever the TLS
  library answers: a client's \<open>_ssl\<close> never points to a deleted context, and the count of its context
  is at least the number of clients that point to it.\<close>

theorem ssl_pointers_live:
  assumes "(secure_step X L)\<^sup>*\<^sup>* (tls_init n x) s" and "ssl_of s i = Some (Some a)"
  shows "\<exists>c. sslctxs s a = Some c \<and> 1 \<le> int (card {j. ssl_of s j = Some (Some a)})
     \<and> int (card {j. ssl_of s j = Some (Some a)}) \<le> ssl_refcnt c"
proof -
  have ok: "tls.covered (sslctxs s) (ssl_of s)" using tls_run_ok [OF assms(1) tls_init_ok] by (simp add: tls_ok_def)
  then have "finite (tls.holders (ssl_of s) a)" by (auto simp: tls.covered_def intro: tls.finite_holders)
  moreover have "i \<in> tls.holders (ssl_of s) a" using assms(2) by (simp add: tls.holders_def)
  ultimately have "card (tls.holders (ssl_of s) a) \<noteq> 0" by (metis card_0_eq empty_iff)
  then show ?thesis using tls.covered_live [OF ok assms(2)] tls.covered_count [OF ok]
    by (force simp: tls.holders_def)
qed

lemma ssl_pointers_live_witness: "\<exists>c. sslctxs demo_secure 0 = Some c \<and> 1 \<le> ssl_refcnt c"
  using ssl_pointers_live [OF demo_secure_run, of 3 0] by (force simp: demo_secure_is)

text \<open>A successful connection has a completed handshake; an unsuccessful one leaves no context behind.\<close>

theorem connectSSL_result:
  assumes "connectSSL X i hostName s = Some (r, s')"
  shows "r = 1 \<and> (\<exists>a. ssl_of s' i = Some (Some a) \<and> SSLContext_connected X a s' = Some True)
    \<or> r = 0 \<and> ssl_of s' i = Some None"
proof -
  obtain u where u: "drop_ssl X i s = Some u" using assms by (auto simp: connectSSL_def bind_eq_Some_conv)
  obtain a v where v: "SSLContext_new X u = (a, v)" by (cases "SSLContext_new X u")
  obtain w where w: "ssl_ref a (v\<lparr>ssl_of := (ssl_of v)(i \<mapsto> Some a)\<rparr>) = Some w"
    using assms u v by (auto simp: connectSSL_def bind_eq_Some_conv)
  obtain c x y h where x: "SSLContext_connect X a c hostName 5000 w = Some x" "sslctxs x a = Some y" "ssl y = Some h"
    and s': "(if ssl_status X h x \<noteq> SSL_OK then map_option (Pair 0) (drop_ssl X i x) else Some (1, x)) = Some (r, s')"
    using assms u v w by (auto simp: connectSSL_def bind_eq_Some_conv)
  have "ssl_of w i = Some (Some a)" using w by (auto simp: ssl_ref_def bind_eq_Some_conv)
  then have "ssl_of x i = Some (Some a)" using SSLContext_connect_kept [OF x(1)] by (simp add: kept_ssl_def)
  then show ?thesis
    using s' x(2,3) by (auto simp: SSLContext_connected_def drop_ssl_def bind_eq_Some_conv split: if_splits)
qed

lemma connectSSL_result_witness:
  "\<exists>a. ssl_of demo_secure 3 = Some (Some a) \<and> SSLContext_connected demo_axtls a demo_secure = Some True"
proof -
  obtain u where "connectSSL demo_axtls 3 (Some ''www.example.org'') u = Some (1, demo_secure)"
    using demo_secure_connects by (auto simp: secure_connect_def bind_eq_Some_conv Let_def split: if_splits)
  from connectSSL_result [OF this] show ?thesis by simp
qed

text \<open>The count may be too high: assignment does not release the context that the client had.\<close>

theorem assign_leaks:
  assumes "secure_assign L i j s = Some s'" and "ssl_of s i = Some (Some b)" and "ssl_of s j = Some p" and "p \<noteq> Some b"
  shows "sslctxs s' b = sslctxs s b \<and> ssl_of s' i = Some p"
  using assms by (auto simp: secure_assign_def ssl_ref_def Let_def bind_eq_Some_conv split: option.splits)

lemma assign_leaks_witness:
  "\<exists>s'. secure_assign counting_lwip 3 4 (secure_new 4 demo_secure) = Some s'
    \<and> sslctxs s' 0 = Some \<lparr>ssl = Some 7, ssl_refcnt = 1, read_buf = []\<rparr> \<and> ssl_of s' 3 = Some None"
proof -
  obtain s' where s': "secure_assign counting_lwip 3 4 (secure_new 4 demo_secure) = Some s'"
    by (simp add: demo_secure_simps secure_assign_def client_assign_def ctx_unref_def)
  from assign_leaks [OF s', of 0 None] s' show ?thesis by (simp add: secure_new_def demo_secure_is)
qed

text \<open>A copy is not counted as a user of the private key, but its destruction is: the key and the
  certificate are gone while the original lives.\<close>

theorem copy_clears_key:
  assumes "ssl_of s i = Some p" and "i \<noteq> j" and "s_pk_refcnt s = 1"
    and "secure_copy j i s = Some s1" and "secure_destroy X L j s1 = Some s2"
  shows "cred_data (private_key s2) = No_data \<and> cred_data (certificate s2) = No_data \<and> ssl_of s2 i = Some p"
proof -
  have s1: "s_pk_refcnt s1 = 1" "ssl_of s1 = (ssl_of s)(j \<mapsto> p)"
    using assms(1,3,4) by (auto simp: secure_copy_def ssl_ref_def Let_def bind_eq_Some_conv split: option.splits)
  obtain u where u: "(case p of None \<Rightarrow> Some s1 | Some a \<Rightarrow> ssl_unref X a s1) = Some u"
    using assms(5) s1 by (auto simp: secure_destroy_def bind_eq_Some_conv)
  have "s_pk_refcnt u = 1 \<and> ssl_of u = ssl_of s1"
    using u s1(1) by (auto simp: ssl_unref_def SSLContext_delete_def tls_io_def Let_def bind_eq_Some_conv
        split: option.splits if_splits)
  then show ?thesis
    using assms(1,2,5) s1 u
    by (auto simp: secure_destroy_def Let_def bind_eq_Some_conv clear_credential_def split: if_splits)
qed

lemma copy_clears_key_witness:
  "\<exists>s1 s2. secure_copy 4 3 (the (setPrivateKey ''key'' 3 demo_secure)) = Some s1
    \<and> secure_destroy demo_axtls counting_lwip 4 s1 = Some s2 \<and> cred_data (private_key s2) = No_data"
proof -
  let ?s = "the (setPrivateKey ''key'' 3 demo_secure)"
  have "\<exists>s1 s2. secure_copy 4 3 ?s = Some s1 \<and> secure_destroy demo_axtls counting_lwip 4 s1 = Some s2"
    by (simp add: demo_secure_simps setPrivateKey_def set_credential_def clear_credential_def no_credential_def
        secure_copy_def secure_destroy_def client_copy_def ssl_unref_def client_destroy_def ctx_unref_def
        slist_add_def slist_remove_def slist_empty_def)
  then obtain s1 s2 where s: "secure_copy 4 3 ?s = Some s1" "secure_destroy demo_axtls counting_lwip 4 s1 = Some s2"
    by blast
  have "ssl_of ?s 3 = Some (Some 0)" "s_pk_refcnt ?s = 1"
    by (simp_all add: demo_secure_simps setPrivateKey_def set_credential_def clear_credential_def no_credential_def)
  with copy_clears_key [OF _ _ _ s, of "Some 0"] s show ?thesis by auto
qed

text \<open>The ports keep the connection that was used last: when its client is assigned another one it is
  closed and deleted, and the next use of any session reads freed memory.\<close>

theorem assign_dangling:
  assumes "secure_assign L i j s = Some s'" and "clients (tcp s) i = Some (Some b)" and "clients (tcp s) j = Some q"
    and "q \<noteq> Some b" and "ctxs (tcp s) b = Some c" and "refcnt c = 1" and "io_ctx s = Some b"
  shows "ax_port_read L n s' = None \<and> ax_port_write L d es s' = None"
proof -
  have "i \<noteq> j" using assms(2-4) by auto
  obtain m where m: "client_assign L i j (tcp s) = Some m" and t: "tcp s' = m" "io_ctx s' = Some b"
    using assms(1,7) by (auto simp: secure_assign_def ssl_ref_def Let_def bind_eq_Some_conv split: option.splits)
  have "ctxs m b = None"
    using m assms(2-6) \<open>i \<noteq> j\<close>
    by (auto simp: client_assign_def ctx_unref_def ctx_ref_def Let_def split: option.splits if_splits)
  with t show ?thesis by (simp add: ax_port_read_def ax_port_write_def)
qed

lemma assign_dangling_witness:
  "\<exists>s'. secure_assign counting_lwip 3 4 (secure_new 4 demo_secure) = Some s' \<and> ax_port_read counting_lwip 1 s' = None"
proof -
  obtain s' where s': "secure_assign counting_lwip 3 4 (secure_new 4 demo_secure) = Some s'"
    by (simp add: demo_secure_simps secure_assign_def client_assign_def ctx_unref_def)
  from assign_dangling [OF s', of 0 None] s' show ?thesis
    by (simp add: secure_new_def client_new_def demo_secure_is ClientContext_def)
qed

text \<open>A connection that fails before the handshake has detached the ports from the old connection.\<close>

lemma failed_connect_detached:
  assumes "secure_connect X L i False pcb_new established garbage hostName s = Some (r, s')"
    and "clients (tcp s) i = Some (Some b)" and "ssl_of s i = Some (Some a)"
  shows "r = 0 \<and> io_ctx s' = None \<and> clients (tcp s') i = Some None \<and> ssl_of s' i = Some (Some a)"
  using assms by (auto simp: secure_connect_def secure_stop_def SSLContext_stop_def client_connect_def client_stop_def
      Let_def bind_eq_Some_conv split: if_splits)

end
