(* ===== verification/Spec2Isabelle.thy ===== *)
theory Spec2Isabelle
  imports Time_Clock Time_Strings Logger_Typed Wifi_Server Ntp_Client Wifi_Ap Wifi_Scan
    Wifi_Secure
begin

text \<open>
  A verification library of ESPLog, an S0 energy-meter data logger for the ESP8266, and of the
  Arduino libraries that its repository carries.

  \<^bold>\<open>The program.\<close> An interrupt counts the pulses of an energy meter. The sketch (\<open>src/*.ino\<close>)
  turns the pulses of every five minutes into watt hours, keeps a table of daily yields and a list
  of output values, stores the table and the settings in an emulated EEPROM, keeps the time from
  an NTP server, serves web pages, takes file uploads and firmware updates, and reports to a home
  automation server. Below it lie \<open>src/EEPROM\<close>, \<open>src/Time\<close>, \<open>src/EasyNTPClient\<close>,
  \<open>src/ESP8266WebServer\<close>, \<open>src/ESP8266HTTPUpdateServer\<close> and \<open>src/ESP8266WiFi\<close>.

  \<^bold>\<open>Conventions.\<close> One theory models one part, in the order of the code and under the code's names.
  A class or a group of static variables is a record, a method a function from the state to the
  result and the new state. An access outside an array, a null or freed pointer, undefined
  behaviour and a loop that does not end are the value \<open>None\<close> of an \<open>option\<close>; a theorem that the
  code returns states \<open>Some\<close>. \<open>int\<close> and \<open>long\<close> are 32 bits wide: \<open>u32\<close>, \<open>u16\<close> and \<open>u8\<close> are words,
  \<open>float\<close> is its IEEE bit pattern (\<open>Float32\<close>). What is not in the repository is a parameter: a
  record of functions (flash driver, lwIP, lower network, SDK, file system, \<open>dtostrf\<close>, base 64, the
  time macros of \<open>TimeLib.h\<close>), with what the code relies on as a named hypothesis, and every
  property with a hypothesis is applied to a concrete instance by its witness. The contents of
  uninitialised memory are arguments. The debug output is compiled out (\<open>DEBUG\<close> is 0), and
  \<open>delay\<close>, \<open>yield\<close> and the watchdog change no modelled state; where events arrive during a wait, the
  wait takes a list of them.

  \<^bold>\<open>Shared theories.\<close> \<open>ESP_Prelude\<close>: truncation to a width, bytes of a word, blocks of a byte list,
  array access with a bound, the collection \<open>byte_simps\<close>. \<open>Float32\<close>: decoding, rounding and
  arithmetic of \<open>float\<close> and \<open>double\<close>; whole numbers below 2^24 are exact (\<open>is_nat\<close>).
  \<open>Arduino_String\<close>: the methods of \<open>String\<close> that the code calls, with the unsigned indices of
  theirs.

  \<^bold>\<open>Time\<close> (\<open>src/Time/Time.cpp\<close>, \<open>DateStrings.cpp\<close>). \<open>Time_Calendar\<close>: \<open>breakTime\<close> and \<open>makeTime\<close>
  against the civil calendar, and inverse to each other. \<open>Time_Clock\<close>: the static clock and element
  cache, \<open>now\<close> and its synchronisation; the loop of \<open>now\<close> is a partial function shown to return
  whenever the millisecond counter moves by less than a second between two readings.
  \<open>Time_Strings\<close>: the name tables and their shared buffer.

  \<^bold>\<open>EEPROM\<close> (\<open>src/EEPROM\<close>). \<open>Eeprom\<close>: the class, its reachable states and their invariant, the power
  cycle; the locale \<open>word_store\<close> gives the sketch 32-bit words in it.

  \<^bold>\<open>The sketch.\<close> \<open>Logger_State\<close>: the globals of \<open>esplog.ino\<close>, the day words and their deletion
  (\<open>functions.ino\<close>). \<open>Logger_Meter\<close>: \<open>FuenfMinutenTimer\<close>. \<open>Logger_Calendar\<close>: summer time, printed
  dates, the month of the yield page. \<open>Logger_Device\<close>: logger, clock and the rest of the device in
  one record; LED, log file, backup; a pass of the loop during which the clock shows one second
  (\<open>quiet\<close>). \<open>Logger_Fhem\<close>: \<open>sendfhem.ino\<close>. \<open>Logger_Loop\<close>: \<open>loop.ino\<close>, and what a pass does in the
  five-minute slots of a day. \<open>Logger_Midnight\<close>: the change of the day, the backup file read back.
  \<open>Logger_Setup\<close>: the output values and the settings and table restored from the EEPROM
  (\<open>setup.ino\<close>). \<open>Logger_Html\<close>: the pages as text. \<open>Logger_Web\<close>: the page handlers of \<open>websites.ino\<close>
  on the server's state, the file list and the upload. \<open>Logger_Settings\<close>: what a setting is after a
  restart. \<open>Logger_Boot\<close>: network, time, registration of the handlers, \<open>setup\<close> and \<open>loop\<close> as wholes,
  and which pages are behind the password. \<open>Logger_Typed\<close>: runs of the whole program as a step
  relation, and the sizes of the arrays as its invariant.

  \<^bold>\<open>Web server\<close> (\<open>src/ESP8266WebServer\<close>). \<open>Http_Args\<close>: arguments of a query. \<open>Http_State\<close>: the server's
  fields and the connection seen as the text still to be read and the text written.
  \<open>Http_Response\<close>: headers, status line, sending in pieces, basic authentication.
  \<open>Http_Handlers\<close>: function and static-file handlers and the choice among them. \<open>Http_Form\<close>:
  multipart bodies. \<open>Http_Request\<close>: a whole request. \<open>Http_Server\<close>: \<open>handleClient\<close>, its reachable
  states and status invariant. \<open>Http_Update\<close>: the firmware page (\<open>src/ESP8266HTTPUpdateServer\<close>).
  The loops of \<open>_parseForm\<close> are partial functions; the theorems say for which input they return and
  for which they do not. The first line of a request is read by the code three times at most.

  \<^bold>\<open>Network\<close> (\<open>src/ESP8266WiFi\<close>). \<open>Client_Context\<close>: a TCP connection; the locale \<open>byte_queue\<close>
  is the contract of its receive side. \<open>Slist\<close>, \<open>Refcount\<close>: the registry of objects and reference
  counting, the latter a locale that \<open>Wifi_Client\<close>, \<open>Wifi_Udp\<close> and \<open>Wifi_Secure\<close> interpret.
  \<open>Wifi_Client\<close>: client objects over a heap of connections. \<open>Wifi_Secure\<close>: TLS clients on top of
  them, their shared contexts, key and certificate, and the check of a server; the TLS library is a
  parameter. \<open>Wifi_Server\<close>: the queue of accepted connections. \<open>Wifi_Generic\<close>, \<open>Wifi_Sta\<close>,
  \<open>Wifi_Ap\<close>, \<open>Wifi_Scan\<close>: the \<open>WiFi\<close> object, that is radio mode, sleep and events, the station with
  its stored configuration, the access point, scans and the choice of a network, over a record of the
  SDK's functions.
  \<open>Udp_Context\<close>, \<open>Wifi_Udp\<close>: datagrams. \<open>Ntp_Client\<close> (\<open>src/EasyNTPClient\<close>): the request and its
  answer over the locale \<open>datagram_socket\<close>; 15 polls of 150 ms are the bound of the code.

  \<^bold>\<open>How the parts meet.\<close> The sketch calls the EEPROM through \<open>word_store\<close>, the clock through
  \<open>ask_clock\<close> and \<open>ask_cache\<close>; the clock's provider is the NTP client's \<open>getUnixTime\<close>. The running
  sketch is the application state of the web server: the pages and the update page are handlers of
  its chain, and \<open>loop\<close> ends with \<open>handleClient\<close>. Clients and servers share one heap of
  connections.

  \<^bold>\<open>Not modelled.\<close> The debug build; \<open>ssl.h\<close> but for its constants (declarations of a library that
  is not in the repository) and the wrappers of \<open>malloc\<close> that it calls; the examples of the
  libraries, which are programs of their own; style sheets and keyword lists; the timing of interrupts
  within a routine.
\<close>

end
